theory Spec2Isabelle
  imports Main
begin

section \<open>Python values and failures\<close>

text \<open>
  Every \<^verbatim>\<open>raise\<close> of the sources is a value.  The pool engine
  (\<^verbatim>\<open>dosna/dataset.py\<close>) has a single exception class,
  \<^verbatim>\<open>DatasetException\<close>; its raise sites are told apart by a tag that stands
  for the message.  The other constructors are the exceptions of Python, numpy and the
  object-store client that the modelled code can run into, and the exceptions of the RAM
  backend (\<^verbatim>\<open>dosna/backends/ram.py\<close>).
\<close>

datatype ds_msg =
    InvalidSlicingType      \<comment> \<open>\<^verbatim>\<open>Invalid Slicing with index of type ...\<close>\<close>
  | InvalidSlicingDim       \<comment> \<open>\<^verbatim>\<open>Invalid slicing of dataset of dimension ...\<close>\<close>
  | OutOfBoundsSlicing      \<comment> \<open>\<^verbatim>\<open>Only possitive and in-bounds slicing supported\<close>\<close>
  | StepSlicing             \<comment> \<open>\<^verbatim>\<open>Only slicing with step 1 supported\<close>\<close>
  | InvalidSliceEntry       \<comment> \<open>\<^verbatim>\<open>Invalid type ... in slicing\<close>\<close>
  | OutOfLimitsChunk        \<comment> \<open>\<^verbatim>\<open>Out of limits chunk indexing of chunk ...\<close>\<close>
  | IncorrectChunkFormat    \<comment> \<open>\<^verbatim>\<open>Incorrect chunk indexing format ...\<close>\<close>
  | ObjectAlreadyExists     \<comment> \<open>\<^verbatim>\<open>Object ... already exists in pool ...\<close>\<close>
  | NoDatasetFound          \<comment> \<open>\<^verbatim>\<open>No dataset ... found in pool ...\<close>\<close>
  | NoChunkFound            \<comment> \<open>\<^verbatim>\<open>No chunk ... found on pool ...\<close>\<close>
  | ChunkShapeMismatch      \<comment> \<open>\<^verbatim>\<open>Cannot set chunk of shape ... with data of shape ...\<close>\<close>
  | DataShapeMismatch       \<comment> \<open>\<^verbatim>\<open>Data shape ... does not match chunk shape ...\<close>\<close>
  | ChunkDimMismatch        \<comment> \<open>\<^verbatim>\<open>Dimension of chunks does not match the data shape\<close>\<close>
  | ReadOnlyDataset         \<comment> \<open>\<^verbatim>\<open>Dataset ... is read-only\<close>\<close>

datatype error =
    DatasetException ds_msg
  | ObjectNotFound                 \<comment> \<open>\<^verbatim>\<open>rados.ObjectNotFound\<close>\<close>
  | NoData                         \<comment> \<open>\<^verbatim>\<open>rados.NoData\<close>: no such attribute\<close>
  | IndexError
  | ValueError
  | TypeError
  | AttributeError
  | ZeroDivisionError
  | OverflowError
  | GroupNotFoundError "string list"
  | PyException "string list"      \<comment> \<open>\<^verbatim>\<open>Exception(arg, ...)\<close> with its arguments\<close>

section \<open>Slices and indices\<close>

text \<open>
  \<^verbatim>\<open>slice(start, stop, step)\<close>: each field is an integer or \<^verbatim>\<open>None\<close>.
  An index handed to \<^verbatim>\<open>Dataset.__getitem__\<close> is a single entry or a list/tuple of
  entries; an entry is an integer, a slice, \<^verbatim>\<open>Ellipsis\<close>, or a value of any other
  type (\<open>EOther\<close>).
\<close>

datatype pyslice = Slice (start: "int option") (stop: "int option") (step: "int option")

datatype entry = EInt int | ESlice pyslice | EEllipsis | EOther

datatype index = Single entry | Seq "entry list"

text \<open>
  \<^verbatim>\<open>slice(a, b)\<close> with both bounds integers and no step: what
  \<^verbatim>\<open>_process_slices\<close> builds and \<^verbatim>\<open>_get_chunk_slice_iterator\<close> reads and builds.
\<close>

datatype bslice = Sl (bstart: int) (bstop: int)

abbreviation slice_None :: entry where
  "slice_None \<equiv> ESlice (Slice None None None)"

section \<open>The pool-engine Dataset\<close>

text \<open>
  The attributes \<^verbatim>\<open>Dataset.__init__\<close> caches.  \<^verbatim>\<open>ndim\<close> and
  \<^verbatim>\<open>total_chunks\<close> are computed there from \<^verbatim>\<open>shape\<close> and \<^verbatim>\<open>chunks\<close>
  and never change, so they are functions of the record.
\<close>

record 'a dataset =
  name :: string
  shape :: "int list"
  dtype :: string
  fillvalue :: 'a
  chunks :: "int list"
  chunk_size :: "int list"
  njobs :: "int option"
  read_only :: bool

definition ndim :: "'a dataset \<Rightarrow> nat" where
  "ndim ds = length (shape ds)"

text \<open>
  \<^verbatim>\<open>np.prod\<close> of integers is a 64-bit integer: the product wraps around (extents are
  taken to fit 64 bits).
\<close>

definition wrap_int64 :: "int \<Rightarrow> int" where
  "wrap_int64 x = (x + 2 ^ 63) mod 2 ^ 64 - 2 ^ 63"

definition total_chunks :: "'a dataset \<Rightarrow> int" where
  "total_chunks ds = wrap_int64 (prod_list (chunks ds))"

subsection \<open>\<^verbatim>\<open>Dataset._process_slices\<close>\<close>

text \<open>The first \<^verbatim>\<open>if\<close> chain: a single entry is wrapped, a list or tuple is copied.\<close>

fun wrap_index :: "index \<Rightarrow> error + entry list" where
  "wrap_index (Single (ESlice s)) = Inr [ESlice s]"
| "wrap_index (Single (EInt i)) = Inr [EInt i]"
| "wrap_index (Single EEllipsis) = Inr [slice_None]"
| "wrap_index (Single EOther) = Inl (DatasetException InvalidSlicingType)"
| "wrap_index (Seq es) = Inr es"

text \<open>\<^verbatim>\<open>slices.index(Ellipsis)\<close>, where \<^verbatim>\<open>Ellipsis in slices\<close> holds.\<close>

fun index_of :: "entry \<Rightarrow> entry list \<Rightarrow> nat" where
  "index_of x [] = 0"
| "index_of x (y # ys) = (if y = x then 0 else Suc (index_of x ys))"

text \<open>
  \<^verbatim>\<open>while Ellipsis in slices: idx = slices.index(Ellipsis);
  slices = slices[:idx] + [slice(None)] * (nmiss+1) + slices[idx+1:]\<close>
\<close>

function expand_ellipsis :: "nat \<Rightarrow> entry list \<Rightarrow> entry list" where
  "expand_ellipsis nmiss slices =
     (if EEllipsis \<in> set slices then
        (let idx = index_of EEllipsis slices in
         expand_ellipsis nmiss
           (take idx slices @ replicate (nmiss + 1) slice_None @ drop (idx + 1) slices))
      else slices)"
  by pat_completeness auto

lemma count_take_index_of:
  "x \<in> set xs \<Longrightarrow> count_list (take (index_of x xs) xs) x = 0"
  by (induction xs) auto

lemma count_drop_index_of:
  "x \<in> set xs \<Longrightarrow> count_list (drop (index_of x xs + 1) xs) x < count_list xs x"
  by (induction xs) auto

lemma count_list_replicate_other:
  "y \<noteq> x \<Longrightarrow> count_list (replicate n y) x = 0"
  by (induction n) auto

termination expand_ellipsis
proof (relation "measure (\<lambda>(nmiss, slices). count_list slices EEllipsis)", goal_cases)
  case 1
  show ?case by simp
next
  case (2 nmiss slices idx)
  then show ?case
    using count_take_index_of [of EEllipsis slices] count_drop_index_of [of EEllipsis slices]
    by (simp add: count_list_replicate_other)
qed

declare expand_ellipsis.simps [simp del]

text \<open>
  The block that fits the index to the rank.  The \<^verbatim>\<open>elif\<close> belongs to the
  first test, so an index that the ellipsis expansion makes longer than the rank is not
  rejected here.
\<close>

definition fit_slices :: "nat \<Rightarrow> entry list \<Rightarrow> error + entry list" where
  "fit_slices nd slices =
     (if length slices \<le> nd then
        (let nmiss = nd - length slices;
             slices1 = expand_ellipsis nmiss slices
         in if length slices1 < nd then Inr (slices1 @ replicate nmiss slice_None)
            else Inr slices1)
      else Inl (DatasetException InvalidSlicingDim))"

text \<open>\<^verbatim>\<open>shape[i]\<close> for \<open>i \<ge> 0\<close>: an \<^verbatim>\<open>IndexError\<close> beyond the tuple.\<close>

definition shape_at :: "int list \<Rightarrow> nat \<Rightarrow> error + int" where
  "shape_at shp i = (if i < length shp then Inr (shp ! i) else Inl IndexError)"

text \<open>
  One entry of the loop \<^verbatim>\<open>for i, s in enumerate(slices)\<close>: the slice appended to
  \<^verbatim>\<open>final_slices\<close>, and whether \<open>i\<close> is appended to \<^verbatim>\<open>squeeze_axis\<close>.
  The order of the tests, and the places where \<^verbatim>\<open>shape[i]\<close> is read, are the source's:
  \<^verbatim>\<open>start < 0 or start >= self.shape[i]\<close> reads the shape only when \<open>start \<ge> 0\<close>.
\<close>

fun normalize_entry :: "int list \<Rightarrow> nat \<Rightarrow> entry \<Rightarrow> error + (bslice \<times> bool)" where
  "normalize_entry shp i (EInt s) = Inr (Sl s (s + 1), True)"
| "normalize_entry shp i (ESlice s) =
     (let start0 = (case start s of None \<Rightarrow> 0 | Some a \<Rightarrow> a) in
      case (case stop s of None \<Rightarrow> shape_at shp i | Some b \<Rightarrow> Inr b) of
        Inl e \<Rightarrow> Inl e
      | Inr stop0 \<Rightarrow>
          if start0 < 0 then Inl (DatasetException OutOfBoundsSlicing)
          else (case shape_at shp i of
                  Inl e \<Rightarrow> Inl e
                | Inr n \<Rightarrow>
                    if start0 \<ge> n then Inl (DatasetException OutOfBoundsSlicing)
                    else if stop0 < 0 \<or> stop0 > n \<or> stop0 < start0
                      then Inl (DatasetException OutOfBoundsSlicing)
                    else if step s \<noteq> None \<and> step s \<noteq> Some 1
                      then Inl (DatasetException StepSlicing)
                    else Inr (Sl start0 stop0, False)))"
| "normalize_entry shp i e = Inl (DatasetException InvalidSliceEntry)"

fun normalize_loop ::
  "int list \<Rightarrow> nat \<Rightarrow> entry list \<Rightarrow> bslice list \<Rightarrow> nat list \<Rightarrow> error + (bslice list \<times> nat list)"
where
  "normalize_loop shp i [] final_slices squeeze_axis = Inr (final_slices, squeeze_axis)"
| "normalize_loop shp i (s # rest) final_slices squeeze_axis =
     (case normalize_entry shp i s of
        Inl e \<Rightarrow> Inl e
      | Inr (sl, sq) \<Rightarrow>
          normalize_loop shp (Suc i) rest (final_slices @ [sl])
            (if sq then squeeze_axis @ [i] else squeeze_axis))"

text \<open>\<^verbatim>\<open>_process_slices(slices, detect_squeeze=True)\<close>\<close>

definition process_slices_squeeze :: "'a dataset \<Rightarrow> index \<Rightarrow> error + (bslice list \<times> nat list)" where
  "process_slices_squeeze ds slices =
     (case wrap_index slices of
        Inl e \<Rightarrow> Inl e
      | Inr slices1 \<Rightarrow>
          (case fit_slices (ndim ds) slices1 of
             Inl e \<Rightarrow> Inl e
           | Inr slices2 \<Rightarrow> normalize_loop (shape ds) 0 slices2 [] []))"

text \<open>\<^verbatim>\<open>_process_slices(slices)\<close>: the same, returning \<^verbatim>\<open>final_slices\<close> alone.\<close>

definition process_slices :: "'a dataset \<Rightarrow> index \<Rightarrow> error + bslice list" where
  "process_slices ds slices =
     (case process_slices_squeeze ds slices of
        Inl e \<Rightarrow> Inl e
      | Inr (final_slices, squeeze_axis) \<Rightarrow> Inr final_slices)"

subsection \<open>\<^verbatim>\<open>Dataset._get_chunk_slice_iterator\<close>\<close>

text \<open>
  The body of the loop over \<^verbatim>\<open>zip(slices, self.chunk_size, self.chunks)\<close> for one
  axis: the lists \<^verbatim>\<open>index\<close>, \<^verbatim>\<open>ltarget\<close> and \<^verbatim>\<open>gtarget\<close> built by
  \<^verbatim>\<open>for i in range(start_chunk, end_chunk+1)\<close>.  Python's \<^verbatim>\<open>//\<close> is the floor
  division of \<open>int\<close> and raises on a zero divisor.
\<close>

definition axis_targets :: "bslice \<Rightarrow> int \<Rightarrow> int \<Rightarrow> error + (int list \<times> bslice list \<times> bslice list)" where
  "axis_targets slice_axis chunk_axis_size max_chunks =
     (if chunk_axis_size = 0 then Inl ZeroDivisionError
      else
        (let start_chunk = bstart slice_axis div chunk_axis_size;
             end_chunk = min (bstop slice_axis div chunk_axis_size) (max_chunks - 1);
             pad_start = bstart slice_axis - start_chunk * chunk_axis_size;
             pad_stop = bstop slice_axis - max 0 end_chunk * chunk_axis_size;
             lstart = (\<lambda>i. if i = start_chunk then pad_start else 0);
             lstop = (\<lambda>i. if i = end_chunk then pad_stop else chunk_axis_size);
             gchunk = (\<lambda>i. i * chunk_axis_size - bstart slice_axis)
         in Inr (map (\<lambda>i. i) [start_chunk..end_chunk],
                 map (\<lambda>i. Sl (lstart i) (lstop i)) [start_chunk..end_chunk],
                 map (\<lambda>i. Sl (gchunk i + lstart i) (gchunk i + lstop i))
                   [start_chunk..end_chunk])))"

text \<open>The loop over the axes; \<^verbatim>\<open>zip\<close> stops at the shortest of the three lists.\<close>

fun axes_targets ::
  "bslice list \<Rightarrow> int list \<Rightarrow> int list \<Rightarrow>
     error + (int list list \<times> bslice list list \<times> bslice list list)"
where
  "axes_targets (s # ss) (c # cs) (m # ms) =
     (case axis_targets s c m of
        Inl e \<Rightarrow> Inl e
      | Inr (index, ltarget, gtarget) \<Rightarrow>
          (case axes_targets ss cs ms of
             Inl e \<Rightarrow> Inl e
           | Inr (indexes, ltargets, gtargets) \<Rightarrow>
               Inr (index # indexes, ltarget # ltargets, gtarget # gtargets)))"
| "axes_targets ss cs ms = Inr ([], [], [])"

text \<open>
  \<^verbatim>\<open>np.ndindex(*dims)\<close>: all index tuples below \<open>dims\<close>, the last axis running
  fastest; one empty tuple when there is no axis.
\<close>

fun ndindex :: "nat list \<Rightarrow> nat list list" where
  "ndindex [] = [[]]"
| "ndindex (n # ns) = concat (map (\<lambda>i. map ((#) i) (ndindex ns)) [0..<n])"

text \<open>
  The generator \<^verbatim>\<open>__chunk_iterator\<close>, as the list of the records it yields:
  \<^verbatim>\<open>(tuple(_index), _lslice, _gslice)\<close> for every \<^verbatim>\<open>idx\<close> of
  \<^verbatim>\<open>np.ndindex(*[len(chunks_axis) for chunks_axis in indexes])\<close>.
\<close>

type_synonym chunk_record = "int list \<times> bslice list \<times> bslice list"

definition chunk_iterator ::
  "int list list \<Rightarrow> bslice list list \<Rightarrow> bslice list list \<Rightarrow> chunk_record list" where
  "chunk_iterator indexes ltargets gtargets =
     map (\<lambda>idx.
            (map (\<lambda>(n, j). indexes ! n ! j) (enumerate 0 idx),
             map (\<lambda>(n, j). ltargets ! n ! j) (enumerate 0 idx),
             map (\<lambda>(n, j). gtargets ! n ! j) (enumerate 0 idx)))
       (ndindex (map length indexes))"

definition get_chunk_slice_iterator :: "'a dataset \<Rightarrow> bslice list \<Rightarrow> error + chunk_record list" where
  "get_chunk_slice_iterator ds slices =
     (case axes_targets slices (chunk_size ds) (chunks ds) of
        Inl e \<Rightarrow> Inl e
      | Inr (indexes, ltargets, gtargets) \<Rightarrow> Inr (chunk_iterator indexes ltargets gtargets))"

text \<open>
  The ceiling of a quotient of integers, by floor division.
\<close>

definition ceil_div :: "int \<Rightarrow> int \<Rightarrow> int" where
  "ceil_div a b = - ((- a) div b)"

text \<open>
  The chunk grid \<^verbatim>\<open>Dataset.create\<close> stores:
  \<^verbatim>\<open>np.ceil(np.asarray(shape, float) / chunk_size).astype(int)\<close>.  On every axis the
  two extents become 64-bit floating-point numbers, their quotient is rounded to the
  nearest such number (ties to the even significand), and its ceiling is cast to a 64-bit
  integer.  A zero chunk extent makes the quotient infinite or undefined, and the cast
  gives \<open>- 2\<^sup>6\<^sup>3\<close> then, as for every value outside the 64-bit range.  (Extents are
  taken within the range of the normal floating-point numbers.)

  \<open>bit_length n\<close> is the number of binary digits of \<open>n\<close>; \<open>float64_quotient n d\<close> is
  the quotient of two positive integers rounded to 53 significant bits, as the significand
  \<open>m\<close> and the exponent \<open>s\<close> of the result \<open>m * 2\<^sup>s\<close>.
\<close>

fun bit_length :: "nat \<Rightarrow> nat" where
  "bit_length n = (if n = 0 then 0 else Suc (bit_length (n div 2)))"

declare bit_length.simps [simp del]

definition round_half_even :: "int \<Rightarrow> int \<Rightarrow> int" where
  "round_half_even n d =
     (let q = n div d; r = n mod d
      in if 2 * r > d \<or> (2 * r = d \<and> odd q) then q + 1 else q)"

definition float64_quotient :: "int \<Rightarrow> int \<Rightarrow> int \<times> int" where
  "float64_quotient n d =
     (let k = int (bit_length (nat n)) - int (bit_length (nat d));
          e = (if (if 0 \<le> k then d * 2 ^ nat k \<le> n else d \<le> n * 2 ^ nat (- k))
               then k else k - 1);
          s = e - 52;
          m = (if 0 \<le> s then round_half_even n (d * 2 ^ nat s)
               else round_half_even (n * 2 ^ nat (- s)) d)
      in (m, s))"

text \<open>The floating-point number nearest to an integer; it is an integer.\<close>

definition float64_of_int :: "int \<Rightarrow> int" where
  "float64_of_int a =
     (if a = 0 then 0
      else (case float64_quotient \<bar>a\<bar> 1 of
              (m, s) \<Rightarrow> sgn a * (if 0 \<le> s then m * 2 ^ nat s else \<bar>a\<bar>)))"

definition chunks_axis :: "int \<Rightarrow> int \<Rightarrow> int" where
  "chunks_axis a b =
     (let x = float64_of_int a; y = float64_of_int b
      in if y = 0 then - (2 ^ 63)
         else if x = 0 then 0
         else (case float64_quotient \<bar>x\<bar> \<bar>y\<bar> of
                 (m, s) \<Rightarrow>
                   (let c = (if (0 < x) = (0 < y)
                             then (if 0 \<le> s then m * 2 ^ nat s
                                   else - ((- m) div 2 ^ nat (- s)))
                             else - (if 0 \<le> s then m * 2 ^ nat s else m div 2 ^ nat (- s)))
                    in if - (2 ^ 63) \<le> c \<and> c < 2 ^ 63 then c else - (2 ^ 63))))"

definition chunks_needed :: "int list \<Rightarrow> int list \<Rightarrow> int list" where
  "chunks_needed shp csize = map (\<lambda>(a, b). chunks_axis a b) (zip shp csize)"

text \<open>
  The geometry of a dataset: one positive chunk extent per axis, and as the chunk grid
  the ceiling of the quotient of shape and chunk size on every axis.  This is the grid
  \<^verbatim>\<open>Dataset.create\<close> stores as long as the floating-point quotient is exact enough
  for its ceiling; for extents beyond \<open>2\<^sup>5\<^sup>3\<close> it need not be.
\<close>

definition geometry_ok :: "'a dataset \<Rightarrow> bool" where
  "geometry_ok ds \<longleftrightarrow>
     length (chunk_size ds) = length (shape ds) \<and>
     list_all (\<lambda>c. 0 < c) (chunk_size ds) \<and>
     chunks ds = map (\<lambda>(a, b). ceil_div a b) (zip (shape ds) (chunk_size ds))"

text \<open>
  A normalized slice list that is in bounds: one slice per axis, with
  \<open>0 \<le> start < n\<close> and \<open>start \<le> stop \<le> n\<close> for the axis extent \<open>n\<close>.
\<close>

definition in_bounds :: "int list \<Rightarrow> bslice list \<Rightarrow> bool" where
  "in_bounds shp slices =
     list_all2 (\<lambda>s n. 0 \<le> bstart s \<and> bstart s < n \<and> bstart s \<le> bstop s \<and> bstop s \<le> n)
       slices shp"

text \<open>A point lies in the box of a slice list: on every axis, \<open>start \<le> x < stop\<close>.\<close>

definition in_box :: "bslice list \<Rightarrow> int list \<Rightarrow> bool" where
  "in_box sls p = list_all2 (\<lambda>s x. bstart s \<le> x \<and> x < bstop s) sls p"

text \<open>
  The requested region in the coordinates of the result array, whose shape is
  \<^verbatim>\<open>tuple(x.stop - x.start for x in slices)\<close>; the global slices of the records are in
  these coordinates.
\<close>

definition target_region :: "bslice list \<Rightarrow> bslice list" where
  "target_region slices = map (\<lambda>x. Sl 0 (bstop x - bstart x)) slices"

definition index_in_grid :: "int list \<Rightarrow> int list \<Rightarrow> bool" where
  "index_in_grid grid idx = list_all2 (\<lambda>i m. 0 \<le> i \<and> i < m) idx grid"

text \<open>
  A record \<open>(chunk index, local slices, global slices)\<close> addresses the same cells of the
  dataset through its chunk and through the requested region: on every axis, with chunk
  extent \<open>c\<close> and requested slice \<open>s\<close>, the local slice lies within the chunk,
  \<open>0 \<le> start \<le> stop \<le> c\<close>, and the position \<open>i * c + x\<close> of the chunk's cell
  \<open>x\<close> in the dataset is the position \<open>s.start + y\<close> of the cell \<open>y\<close> of the result,
  at both ends of the two slices.
\<close>

definition record_aligned :: "int list \<Rightarrow> bslice list \<Rightarrow> chunk_record \<Rightarrow> bool" where
  "record_aligned csize slices r =
     (case r of (idx, lslice, gslice) \<Rightarrow>
        length idx = length slices \<and> length lslice = length slices \<and>
        length gslice = length slices \<and>
        list_all (\<lambda>k. 0 \<le> bstart (lslice ! k) \<and> bstart (lslice ! k) \<le> bstop (lslice ! k) \<and>
                      bstop (lslice ! k) \<le> csize ! k \<and>
                      idx ! k * csize ! k + bstart (lslice ! k) =
                        bstart (slices ! k) + bstart (gslice ! k) \<and>
                      idx ! k * csize ! k + bstop (lslice ! k) =
                        bstart (slices ! k) + bstop (gslice ! k))
          [0..<length slices])"

subsection \<open>Exact cover by the chunk records\<close>

text \<open>
  The stored grid on one axis: the ceiling of the quotient for small extents, and
  \<open>- 2\<^sup>6\<^sup>3\<close> for a zero chunk extent.
\<close>

lemma chunks_axis_examples:
  "chunks_axis 10 3 = 4 \<and> chunks_axis 4 2 = 2 \<and> chunks_axis 0 5 = 0 \<and>
   chunks_axis 4 0 = - (2 ^ 63) \<and> chunks_axis 0 0 = - (2 ^ 63)"
  by code_simp

text \<open>Floor division by a positive divisor, as inequalities.\<close>

lemma le_div_iff_int: "0 < c \<Longrightarrow> (q \<le> y div c) = (q * c \<le> y)" for c :: int
proof
  assume c: "0 < c" and "q \<le> y div c"
  then have "q * c \<le> (y div c) * c" by (simp add: mult_right_mono)
  also have "\<dots> \<le> y"
    using div_mult_mod_eq [of y c] pos_mod_sign [of c y] c by linarith
  finally show "q * c \<le> y" .
next
  assume c: "0 < c" and "q * c \<le> y"
  then show "q \<le> y div c"
    using zdiv_mono1 [of "q * c" y c] by simp
qed

lemma div_less_iff_int: "0 < c \<Longrightarrow> (y div c < q) = (y < q * c)" for c :: int
  using le_div_iff_int [of c q y] by auto

lemma div_eq_iff_int:
  "0 < c \<Longrightarrow> (i = y div c) = (i * c \<le> y \<and> y < (i + 1) * c)" for c :: int
  using le_div_iff_int [of c i y] div_less_iff_int [of c y "i + 1"] by auto

lemma ceil_div_bounds:
  assumes "0 < c"
  shows "(ceil_div n c - 1) * c < n" and "n \<le> ceil_div n c * c"
proof -
  have "- ceil_div n c \<le> (- n) div c" by (simp add: ceil_div_def)
  then have "(- ceil_div n c) * c \<le> - n" using assms by (simp only: le_div_iff_int)
  then show "n \<le> ceil_div n c * c" by simp
  have "(- n) div c < - ceil_div n c + 1" by (simp add: ceil_div_def)
  then have "- n < (- ceil_div n c + 1) * c" using assms by (simp only: div_less_iff_int)
  then show "(ceil_div n c - 1) * c < n" by (simp add: algebra_simps)
qed

lemma axis_chunk_range:
  assumes c: "0 < c" and a: "0 \<le> a" "a < n" and b: "a \<le> b" "b \<le> n"
  shows "0 \<le> a div c" and "a div c \<le> min (b div c) (ceil_div n c - 1)"
proof -
  show "0 \<le> a div c" using c a by (simp add: pos_imp_zdiv_nonneg_iff)
  have "a div c \<le> b div c" using c b by (simp add: zdiv_mono1)
  moreover have "a < ceil_div n c * c" using ceil_div_bounds(2) [OF c, of n] a by linarith
  then have "a div c < ceil_div n c" using c by (simp only: div_less_iff_int)
  ultimately show "a div c \<le> min (b div c) (ceil_div n c - 1)" by simp
qed

lemma axis_cover:
  assumes c: "0 < c" and a: "0 \<le> a" "a < n" and b: "a \<le> b" "b \<le> n"
    and m: "m = ceil_div n c"
    and sc: "sc = a div c" and ec: "ec = min (b div c) (m - 1)"
    and i: "sc \<le> i" "i \<le> ec"
    and x: "0 \<le> x" "x < b - a"
  shows "((i * c - a + (if i = sc then a - sc * c else 0)) \<le> x \<and>
          x < (i * c - a + (if i = ec then b - max 0 ec * c else c)))
         \<longleftrightarrow> i = (x + a) div c"
proof -
  have sc_le: "sc * c \<le> a" using le_div_iff_int [OF c, of sc a] sc by simp
  have ec0: "0 \<le> ec" using axis_chunk_range [OF c a b] i sc ec m by linarith
  have b_le: "b \<le> (ec + 1) * c"
  proof (cases "b div c \<le> m - 1")
    case True
    then have "b div c < ec + 1" using ec by simp
    then show ?thesis using c by (simp only: div_less_iff_int)
  next
    case False
    then have "ec + 1 = m" using ec by simp
    then show ?thesis using ceil_div_bounds(2) [OF c, of n] b m by simp
  qed
  have "i * c - a + (if i = sc then a - sc * c else 0) \<le> x \<longleftrightarrow> i * c \<le> x + a"
    using sc_le x by auto
  moreover have "x < i * c - a + (if i = ec then b - max 0 ec * c else c) \<longleftrightarrow> x + a < (i + 1) * c"
    using b_le x ec0 by (auto simp: algebra_simps)
  ultimately show ?thesis using div_eq_iff_int [OF c, of i "x + a"] by simp
qed

lemma axis_inside:
  assumes c: "0 < c" and a: "0 \<le> a" "a < n" and b: "a \<le> b" "b \<le> n"
    and m: "m = ceil_div n c"
    and sc: "sc = a div c" and ec: "ec = min (b div c) (m - 1)"
    and i: "sc \<le> i" "i \<le> ec"
  shows "0 \<le> i * c - a + (if i = sc then a - sc * c else 0)"
    and "i * c - a + (if i = ec then b - max 0 ec * c else c) \<le> b - a"
    and "0 \<le> i" and "i < m"
    and "0 \<le> i * c - a + (if i = ec then b - max 0 ec * c else c)"
    and "0 \<le> (if i = sc then a - sc * c else 0)"
    and "(if i = sc then a - sc * c else 0) \<le> (if i = ec then b - max 0 ec * c else c)"
    and "(if i = ec then b - max 0 ec * c else c) \<le> c"
proof -
  have ec0: "0 \<le> ec" using axis_chunk_range [OF c a b] i sc ec m by linarith
  have sc_le: "sc * c \<le> a" using le_div_iff_int [OF c, of sc a] sc by simp
  have a_lt: "a < (sc + 1) * c" using div_less_iff_int [OF c, of a "sc + 1"] sc by simp
  have ec_le: "ec * c \<le> b" using le_div_iff_int [OF c, of ec b] ec by simp
  have b_le: "b \<le> (ec + 1) * c"
  proof (cases "b div c \<le> m - 1")
    case True
    then have "b div c < ec + 1" using ec by simp
    then show ?thesis using c by (simp only: div_less_iff_int)
  next
    case False
    then have "ec + 1 = m" using ec by simp
    then show ?thesis using ceil_div_bounds(2) [OF c, of n] b m by simp
  qed
  show "0 \<le> (if i = sc then a - sc * c else 0)" using sc_le by simp
  show "(if i = ec then b - max 0 ec * c else c) \<le> c"
    using b_le ec0 by (simp add: algebra_simps)
  show "(if i = sc then a - sc * c else 0) \<le> (if i = ec then b - max 0 ec * c else c)"
    using sc_le a_lt ec_le b ec0 c by (auto simp: algebra_simps)
  show "0 \<le> i" using axis_chunk_range(1) [OF c a b] i sc by linarith
  show "i < m" using i ec by simp
  have lt: "a < (sc + 1) * c" using div_less_iff_int [OF c, of a "sc + 1"] sc by simp
  moreover have "i \<noteq> sc \<Longrightarrow> (sc + 1) * c \<le> i * c" using i c by (simp add: mult_right_mono)
  ultimately show "0 \<le> i * c - a + (if i = sc then a - sc * c else 0)" by auto
  have "(sc + 1) * c \<le> (i + 1) * c" using i c by (simp add: mult_right_mono)
  then show "0 \<le> i * c - a + (if i = ec then b - max 0 ec * c else c)"
    using lt b ec0 by (auto simp: algebra_simps)
  have "ec * c \<le> b" using le_div_iff_int [OF c, of ec b] ec by simp
  moreover have "i \<noteq> ec \<Longrightarrow> (i + 1) * c \<le> ec * c" using i c by (simp add: mult_right_mono)
  ultimately show "i * c - a + (if i = ec then b - max 0 ec * c else c) \<le> b - a"
    using ec0 by (auto simp: algebra_simps)
qed

text \<open>The index tuples of \<^verbatim>\<open>np.ndindex\<close>: each one once.\<close>

lemma set_ndindex: "set (ndindex ns) = {idx. list_all2 (<) idx ns}"
proof (induction ns)
  case Nil
  show ?case by auto
next
  case (Cons n ns)
  show ?case
  proof (rule set_eqI)
    fix idx
    show "idx \<in> set (ndindex (n # ns)) \<longleftrightarrow> idx \<in> {idx. list_all2 (<) idx (n # ns)}"
      using Cons by (cases idx) (auto simp: list_all2_Cons2)
  qed
qed

lemma distinct_prefixed_blocks:
  "distinct ys \<Longrightarrow> distinct (concat (map (\<lambda>i. map ((#) i) ys) [0..<n]))"
  by (induction n) (auto simp: distinct_map)

lemma distinct_ndindex: "distinct (ndindex ns)"
  by (induction ns) (simp_all add: distinct_prefixed_blocks)

lemma length_map_enumerate [simp]:
  "length (map (\<lambda>(n, j). f n j) (enumerate 0 idx)) = length idx"
  by simp

lemma nth_map_enumerate:
  "k < length idx \<Longrightarrow> map (\<lambda>(n, j). f n j) (enumerate 0 idx) ! k = f k (idx ! k)"
  by (simp add: nth_enumerate_eq)

lemma axis_targets_Inr:
  assumes "c \<noteq> 0"
  shows "axis_targets s c m =
     Inr ([bstart s div c..min (bstop s div c) (m - 1)],
          map (\<lambda>i. Sl (if i = bstart s div c then bstart s - bstart s div c * c else 0)
                       (if i = min (bstop s div c) (m - 1)
                        then bstop s - max 0 (min (bstop s div c) (m - 1)) * c else c))
            [bstart s div c..min (bstop s div c) (m - 1)],
          map (\<lambda>i. Sl (i * c - bstart s +
                          (if i = bstart s div c then bstart s - bstart s div c * c else 0))
                       (i * c - bstart s +
                          (if i = min (bstop s div c) (m - 1)
                           then bstop s - max 0 (min (bstop s div c) (m - 1)) * c else c)))
            [bstart s div c..min (bstop s div c) (m - 1)])"
  using assms by (simp add: axis_targets_def Let_def)

lemma axes_targets_nth:
  assumes "length cs = length ss" "length ms = length ss" "\<forall>k<length ss. cs ! k \<noteq> 0"
  shows "\<exists>Is Ls Gs. axes_targets ss cs ms = Inr (Is, Ls, Gs) \<and>
           length Is = length ss \<and> length Ls = length ss \<and> length Gs = length ss \<and>
           (\<forall>k<length ss. axis_targets (ss ! k) (cs ! k) (ms ! k) = Inr (Is ! k, Ls ! k, Gs ! k))"
  using assms
proof (induction ss arbitrary: cs ms)
  case Nil
  then show ?case by simp
next
  case (Cons s ss)
  then obtain c cs' m ms' where cs: "cs = c # cs'" and ms: "ms = m # ms'"
    by (metis length_Suc_conv)
  have c0: "c \<noteq> 0" using Cons.prems(3) cs by auto
  have rest: "\<forall>k<length ss. cs' ! k \<noteq> 0" using Cons.prems(3) cs by auto
  obtain I L G where a: "axis_targets s c m = Inr (I, L, G)"
    using axis_targets_Inr [OF c0] by blast
  from Cons.IH [of cs' ms'] Cons.prems cs ms rest
  obtain Is Ls Gs where r: "axes_targets ss cs' ms' = Inr (Is, Ls, Gs)"
    "length Is = length ss" "length Ls = length ss" "length Gs = length ss"
    "\<forall>k<length ss. axis_targets (ss ! k) (cs' ! k) (ms' ! k) = Inr (Is ! k, Ls ! k, Gs ! k)"
    by auto
  have "axes_targets (s # ss) cs ms = Inr (I # Is, L # Ls, G # Gs)"
    using a r(1) cs ms by simp
  moreover have "\<forall>k<length (s # ss). axis_targets ((s # ss) ! k) (cs ! k) (ms ! k)
      = Inr ((I # Is) ! k, (L # Ls) ! k, (G # Gs) ! k)"
    using a r(5) cs ms by (auto simp: nth_Cons split: nat.splits)
  ultimately show ?case using r(2-4) by auto
qed

text \<open>One axis: position of the chunk that holds a coordinate.\<close>

lemma axis_targets_facts:
  assumes c: "0 < c" and a: "0 \<le> bstart s" "bstart s < n" and b: "bstart s \<le> bstop s" "bstop s \<le> n"
    and r: "axis_targets s c (ceil_div n c) = Inr (I, L, G)"
  shows "length L = length I" and "length G = length I"
    and "\<forall>j<length I. 0 \<le> I ! j \<and> I ! j < ceil_div n c"
    and "\<forall>j<length I. \<forall>x. bstart (G ! j) \<le> x \<and> x < bstop (G ! j) \<longrightarrow> 0 \<le> x \<and> x < bstop s - bstart s"
    and "\<forall>x. 0 \<le> x \<and> x < bstop s - bstart s \<longrightarrow>
           nat ((x + bstart s) div c - bstart s div c) < length I \<and>
           (\<forall>j<length I. (bstart (G ! j) \<le> x \<and> x < bstop (G ! j)) \<longleftrightarrow>
               j = nat ((x + bstart s) div c - bstart s div c))"
    and "\<forall>j<length I. 0 \<le> bstart (G ! j) \<and> 0 \<le> bstop (G ! j)"
    and "\<forall>j<length I. 0 \<le> bstart (L ! j) \<and> bstart (L ! j) \<le> bstop (L ! j) \<and> bstop (L ! j) \<le> c \<and>
           I ! j * c + bstart (L ! j) = bstart s + bstart (G ! j) \<and>
           I ! j * c + bstop (L ! j) = bstart s + bstop (G ! j)"
proof -
  define sc where "sc = bstart s div c"
  define ec where "ec = min (bstop s div c) (ceil_div n c - 1)"
  have c0: "c \<noteq> 0" using c by simp
  from r axis_targets_Inr [OF c0, of s "ceil_div n c"]
  have I: "I = [sc..ec]"
    and G: "G = map (\<lambda>i. Sl (i * c - bstart s + (if i = sc then bstart s - sc * c else 0))
                       (i * c - bstart s + (if i = ec then bstop s - max 0 ec * c else c))) [sc..ec]"
    and L: "L = map (\<lambda>i. Sl (if i = sc then bstart s - sc * c else 0)
                       (if i = ec then bstop s - max 0 ec * c else c)) [sc..ec]"
    by (auto simp: sc_def ec_def)
  show "length L = length I" using I L by simp
  show "length G = length I" using I G by simp
  have len: "length I = nat (ec - sc + 1)" using I by simp
  have nthI: "I ! j = sc + int j" if "j < length I" for j
    using that I len by (simp add: nth_upto)
  have range: "sc \<le> sc + int j \<and> sc + int j \<le> ec" if "j < length I" for j
    using that len by auto
  note inside = axis_inside [OF c a b refl sc_def ec_def]
  show "\<forall>j<length I. 0 \<le> I ! j \<and> I ! j < ceil_div n c"
    using inside(3,4) range nthI by auto
  have nthG: "G ! j = Sl ((sc + int j) * c - bstart s + (if sc + int j = sc then bstart s - sc * c else 0))
                       ((sc + int j) * c - bstart s + (if sc + int j = ec then bstop s - max 0 ec * c else c))"
    if "j < length I" for j
    using that I G len by (simp add: nth_upto)
  have nthL: "L ! j = Sl (if sc + int j = sc then bstart s - sc * c else 0)
                       (if sc + int j = ec then bstop s - max 0 ec * c else c)"
    if "j < length I" for j
    using that I L len by (simp add: nth_upto)
  show "\<forall>j<length I. 0 \<le> bstart (L ! j) \<and> bstart (L ! j) \<le> bstop (L ! j) \<and> bstop (L ! j) \<le> c \<and>
           I ! j * c + bstart (L ! j) = bstart s + bstart (G ! j) \<and>
           I ! j * c + bstop (L ! j) = bstart s + bstop (G ! j)"
  proof (intro allI impI)
    fix j assume j: "j < length I"
    from inside(6,7,8) [of "sc + int j"] range [OF j]
    have "0 \<le> bstart (L ! j) \<and> bstart (L ! j) \<le> bstop (L ! j) \<and> bstop (L ! j) \<le> c"
      unfolding nthL [OF j] by simp
    moreover have "I ! j * c + bstart (L ! j) = bstart s + bstart (G ! j)"
      "I ! j * c + bstop (L ! j) = bstart s + bstop (G ! j)"
      unfolding nthL [OF j] nthG [OF j] nthI [OF j] by simp_all
    ultimately show "0 \<le> bstart (L ! j) \<and> bstart (L ! j) \<le> bstop (L ! j) \<and> bstop (L ! j) \<le> c \<and>
           I ! j * c + bstart (L ! j) = bstart s + bstart (G ! j) \<and>
           I ! j * c + bstop (L ! j) = bstart s + bstop (G ! j)" by simp
  qed
  show "\<forall>j<length I. 0 \<le> bstart (G ! j) \<and> 0 \<le> bstop (G ! j)"
  proof (intro allI impI)
    fix j assume j: "j < length I"
    from inside(1,5) [of "sc + int j"] range [OF j] nthG [OF j]
    show "0 \<le> bstart (G ! j) \<and> 0 \<le> bstop (G ! j)" by auto
  qed
  show "\<forall>j<length I. \<forall>x. bstart (G ! j) \<le> x \<and> x < bstop (G ! j) \<longrightarrow> 0 \<le> x \<and> x < bstop s - bstart s"
  proof (intro allI impI)
    fix j x assume j: "j < length I" and x: "bstart (G ! j) \<le> x \<and> x < bstop (G ! j)"
    from inside(1,2) [of "sc + int j"] range [OF j] nthG [OF j] x
    show "0 \<le> x \<and> x < bstop s - bstart s" by auto
  qed
  show "\<forall>x. 0 \<le> x \<and> x < bstop s - bstart s \<longrightarrow>
           nat ((x + bstart s) div c - bstart s div c) < length I \<and>
           (\<forall>j<length I. (bstart (G ! j) \<le> x \<and> x < bstop (G ! j)) \<longleftrightarrow>
               j = nat ((x + bstart s) div c - bstart s div c))"
  proof (intro allI impI)
    fix x assume x: "0 \<le> x \<and> x < bstop s - bstart s"
    let ?q = "(x + bstart s) div c"
    have q1: "sc \<le> ?q" unfolding sc_def using c x by (simp add: zdiv_mono1)
    have "?q \<le> bstop s div c" using c x by (simp add: zdiv_mono1)
    moreover have "x + bstart s < ceil_div n c * c"
      using ceil_div_bounds(2) [OF c, of n] x b by linarith
    then have "?q < ceil_div n c" using c by (simp only: div_less_iff_int)
    ultimately have q2: "?q \<le> ec" by (simp add: ec_def)
    have pos: "nat (?q - sc) < length I" using q1 q2 len by auto
    have iff: "(bstart (G ! j) \<le> x \<and> x < bstop (G ! j)) \<longleftrightarrow> j = nat (?q - sc)"
      if j: "j < length I" for j
    proof -
      have "(bstart (G ! j) \<le> x \<and> x < bstop (G ! j)) \<longleftrightarrow> sc + int j = ?q"
        using axis_cover [OF c a b refl sc_def ec_def, of "sc + int j" x] range [OF j] x nthG [OF j]
        by simp
      also have "\<dots> \<longleftrightarrow> j = nat (?q - sc)" using q1 by auto
      finally show ?thesis .
    qed
    show "nat (?q - bstart s div c) < length I \<and>
           (\<forall>j<length I. (bstart (G ! j) \<le> x \<and> x < bstop (G ! j)) \<longleftrightarrow>
               j = nat (?q - bstart s div c))"
      using pos iff by (simp add: sc_def)
  qed
qed

lemma in_box_nth:
  "in_box sls p \<longleftrightarrow> length sls = length p \<and> (\<forall>k<length sls. bstart (sls ! k) \<le> p ! k \<and> p ! k < bstop (sls ! k))"
  by (auto simp: in_box_def list_all2_conv_all_nth)

lemma chunk_records_facts:
  assumes geo: "geometry_ok ds" and inb: "in_bounds (shape ds) slices"
  shows "\<exists>recs. get_chunk_slice_iterator ds slices = Inr recs \<and>
           (\<forall>r\<in>set recs. index_in_grid (chunks ds) (fst r)) \<and>
           (\<forall>r\<in>set recs. \<forall>p. in_box (snd (snd r)) p \<longrightarrow> in_box (target_region slices) p) \<and>
           (\<forall>p. in_box (target_region slices) p \<longrightarrow>
                (\<exists>!j. j < length recs \<and> in_box (snd (snd (recs ! j))) p)) \<and>
           (\<forall>r\<in>set recs. length (snd (snd r)) = length slices \<and>
                list_all (\<lambda>g. 0 \<le> bstart g \<and> 0 \<le> bstop g) (snd (snd r))) \<and>
           (\<forall>r\<in>set recs. record_aligned (chunk_size ds) slices r)"
proof -
  define d where "d = length slices"
  define cs where "cs = chunk_size ds"
  define shp where "shp = shape ds"
  have lens: "length shp = d" "length cs = d" "length (chunks ds) = d"
    using geo inb
    by (auto simp: geometry_ok_def in_bounds_def d_def cs_def shp_def
        dest: list_all2_lengthD)
  have cpos: "0 < cs ! k" if "k < d" for k
    using geo that lens by (auto simp: geometry_ok_def cs_def list_all_length)
  have grid: "chunks ds ! k = ceil_div (shp ! k) (cs ! k)" if "k < d" for k
    using geo that lens by (simp add: geometry_ok_def cs_def shp_def)
  have bnd: "0 \<le> bstart (slices ! k) \<and> bstart (slices ! k) < shp ! k \<and>
             bstart (slices ! k) \<le> bstop (slices ! k) \<and> bstop (slices ! k) \<le> shp ! k"
    if "k < d" for k
    using inb that by (auto simp: in_bounds_def shp_def d_def list_all2_conv_all_nth)
  have "\<forall>k<length slices. cs ! k \<noteq> 0" using cpos d_def by fastforce
  from axes_targets_nth [of cs slices "chunks ds", OF _ _ this] lens
  obtain Is Ls Gs where ax: "axes_targets slices cs (chunks ds) = Inr (Is, Ls, Gs)"
    and lenI: "length Is = d" and lenL: "length Ls = d" and lenG: "length Gs = d"
    and axk: "\<And>k. k < d \<Longrightarrow>
       axis_targets (slices ! k) (cs ! k) (chunks ds ! k) = Inr (Is ! k, Ls ! k, Gs ! k)"
    unfolding d_def by auto
  have axk': "axis_targets (slices ! k) (cs ! k) (ceil_div (shp ! k) (cs ! k)) =
      Inr (Is ! k, Ls ! k, Gs ! k)" if "k < d" for k
    using axk [OF that] grid [OF that] by simp
  note facts = axis_targets_facts [OF cpos _ _ _ _ axk']
  have lG: "length (Gs ! k) = length (Is ! k)" if "k < d" for k
    using facts(2) [OF that] bnd [OF that] that by blast
  have inI: "0 \<le> Is ! k ! j \<and> Is ! k ! j < chunks ds ! k" if "k < d" "j < length (Is ! k)" for k j
    using facts(3) [OF that(1)] bnd [OF that(1)] that grid [OF that(1)] by auto
  have inG: "0 \<le> x \<and> x < bstop (slices ! k) - bstart (slices ! k)"
    if "k < d" "j < length (Is ! k)" "bstart (Gs ! k ! j) \<le> x \<and> x < bstop (Gs ! k ! j)" for k j x
    using facts(4) [OF that(1)] bnd [OF that(1)] that by blast
  have nonneg: "0 \<le> bstart (Gs ! k ! j) \<and> 0 \<le> bstop (Gs ! k ! j)"
    if "k < d" "j < length (Is ! k)" for k j
    using facts(6) [OF that(1)] bnd [OF that(1)] that by blast
  have local: "0 \<le> bstart (Ls ! k ! j) \<and> bstart (Ls ! k ! j) \<le> bstop (Ls ! k ! j) \<and>
               bstop (Ls ! k ! j) \<le> cs ! k \<and>
               Is ! k ! j * cs ! k + bstart (Ls ! k ! j) =
                 bstart (slices ! k) + bstart (Gs ! k ! j) \<and>
               Is ! k ! j * cs ! k + bstop (Ls ! k ! j) =
                 bstart (slices ! k) + bstop (Gs ! k ! j)"
    if "k < d" "j < length (Is ! k)" for k j
    using facts(7) [OF that(1)] bnd [OF that(1)] that by blast
  define pos where "pos k x = nat ((x + bstart (slices ! k)) div cs ! k - bstart (slices ! k) div cs ! k)" for k x
  have cov: "pos k x < length (Is ! k) \<and>
        (\<forall>j<length (Is ! k). (bstart (Gs ! k ! j) \<le> x \<and> x < bstop (Gs ! k ! j)) \<longleftrightarrow> j = pos k x)"
    if "k < d" "0 \<le> x \<and> x < bstop (slices ! k) - bstart (slices ! k)" for k x
    using facts(5) [OF that(1)] bnd [OF that(1)] that unfolding pos_def by blast
  define dims where "dims = map length Is"
  define recs where "recs = chunk_iterator Is Ls Gs"
  have it: "get_chunk_slice_iterator ds slices = Inr recs"
    using ax by (simp add: get_chunk_slice_iterator_def recs_def cs_def)
  have lenrecs: "length recs = length (ndindex dims)"
    by (simp add: recs_def chunk_iterator_def dims_def)
  have idx_ok: "length idx = d \<and> (\<forall>k<d. idx ! k < length (Is ! k))"
    if "idx \<in> set (ndindex dims)" for idx
    using that lenI by (auto simp: set_ndindex dims_def list_all2_conv_all_nth)
  have rec_nth: "recs ! j = (map (\<lambda>(n, j). Is ! n ! j) (enumerate 0 (ndindex dims ! j)),
                            map (\<lambda>(n, j). Ls ! n ! j) (enumerate 0 (ndindex dims ! j)),
                            map (\<lambda>(n, j). Gs ! n ! j) (enumerate 0 (ndindex dims ! j)))"
    if "j < length recs" for j
    using that by (simp add: recs_def chunk_iterator_def dims_def)
  have box_rec: "in_box (snd (snd (recs ! j))) p \<longleftrightarrow>
      length p = d \<and> (\<forall>k<d. bstart (Gs ! k ! (ndindex dims ! j ! k)) \<le> p ! k \<and>
                             p ! k < bstop (Gs ! k ! (ndindex dims ! j ! k)))"
    if "j < length recs" for j p
  proof -
    have "ndindex dims ! j \<in> set (ndindex dims)" using that lenrecs by simp
    from idx_ok [OF this] show ?thesis
      by (auto simp: rec_nth [OF that] in_box_nth nth_enumerate_eq)
  qed
  have box_region: "in_box (target_region slices) p \<longleftrightarrow>
      length p = d \<and> (\<forall>k<d. 0 \<le> p ! k \<and> p ! k < bstop (slices ! k) - bstart (slices ! k))" for p
    by (auto simp: in_box_nth target_region_def d_def)
  have g1: "\<forall>r\<in>set recs. index_in_grid (chunks ds) (fst r)"
  proof
    fix r assume "r \<in> set recs"
    then obtain j where j: "j < length recs" "r = recs ! j" by (auto simp: in_set_conv_nth)
    have "ndindex dims ! j \<in> set (ndindex dims)" using j lenrecs by simp
    from idx_ok [OF this] inI lens show "index_in_grid (chunks ds) (fst r)"
      by (auto simp: j(2) rec_nth [OF j(1)] index_in_grid_def list_all2_conv_all_nth nth_enumerate_eq)
  qed
  have g2: "\<forall>r\<in>set recs. \<forall>p. in_box (snd (snd r)) p \<longrightarrow> in_box (target_region slices) p"
  proof (intro ballI allI impI)
    fix r p assume "r \<in> set recs" and b: "in_box (snd (snd r)) p"
    then obtain j where j: "j < length recs" "r = recs ! j" by (auto simp: in_set_conv_nth)
    have "ndindex dims ! j \<in> set (ndindex dims)" using j lenrecs by simp
    from idx_ok [OF this] b inG show "in_box (target_region slices) p"
      unfolding j(2) box_rec [OF j(1)] box_region by blast
  qed
  have g3: "\<exists>!j. j < length recs \<and> in_box (snd (snd (recs ! j))) p"
    if reg: "in_box (target_region slices) p" for p
  proof -
    from reg have lp: "length p = d"
      and px: "\<And>k. k < d \<Longrightarrow> 0 \<le> p ! k \<and> p ! k < bstop (slices ! k) - bstart (slices ! k)"
      unfolding box_region by auto
    define tgt where "tgt = map (\<lambda>k. pos k (p ! k)) [0..<d]"
    have "list_all2 (<) tgt dims"
      using cov px lenI by (auto simp: tgt_def dims_def list_all2_conv_all_nth)
    then have "tgt \<in> set (ndindex dims)" by (simp add: set_ndindex)
    then obtain j where j: "j < length (ndindex dims)" "ndindex dims ! j = tgt"
      by (auto simp: in_set_conv_nth)
    have jr: "j < length recs" using j lenrecs by simp
    have hit: "in_box (snd (snd (recs ! j))) p"
      unfolding box_rec [OF jr] j(2) using lp cov px by (auto simp: tgt_def)
    have uniq: "j' = j" if j': "j' < length recs" and b: "in_box (snd (snd (recs ! j'))) p" for j'
    proof -
      have mem: "ndindex dims ! j' \<in> set (ndindex dims)" using j' lenrecs by simp
      note ok = idx_ok [OF mem]
      have "ndindex dims ! j' ! k = pos k (p ! k)" if "k < d" for k
        using b cov [OF that px [OF that]] ok that unfolding box_rec [OF j'] by blast
      then have "ndindex dims ! j' = tgt"
        using ok by (auto simp: tgt_def intro!: nth_equalityI)
      then have "ndindex dims ! j' = ndindex dims ! j" using j(2) by simp
      then show ?thesis
        using j(1) j' lenrecs nth_eq_iff_index_eq [OF distinct_ndindex, of j' dims j] by simp
    qed
    show ?thesis using jr hit uniq by blast
  qed
  have g4: "\<forall>r\<in>set recs. length (snd (snd r)) = length slices \<and>
                list_all (\<lambda>g. 0 \<le> bstart g \<and> 0 \<le> bstop g) (snd (snd r))"
  proof
    fix r assume "r \<in> set recs"
    then obtain j where j: "j < length recs" "r = recs ! j" by (auto simp: in_set_conv_nth)
    have "ndindex dims ! j \<in> set (ndindex dims)" using j lenrecs by simp
    from idx_ok [OF this] nonneg
    show "length (snd (snd r)) = length slices \<and>
          list_all (\<lambda>g. 0 \<le> bstart g \<and> 0 \<le> bstop g) (snd (snd r))"
      by (auto simp: j(2) rec_nth [OF j(1)] d_def list_all_length nth_enumerate_eq)
  qed
  have g5: "\<forall>r\<in>set recs. record_aligned (chunk_size ds) slices r"
  proof
    fix r assume "r \<in> set recs"
    then obtain j where j: "j < length recs" "r = recs ! j" by (auto simp: in_set_conv_nth)
    have "ndindex dims ! j \<in> set (ndindex dims)" using j lenrecs by simp
    from idx_ok [OF this] have ok: "length (ndindex dims ! j) = d"
      "\<And>k. k < d \<Longrightarrow> ndindex dims ! j ! k < length (Is ! k)" by auto
    show "record_aligned (chunk_size ds) slices r"
      unfolding record_aligned_def j(2) rec_nth [OF j(1)]
      using ok local [OF _ ok(2)]
      by (simp add: d_def cs_def list_all_iff nth_enumerate_eq)
  qed
  show ?thesis using it g1 g2 g3 g4 g5 by blast
qed

text \<open>
  Claim C1.  For a dataset whose chunk grid is the one \<^verbatim>\<open>Dataset.create\<close> computes
  from positive chunk extents, and a normalized slice list that is in bounds,
  \<^verbatim>\<open>_get_chunk_slice_iterator\<close> returns records \<open>(chunk index, local slices, global
  slices)\<close> such that every chunk index lies in the chunk grid, every global sub-region
  lies inside the requested region, and every point of the requested region lies in the
  global sub-region of exactly one record (no gap, no overlap between two records).
  In every record the three parts belong together: the local slices lie within the
  chunk, and the chunk index with the local slices names the same cells of the dataset as
  the requested region with the global slices.
\<close>

theorem chunk_slice_iterator_exact_cover:
  assumes "geometry_ok ds" and "in_bounds (shape ds) slices"
  shows "\<exists>recs. get_chunk_slice_iterator ds slices = Inr recs \<and>
           (\<forall>r\<in>set recs. index_in_grid (chunks ds) (fst r)) \<and>
           (\<forall>r\<in>set recs. \<forall>p. in_box (snd (snd r)) p \<longrightarrow> in_box (target_region slices) p) \<and>
           (\<forall>p. in_box (target_region slices) p \<longrightarrow>
                (\<exists>!j. j < length recs \<and> in_box (snd (snd (recs ! j))) p)) \<and>
           (\<forall>r\<in>set recs. record_aligned (chunk_size ds) slices r)"
  using chunk_records_facts [OF assms] by blast

theorem chunk_slice_iterator_exact_cover_witness:
  "geometry_ok \<lparr>name = ''d'', shape = [10, 4], dtype = ''int64'', fillvalue = - 1 :: int,
       chunks = [4, 2], chunk_size = [3, 2], njobs = None, read_only = False\<rparr> \<and>
   in_bounds [10, 4] [Sl 2 7, Sl 1 4] \<and>
   (\<exists>recs. get_chunk_slice_iterator \<lparr>name = ''d'', shape = [10, 4], dtype = ''int64'',
         fillvalue = - 1 :: int, chunks = [4, 2], chunk_size = [3, 2], njobs = None,
         read_only = False\<rparr> [Sl 2 7, Sl 1 4] = Inr recs \<and>
      (\<forall>r\<in>set recs. index_in_grid [4, 2] (fst r)) \<and>
      (\<forall>r\<in>set recs. \<forall>p. in_box (snd (snd r)) p \<longrightarrow> in_box (target_region [Sl 2 7, Sl 1 4]) p) \<and>
      (\<forall>p. in_box (target_region [Sl 2 7, Sl 1 4]) p \<longrightarrow>
           (\<exists>!j. j < length recs \<and> in_box (snd (snd (recs ! j))) p)) \<and>
      (\<forall>r\<in>set recs. record_aligned [3, 2] [Sl 2 7, Sl 1 4] r))"
proof -
  let ?ds = "\<lparr>name = ''d'', shape = [10, 4], dtype = ''int64'', fillvalue = - 1 :: int,
       chunks = [4, 2], chunk_size = [3, 2], njobs = None, read_only = False\<rparr>"
  have g: "geometry_ok ?ds"
    by (simp add: geometry_ok_def ceil_div_def)
  have b: "in_bounds (shape ?ds) [Sl 2 7, Sl 1 4]"
    by (simp add: in_bounds_def)
  from chunk_slice_iterator_exact_cover [OF g b] g b show ?thesis by simp
qed

subsection \<open>Properties of slice normalization\<close>

text \<open>
  The failures the specification calls InvalidIndex: the \<^verbatim>\<open>DatasetException\<close>s raised
  by slice normalization and by chunk-index normalization.
\<close>

definition InvalidIndex :: "error \<Rightarrow> bool" where
  "InvalidIndex e \<longleftrightarrow>
     e \<in> DatasetException ` {InvalidSlicingType, InvalidSlicingDim, OutOfBoundsSlicing,
                             StepSlicing, InvalidSliceEntry, OutOfLimitsChunk,
                             IncorrectChunkFormat}"

text \<open>The entries of an index, and whether one of them is a slice with a step other than 1.\<close>

fun index_entries :: "index \<Rightarrow> entry list" where
  "index_entries (Single e) = [e]"
| "index_entries (Seq es) = es"

definition non_unit_step :: "pyslice \<Rightarrow> bool" where
  "non_unit_step s \<longleftrightarrow> step s \<noteq> None \<and> step s \<noteq> Some 1"

definition has_step_slice :: "index \<Rightarrow> bool" where
  "has_step_slice idx \<longleftrightarrow> list_ex (\<lambda>e. case e of ESlice s \<Rightarrow> non_unit_step s | _ \<Rightarrow> False) (index_entries idx)"

lemma index_of_split:
  "x \<in> set xs \<Longrightarrow>
     \<exists>pre post. xs = pre @ x # post \<and> take (index_of x xs) xs = pre \<and>
        drop (index_of x xs + 1) xs = post \<and> count_list pre x = 0"
proof (induction xs)
  case Nil
  then show ?case by simp
next
  case (Cons a xs)
  show ?case
  proof (cases "a = x")
    case True
    then show ?thesis by simp
  next
    case False
    then have "x \<in> set xs" using Cons.prems by auto
    from Cons.IH [OF this] obtain pre post where p: "xs = pre @ x # post"
      "take (index_of x xs) xs = pre" "drop (index_of x xs + 1) xs = post"
      "count_list pre x = 0" by blast
    have "a # xs = (a # pre) @ x # post" using p(1) by simp
    moreover have "take (index_of x (a # xs)) (a # xs) = a # pre" using False p(2) by simp
    moreover have "drop (index_of x (a # xs) + 1) (a # xs) = post" using False p(3) by simp
    moreover have "count_list (a # pre) x = 0" using False p(4) by simp
    ultimately show ?thesis by blast
  qed
qed

lemma expand_ellipsis_step:
  assumes "EEllipsis \<in> set es"
  shows "\<exists>pre post. es = pre @ EEllipsis # post \<and>
           expand_ellipsis nmiss es =
             expand_ellipsis nmiss (pre @ replicate (nmiss + 1) slice_None @ post) \<and>
           take (index_of EEllipsis es) es @ replicate (nmiss + 1) slice_None @
             drop (index_of EEllipsis es + 1) es = pre @ replicate (nmiss + 1) slice_None @ post"
proof -
  from index_of_split [OF assms] obtain pre post where
    p: "es = pre @ EEllipsis # post" "take (index_of EEllipsis es) es = pre"
       "drop (index_of EEllipsis es + 1) es = post" by blast
  have "expand_ellipsis nmiss es =
      expand_ellipsis nmiss (take (index_of EEllipsis es) es @ replicate (nmiss + 1) slice_None @
         drop (index_of EEllipsis es + 1) es)"
    using assms by (subst expand_ellipsis.simps) (simp add: Let_def)
  with p show ?thesis by metis
qed

lemma expand_ellipsis_length:
  "length (expand_ellipsis nmiss es) = length es + nmiss * count_list es EEllipsis"
proof (induction nmiss es rule: expand_ellipsis.induct)
  case (1 nmiss slices)
  show ?case
  proof (cases "EEllipsis \<in> set slices")
    case False
    then show ?thesis by (subst expand_ellipsis.simps) simp
  next
    case True
    from expand_ellipsis_step [OF True, of nmiss] obtain pre post where
      p: "slices = pre @ EEllipsis # post"
         "expand_ellipsis nmiss slices =
             expand_ellipsis nmiss (pre @ replicate (nmiss + 1) slice_None @ post)"
         "take (index_of EEllipsis slices) slices @ replicate (nmiss + 1) slice_None @
             drop (index_of EEllipsis slices + 1) slices = pre @ replicate (nmiss + 1) slice_None @ post"
      by blast
    have "length (expand_ellipsis nmiss (pre @ replicate (nmiss + 1) slice_None @ post)) =
        length (pre @ replicate (nmiss + 1) slice_None @ post) +
        nmiss * count_list (pre @ replicate (nmiss + 1) slice_None @ post) EEllipsis"
      using 1 [OF True refl] unfolding p(3) .
    moreover have "length slices = Suc (length pre + length post)"
      by (subst p(1)) simp
    moreover have "count_list slices EEllipsis =
        Suc (count_list pre EEllipsis + count_list post EEllipsis)"
      by (subst p(1)) simp
    ultimately show ?thesis
      unfolding p(2) by (simp add: count_list_replicate_other)
  qed
qed

lemma expand_ellipsis_keeps:
  "e \<in> set es \<Longrightarrow> e \<noteq> EEllipsis \<Longrightarrow> e \<in> set (expand_ellipsis nmiss es)"
proof (induction nmiss es rule: expand_ellipsis.induct)
  case (1 nmiss slices)
  show ?case
  proof (cases "EEllipsis \<in> set slices")
    case False
    then show ?thesis using 1(2) by (subst expand_ellipsis.simps) simp
  next
    case True
    from expand_ellipsis_step [OF True, of nmiss] obtain pre post where
      p: "slices = pre @ EEllipsis # post"
         "expand_ellipsis nmiss slices =
             expand_ellipsis nmiss (pre @ replicate (nmiss + 1) slice_None @ post)"
         "take (index_of EEllipsis slices) slices @ replicate (nmiss + 1) slice_None @
             drop (index_of EEllipsis slices + 1) slices = pre @ replicate (nmiss + 1) slice_None @ post"
      by blast
    have "set slices = set pre \<union> {EEllipsis} \<union> set post"
      by (subst p(1)) auto
    then have "e \<in> set (pre @ replicate (nmiss + 1) slice_None @ post)"
      using 1(2,3) by auto
    then have "e \<in> set (expand_ellipsis nmiss (pre @ replicate (nmiss + 1) slice_None @ post))"
      using 1(1) [OF True refl _ 1(3)] unfolding p(3) by blast
    then show ?thesis unfolding p(2) .
  qed
qed

lemma count_list_less_length:
  "x \<in> set es \<Longrightarrow> x \<noteq> y \<Longrightarrow> count_list es y < length es"
proof (induction es)
  case Nil
  then show ?case by simp
next
  case (Cons a es)
  have "count_list es y \<le> length es" by (rule count_le_length)
  with Cons show ?case by auto
qed

lemma normalize_entry_error:
  "i < length shp \<Longrightarrow> normalize_entry shp i e = Inl err \<Longrightarrow> InvalidIndex err"
  by (cases e) (auto simp: InvalidIndex_def shape_at_def Let_def split: option.splits if_splits)

lemma normalize_entry_step:
  "i < length shp \<Longrightarrow> non_unit_step s \<Longrightarrow> \<exists>err. normalize_entry shp i (ESlice s) = Inl err"
  by (auto simp: non_unit_step_def shape_at_def Let_def split: option.splits)

lemma normalize_loop_error:
  "i + length es \<le> length shp \<Longrightarrow> normalize_loop shp i es acc sq = Inl err \<Longrightarrow> InvalidIndex err"
proof (induction es arbitrary: i acc sq)
  case Nil
  then show ?case by simp
next
  case (Cons e es)
  have i: "i < length shp" using Cons.prems(1) by simp
  show ?case
  proof (cases "normalize_entry shp i e")
    case (Inl x)
    with Cons.prems(2) normalize_entry_error [OF i Inl] show ?thesis by simp
  next
    case (Inr r)
    obtain sl b where r: "r = (sl, b)" by (cases r)
    have "normalize_loop shp (Suc i) es (acc @ [sl]) (if b then sq @ [i] else sq) = Inl err"
      using Cons.prems(2) Inr r by simp
    with Cons.IH [of "Suc i"] Cons.prems(1) show ?thesis by simp
  qed
qed

lemma normalize_loop_step:
  "i + length es \<le> length shp \<Longrightarrow> ESlice s \<in> set es \<Longrightarrow> non_unit_step s \<Longrightarrow>
     \<exists>err. normalize_loop shp i es acc sq = Inl err"
proof (induction es arbitrary: i acc sq)
  case Nil
  then show ?case by simp
next
  case (Cons e es)
  have i: "i < length shp" using Cons.prems(1) by simp
  show ?case
  proof (cases "normalize_entry shp i e")
    case (Inl x)
    then show ?thesis by simp
  next
    case (Inr r)
    obtain sl b where r: "r = (sl, b)" by (cases r)
    have "e \<noteq> ESlice s" using normalize_entry_step [OF i Cons.prems(3)] Inr by auto
    then have "ESlice s \<in> set es" using Cons.prems(2) by simp
    from Cons.IH [of "Suc i", OF _ this Cons.prems(3)] Cons.prems(1)
    show ?thesis using Inr r by simp
  qed
qed

lemma fit_slices_rank:
  assumes "length es \<le> nd" and "count_list es EEllipsis \<le> 1 \<or> length es = nd"
  shows "\<exists>es'. fit_slices nd es = Inr es' \<and> length es' = nd \<and>
           (\<forall>e. e \<in> set es \<and> e \<noteq> EEllipsis \<longrightarrow> e \<in> set es')"
proof -
  let ?x = "expand_ellipsis (nd - length es) es"
  have len: "length ?x = length es + (nd - length es) * count_list es EEllipsis"
    by (rule expand_ellipsis_length)
  have keep: "\<forall>e. e \<in> set es \<and> e \<noteq> EEllipsis \<longrightarrow> e \<in> set ?x"
    using expand_ellipsis_keeps by blast
  consider "length es = nd" | "length es < nd" "count_list es EEllipsis = 0"
    | "length es < nd" "count_list es EEllipsis = 1"
    using assms by linarith
  then show ?thesis
  proof cases
    case 1
    then show ?thesis using len keep by (simp add: fit_slices_def Let_def)
  next
    case 2
    then show ?thesis using len keep by (auto simp: fit_slices_def Let_def)
  next
    case 3
    then show ?thesis using len keep by (simp add: fit_slices_def Let_def)
  qed
qed

lemma step_slice_rejected:
  assumes nd: "ndim ds \<le> 3" and bad: "has_step_slice idx"
  shows "\<exists>e. process_slices_squeeze ds idx = Inl e \<and> InvalidIndex e"
proof -
  from bad obtain x where x: "x \<in> set (index_entries idx)"
      "case x of ESlice s \<Rightarrow> non_unit_step s | _ \<Rightarrow> False"
    by (auto simp: has_step_slice_def list_ex_iff)
  have "\<exists>s. x = ESlice s \<and> non_unit_step s"
    using x(2) by (simp split: entry.splits)
  then obtain s where s: "ESlice s \<in> set (index_entries idx)" "non_unit_step s"
    using x(1) by auto
  have w: "wrap_index idx = Inr (index_entries idx)"
    using s(1) by (cases idx rule: wrap_index.cases) auto
  let ?es = "index_entries idx"
  show ?thesis
  proof (cases "length ?es \<le> ndim ds")
    case False
    then show ?thesis
      using w by (simp add: process_slices_squeeze_def fit_slices_def InvalidIndex_def)
  next
    case True
    have "count_list ?es EEllipsis < length ?es"
      using count_list_less_length [OF s(1)] by simp
    then have "count_list ?es EEllipsis \<le> 1 \<or> length ?es = ndim ds"
      using True nd by linarith
    from fit_slices_rank [OF True this] obtain es' where
      f: "fit_slices (ndim ds) ?es = Inr es'" "length es' = ndim ds" "ESlice s \<in> set es'"
      using s(1) by auto
    have le: "0 + length es' \<le> length (shape ds)" using f(2) by (simp add: ndim_def)
    from normalize_loop_step [OF le f(3) s(2)] obtain err where
      e: "normalize_loop (shape ds) 0 es' [] [] = Inl err" by blast
    from normalize_loop_error [OF le e] e w f(1) show ?thesis
      by (simp add: process_slices_squeeze_def)
  qed
qed

text \<open>
  Claim C2.  On a dataset of shape \<open>(10, 10, 10)\<close>, \<^verbatim>\<open>_process_slices\<close> turns the
  index \<^verbatim>\<open>(5, Ellipsis)\<close> into \<^verbatim>\<open>[slice(5,6), slice(0,10), slice(0,10)]\<close> with
  axis 0 recorded for squeezing; and every index that contains a slice whose step is
  present and not 1 makes it fail with an InvalidIndex failure (with and without
  \<^verbatim>\<open>detect_squeeze\<close>).
\<close>

theorem process_slices_rank3:
  assumes "shape ds = [10, 10, 10]"
  shows "process_slices_squeeze ds (Seq [EInt 5, EEllipsis]) = Inr ([Sl 5 6, Sl 0 10, Sl 0 10], [0]) \<and>
         (\<forall>idx. has_step_slice idx \<longrightarrow>
            (\<exists>e. process_slices_squeeze ds idx = Inl e \<and> process_slices ds idx = Inl e \<and>
                  InvalidIndex e))"
proof
  have "expand_ellipsis (Suc 0) [EInt 5, EEllipsis] = [EInt 5, slice_None, slice_None]"
    by (simp add: expand_ellipsis.simps)
  then show "process_slices_squeeze ds (Seq [EInt 5, EEllipsis]) =
      Inr ([Sl 5 6, Sl 0 10, Sl 0 10], [0])"
    using assms by (simp add: process_slices_squeeze_def fit_slices_def ndim_def shape_at_def)
  have "ndim ds \<le> 3" using assms by (simp add: ndim_def)
  show "\<forall>idx. has_step_slice idx \<longrightarrow>
            (\<exists>e. process_slices_squeeze ds idx = Inl e \<and> process_slices ds idx = Inl e \<and>
                  InvalidIndex e)"
  proof (intro allI impI)
    fix idx assume "has_step_slice idx"
    from step_slice_rejected [OF \<open>ndim ds \<le> 3\<close> this] obtain e where
      e: "process_slices_squeeze ds idx = Inl e" "InvalidIndex e" by blast
    then have "process_slices ds idx = Inl e" by (simp add: process_slices_def)
    with e show "\<exists>e. process_slices_squeeze ds idx = Inl e \<and> process_slices ds idx = Inl e \<and>
                  InvalidIndex e" by blast
  qed
qed

theorem process_slices_rank3_witness:
  "process_slices_squeeze \<lparr>name = ''d'', shape = [10, 10, 10], dtype = ''int64'',
       fillvalue = - 1 :: int, chunks = [4, 4, 4], chunk_size = [3, 3, 3], njobs = None,
       read_only = False\<rparr> (Seq [EInt 5, EEllipsis]) = Inr ([Sl 5 6, Sl 0 10, Sl 0 10], [0]) \<and>
   has_step_slice (Seq [EEllipsis, ESlice (Slice (Some 0) (Some 4) (Some 2))]) \<and>
   process_slices \<lparr>name = ''d'', shape = [10, 10, 10], dtype = ''int64'',
       fillvalue = - 1 :: int, chunks = [4, 4, 4], chunk_size = [3, 3, 3], njobs = None,
       read_only = False\<rparr> (Seq [EEllipsis, ESlice (Slice (Some 0) (Some 4) (Some 2))])
     = Inl (DatasetException StepSlicing)"
proof -
  let ?ds = "\<lparr>name = ''d'', shape = [10, 10, 10], dtype = ''int64'',
       fillvalue = - 1 :: int, chunks = [4, 4, 4], chunk_size = [3, 3, 3], njobs = None,
       read_only = False\<rparr>"
  have s: "shape ?ds = [10, 10, 10]" by simp
  have h: "has_step_slice (Seq [EEllipsis, ESlice (Slice (Some 0) (Some 4) (Some 2))])"
    by (simp add: has_step_slice_def non_unit_step_def)
  have x: "expand_ellipsis (Suc 0) [EEllipsis, ESlice (Slice (Some 0) (Some 4) (Some 2))] =
      [slice_None, slice_None, ESlice (Slice (Some 0) (Some 4) (Some 2))]"
    by (simp add: expand_ellipsis.simps)
  have "process_slices ?ds (Seq [EEllipsis, ESlice (Slice (Some 0) (Some 4) (Some 2))])
     = Inl (DatasetException StepSlicing)"
    using x by (simp add: process_slices_def process_slices_squeeze_def fit_slices_def
        ndim_def shape_at_def)
  with process_slices_rank3 [OF s] h show ?thesis by simp
qed

text \<open>
  Claim C7 (the code departs from it).  The claim asks that an entry with a negative or
  out-of-extent bound fails during normalization whether it is a slice or a bare integer.
  The slice branch of \<^verbatim>\<open>_process_slices\<close> checks its bounds; the integer branch
  appends \<^verbatim>\<open>slice(s, s+1)\<close> unchecked.  On a dataset of shape \<open>(10,)\<close> the indices
  \<open>10\<close> and \<open>-1\<close> are normalized without failure.
\<close>

theorem process_slices_integer_unchecked:
  "process_slices \<lparr>name = ''d'', shape = [10], dtype = ''int64'', fillvalue = - 1 :: int,
       chunks = [4], chunk_size = [3], njobs = None, read_only = False\<rparr> (Single (EInt 10))
     = Inr [Sl 10 11] \<and>
   process_slices \<lparr>name = ''d'', shape = [10], dtype = ''int64'', fillvalue = - 1 :: int,
       chunks = [4], chunk_size = [3], njobs = None, read_only = False\<rparr> (Single (EInt (- 1)))
     = Inr [Sl (- 1) 0]"
proof -
  have "expand_ellipsis 0 [EInt i] = [EInt i]" for i
    by (simp add: expand_ellipsis.simps)
  then show ?thesis
    by (simp add: process_slices_def process_slices_squeeze_def fit_slices_def ndim_def)
qed

section \<open>The RAM backend: connection and groups\<close>

text \<open>
  \<^verbatim>\<open>str.isalnum()\<close>: true when the string is not empty and every character is a
  letter or a digit.  Characters are bytes here, so the letters are the ASCII ones; the
  slash (byte 47) is in neither range under any reading.
\<close>

definition isalnum_char :: "char \<Rightarrow> bool" where
  "isalnum_char c \<longleftrightarrow>
     (let n = (of_char c :: nat)
      in (48 \<le> n \<and> n \<le> 57) \<or> (65 \<le> n \<and> n \<le> 90) \<or> (97 \<le> n \<and> n \<le> 122))"

definition isalnum :: "string \<Rightarrow> bool" where
  "isalnum s \<longleftrightarrow> s \<noteq> [] \<and> list_all isalnum_char s"

text \<open>\<^verbatim>\<open>path.split("/")\<close>: the pieces between the separators, at least one piece.\<close>

fun split_on :: "char \<Rightarrow> string \<Rightarrow> string list" where
  "split_on c [] = [[]]"
| "split_on c (x # xs) =
     (if x = c then [] # split_on c xs
      else (case split_on c xs of
              w # ws \<Rightarrow> (x # w) # ws
            | [] \<Rightarrow> [[x]]))"

text \<open>\<^verbatim>\<open>sep.join(pieces)\<close>\<close>

fun join :: "string \<Rightarrow> string list \<Rightarrow> string" where
  "join sep [] = []"
| "join sep [w] = w"
| "join sep (w # ws) = w @ sep @ join sep ws"

text \<open>
  The objects of the hierarchy.  A \<^verbatim>\<open>MemGroup\<close> holds its name, its attributes, its
  \<^verbatim>\<open>links\<close> dictionary (a \<^verbatim>\<open>MemLink\<close> is the pair of its name and its target; its
  source is the group that holds it), its \<^verbatim>\<open>datasets\<close> dictionary, and the two values
  its constructor computes by walking the parent references: \<^verbatim>\<open>connection\<close> and
  \<^verbatim>\<open>absolute_path\<close>.  The parent reference itself is the chain of the names of the
  ancestors, nearest first (empty for the root group, whose parent is the connection).
  Dictionaries keep insertion order.  The type \<open>'d\<close> is the dataset object.
\<close>

datatype 'd mem_obj =
    MemGroup (gname: string) (gparents: "string list") (gattrs: "string option")
             (glinks: "(string \<times> 'd mem_obj) list") (gdatasets: "(string \<times> 'd) list")
             (gconnection: string) (gabsolute_path: string)
  | MemDatasetObj 'd

record 'd mem_connection =
  conn_name :: string
  root_group :: "'d mem_obj"
  conn_datasets :: "(string \<times> 'd) list"

text \<open>
  \<^verbatim>\<open>MemGroup.get_absolute_path\<close> for a group of the given name and ancestors:
  \<^verbatim>\<open>find_path\<close> collects the names up to the root group \<^verbatim>\<open>"/"\<close>.
\<close>

definition get_absolute_path :: "string \<Rightarrow> string list \<Rightarrow> string" where
  "get_absolute_path nm parents =
     (let full_path_list =
            (if nm = ''/'' then [] else nm # takeWhile (\<lambda>p. p \<noteq> ''/'') parents)
      in ''/'' @ join ''/'' (rev full_path_list))"

text \<open>
  \<^verbatim>\<open>MemGroup(parent, name, attrs)\<close> for a parent group: empty links and datasets, the
  connection of the parent (both walks end at the same root).
\<close>

definition new_group :: "'d mem_obj \<Rightarrow> string \<Rightarrow> string option \<Rightarrow> 'd mem_obj" where
  "new_group parent nm attrs =
     MemGroup nm (gname parent # gparents parent) attrs [] [] (gconnection parent)
       (get_absolute_path nm (gname parent # gparents parent))"

text \<open>
  \<^verbatim>\<open>MemGroup.create_group(path, attrs)\<close>: the new group and the updated receiver.
\<close>

definition group_create_group ::
  "'d mem_obj \<Rightarrow> string \<Rightarrow> string option \<Rightarrow> error + ('d mem_obj \<times> 'd mem_obj)" where
  "group_create_group self path attrs =
     (if \<not> isalnum path then Inl (PyException [''String '', path, ''is not alphanumeric''])
      else if path \<in> fst ` set (glinks self)
        then Inl (PyException [''Group'', path, ''already exists''])
      else (let grp = new_group self path attrs
            in Inr (grp,
                    MemGroup (gname self) (gparents self) (gattrs self)
                      (glinks self @ [(path, grp)]) (gdatasets self)
                      (gconnection self) (gabsolute_path self))))"

text \<open>
  \<^verbatim>\<open>MemConnection.create_group(path, attrs)\<close>: the new group and the updated
  connection.
\<close>

definition create_group ::
  "'d mem_connection \<Rightarrow> string \<Rightarrow> string option \<Rightarrow> error + ('d mem_obj \<times> 'd mem_connection)" where
  "create_group conn path attrs =
     (if \<not> isalnum path then Inl (PyException [''String '', path, ''is not alphanumeric''])
      else if path \<noteq> ''/'' then
        (case group_create_group (root_group conn) path attrs of
           Inl e \<Rightarrow> Inl e
         | Inr (grp, root') \<Rightarrow> Inr (grp, conn\<lparr>root_group := root'\<rparr>))
      else Inl (PyException [''Group'', path, ''already exists'']))"

text \<open>
  The helper \<^verbatim>\<open>_recurse(arr, links)\<close> of \<^verbatim>\<open>MemGroup.get_group\<close>.  It returns
  \<^verbatim>\<open>None\<close> when the first name is not in \<^verbatim>\<open>links\<close>; a target that is a dataset has no
  \<^verbatim>\<open>links\<close> attribute.
\<close>

fun get_group_recurse :: "string list \<Rightarrow> (string \<times> 'd mem_obj) list \<Rightarrow> error + 'd mem_obj option" where
  "get_group_recurse [] lnks = Inl IndexError"
| "get_group_recurse (a # arr) lnks =
     (case map_of lnks a of
        None \<Rightarrow> Inr None
      | Some link_target \<Rightarrow>
          if arr \<noteq> [] then
            (case link_target of
               MemGroup _ _ _ target_links _ _ _ \<Rightarrow> get_group_recurse arr target_links
             | MemDatasetObj _ \<Rightarrow> Inl AttributeError)
          else Inr (Some link_target))"

definition get_group :: "'d mem_obj \<Rightarrow> string \<Rightarrow> error + 'd mem_obj" where
  "get_group self path =
     (case get_group_recurse (split_on CHR ''/'' path) (glinks self) of
        Inl e \<Rightarrow> Inl e
      | Inr None \<Rightarrow> Inl (GroupNotFoundError [''Group '', path, ''does not exist''])
      | Inr (Some grp) \<Rightarrow> Inr grp)"

text \<open>
  What a Python function hands back: \<^verbatim>\<open>None\<close> when it ends without a
  \<^verbatim>\<open>return\<close>, or a Boolean.
\<close>

datatype pyval = PyNone | PyBool bool

text \<open>
  \<^verbatim>\<open>MemGroup.has_group(path)\<close>.  The first branch is the expression statement
  \<^verbatim>\<open>True\<close>, not a \<^verbatim>\<open>return\<close>: the function then ends and hands back
  \<^verbatim>\<open>None\<close>.  The objects \<^verbatim>\<open>get_group\<close> returns define no truth value of their
  own, so they are true.
\<close>

definition truthy :: "'d mem_obj \<Rightarrow> bool" where
  "truthy obj = True"

definition has_group :: "'d mem_obj \<Rightarrow> string \<Rightarrow> error + pyval" where
  "has_group self path =
     (case get_group self path of
        Inl e \<Rightarrow> Inl e
      | Inr grp \<Rightarrow>
          if truthy grp then Inr PyNone
          else Inl (GroupNotFoundError [''Group'', path, ''does not exist'']))"

text \<open>The truth value of what a function handed back, as \<^verbatim>\<open>if not ...\<close> tests it.\<close>

fun py_truth :: "pyval \<Rightarrow> bool" where
  "py_truth PyNone = False"
| "py_truth (PyBool b) = b"

text \<open>
  \<^verbatim>\<open>MemGroup.del_group(path)\<close>: it first asks \<^verbatim>\<open>has_group\<close>, then walks the
  links as \<^verbatim>\<open>get_group\<close> does and deletes the link of the last name.
\<close>

fun del_group_recurse :: "string list \<Rightarrow> (string \<times> 'd mem_obj) list \<Rightarrow> error + (string \<times> 'd mem_obj) list" where
  "del_group_recurse [] lnks = Inl IndexError"
| "del_group_recurse (a # arr) lnks =
     (case map_of lnks a of
        None \<Rightarrow> Inr lnks
      | Some link_target \<Rightarrow>
          if arr \<noteq> [] then
            (case link_target of
               MemGroup nm ps at target_links dsets c ab \<Rightarrow>
                 (case del_group_recurse arr target_links of
                    Inl e \<Rightarrow> Inl e
                  | Inr target_links' \<Rightarrow>
                      Inr (map (\<lambda>(k, v). if k = a then (k, MemGroup nm ps at target_links' dsets c ab)
                                           else (k, v)) lnks))
             | MemDatasetObj _ \<Rightarrow> Inl AttributeError)
          else Inr (filter (\<lambda>(k, v). k \<noteq> a) lnks))"

definition del_group :: "'d mem_obj \<Rightarrow> string \<Rightarrow> error + 'd mem_obj" where
  "del_group self path =
     (case has_group self path of
        Inl e \<Rightarrow> Inl e
      | Inr found \<Rightarrow>
          if \<not> py_truth found then Inl (GroupNotFoundError [''Group'', path, ''does not exist''])
          else (case del_group_recurse (split_on CHR ''/'' path) (glinks self) of
                  Inl e \<Rightarrow> Inl e
                | Inr lnks \<Rightarrow>
                    Inr (MemGroup (gname self) (gparents self) (gattrs self) lnks
                           (gdatasets self) (gconnection self) (gabsolute_path self))))"

subsection \<open>Properties of the group operations\<close>

text \<open>
  Whenever \<^verbatim>\<open>get_group\<close> succeeds, \<^verbatim>\<open>has_group\<close> hands back \<^verbatim>\<open>None\<close>; it
  never hands back a Boolean; and \<^verbatim>\<open>del_group\<close>, which tests
  \<^verbatim>\<open>not self.has_group(path)\<close>, fails on every path.
\<close>

lemma has_group_of_get_group:
  "get_group self path = Inr grp \<Longrightarrow> has_group self path = Inr PyNone"
  by (simp add: has_group_def truthy_def)

lemma has_group_never_bool: "has_group self path \<noteq> Inr (PyBool b)"
  by (simp add: has_group_def truthy_def split: sum.splits)

lemma del_group_always_fails: "\<exists>e. del_group self path = Inl e"
  by (cases "get_group self path") (simp_all add: del_group_def has_group_def truthy_def)

lemma not_isalnum_slash: "\<not> isalnum ''/''"
  by (simp add: isalnum_def isalnum_char_def)

text \<open>
  Claim C8 (the code departs from it).  The claim asks that \<^verbatim>\<open>has_group(path)\<close>
  returns true when \<^verbatim>\<open>get_group(path)\<close> succeeds.  For a root group with the child
  \<^verbatim>\<open>a\<close>, \<^verbatim>\<open>get_group("a")\<close> succeeds and \<^verbatim>\<open>has_group("a")\<close> hands back
  \<^verbatim>\<open>None\<close>.
\<close>

theorem has_group_returns_None:
  "get_group (MemGroup ''/'' [] None [(''a'', MemGroup ''a'' [''/''] None [] [] ''conn'' ''/a'')]
       ([] :: (string \<times> unit) list) ''conn'' ''/'') ''a''
     = Inr (MemGroup ''a'' [''/''] None [] [] ''conn'' ''/a'') \<and>
   has_group (MemGroup ''/'' [] None [(''a'', MemGroup ''a'' [''/''] None [] [] ''conn'' ''/a'')]
       ([] :: (string \<times> unit) list) ''conn'' ''/'') ''a''
     = Inr PyNone"
  by (simp add: has_group_def get_group_def truthy_def)

text \<open>
  Claim C10.  In \<^verbatim>\<open>MemConnection.create_group\<close> no path passes the alphanumeric
  check and equals \<^verbatim>\<open>"/"\<close>, so the root branch is never taken: the failure
  \<^verbatim>\<open>Exception("Group", "/", "already exists")\<close> is never the result, and
  \<^verbatim>\<open>create_group("/")\<close> fails with the not-alphanumeric failure.
\<close>

theorem create_group_root_branch_unreachable:
  "\<not> (isalnum path \<and> path = ''/'') \<and>
   create_group conn path attrs \<noteq> Inl (PyException [''Group'', ''/'', ''already exists'']) \<and>
   create_group conn ''/'' attrs = Inl (PyException [''String '', ''/'', ''is not alphanumeric''])"
proof (intro conjI)
  show "\<not> (isalnum path \<and> path = ''/'')" using not_isalnum_slash by auto
  show "create_group conn ''/'' attrs = Inl (PyException [''String '', ''/'', ''is not alphanumeric''])"
    using not_isalnum_slash by (simp add: create_group_def)
  show "create_group conn path attrs \<noteq> Inl (PyException [''Group'', ''/'', ''already exists''])"
  proof (cases "isalnum path")
    case False
    then show ?thesis by (simp add: create_group_def)
  next
    case True
    then have "path \<noteq> ''/''" using not_isalnum_slash by auto
    then show ?thesis using True
      by (auto simp: create_group_def group_create_group_def Let_def split: sum.splits)
  qed
qed

section \<open>Arrays\<close>

text \<open>
  The part of numpy the sources use.  An array is its shape and its elements in row-major
  order (the order of \<^verbatim>\<open>tobytes()\<close>); the element type is a parameter, and the
  \<^verbatim>\<open>dtype\<close> tag of the sources converts nothing here.  A scalar is an array of
  shape \<open>()\<close>.
\<close>

datatype 'a ndarray = NDArray (arr_shape: "nat list") (arr_data: "'a list")

text \<open>The offset of an index tuple in the row-major order, and the element there.\<close>

fun ravel_index :: "nat list \<Rightarrow> nat list \<Rightarrow> nat" where
  "ravel_index (n # ns) (i # idx) = i * prod_list ns + ravel_index ns idx"
| "ravel_index ns idx = 0"

definition np_at :: "'a ndarray \<Rightarrow> nat list \<Rightarrow> 'a" where
  "np_at a p = arr_data a ! ravel_index (arr_shape a) p"

text \<open>The array of a shape whose element at every index tuple is given by a function.\<close>

definition np_tabulate :: "nat list \<Rightarrow> (nat list \<Rightarrow> 'a) \<Rightarrow> 'a ndarray" where
  "np_tabulate shp f = NDArray shp (map f (ndindex shp))"

text \<open>\<^verbatim>\<open>np.full(shape, fill_value, dtype)\<close>: a negative extent is a \<^verbatim>\<open>ValueError\<close>.\<close>

definition np_full :: "int list \<Rightarrow> 'a \<Rightarrow> error + 'a ndarray" where
  "np_full shp v =
     (if list_ex (\<lambda>n. n < 0) shp then Inl ValueError
      else Inr (NDArray (map nat shp) (replicate (prod_list (map nat shp)) v)))"

text \<open>
  Indices of an array: \<^verbatim>\<open>None\<close> (\<^verbatim>\<open>np.newaxis\<close>), or a slice or sequence of
  slices \<^verbatim>\<open>start:stop\<close> with unit step, one per leading axis.
\<close>

datatype npslice = NpSl (ns_start: "int option") (ns_stop: "int option")

datatype np_index = NpNone | NpIdx "npslice list"

text \<open>
  What \<^verbatim>\<open>start:stop\<close> selects on an axis of extent \<open>n\<close>, as
  \<^verbatim>\<open>slice.indices(n)\<close> computes it: the first position and the number of positions.
  A negative bound counts from the end; bounds are clipped to the axis.
\<close>

definition clip_bound :: "nat \<Rightarrow> int \<Rightarrow> int" where
  "clip_bound n b = (if b < 0 then max 0 (b + int n) else min b (int n))"

definition slice_range :: "nat \<Rightarrow> npslice \<Rightarrow> nat \<times> nat" where
  "slice_range n s =
     (let lo = (case ns_start s of None \<Rightarrow> 0 | Some b \<Rightarrow> clip_bound n b);
          hi = (case ns_stop s of None \<Rightarrow> int n | Some b \<Rightarrow> clip_bound n b)
      in (nat lo, nat (hi - lo)))"

text \<open>
  The region a sequence of slices selects: first position and extent on every axis of the
  array; the axes beyond the slices are taken whole.
\<close>

fun region_of :: "nat list \<Rightarrow> npslice list \<Rightarrow> (nat \<times> nat) list" where
  "region_of (n # ns) (s # ss) = slice_range n s # region_of ns ss"
| "region_of (n # ns) [] = (0, n) # region_of ns []"
| "region_of [] ss = []"

definition in_region :: "(nat \<times> nat) list \<Rightarrow> nat list \<Rightarrow> bool" where
  "in_region reg p = list_all2 (\<lambda>(lo, ext) i. lo \<le> i \<and> i < lo + ext) reg p"

text \<open>
  \<^verbatim>\<open>a[index]\<close>.  With \<^verbatim>\<open>None\<close> the result is the whole array under a new leading
  axis of extent 1.  More slices than axes is an \<^verbatim>\<open>IndexError\<close>.
\<close>

definition np_getitem :: "'a ndarray \<Rightarrow> np_index \<Rightarrow> error + 'a ndarray" where
  "np_getitem a index =
     (case index of
        NpNone \<Rightarrow> Inr (NDArray (1 # arr_shape a) (arr_data a))
      | NpIdx ss \<Rightarrow>
          if length ss > length (arr_shape a) then Inl IndexError
          else (let reg = region_of (arr_shape a) ss
                in Inr (np_tabulate (map snd reg)
                          (\<lambda>q. np_at a (map (\<lambda>((lo, ext), i). lo + i) (zip reg q))))))"

text \<open>
  Broadcasting a value to a target shape for an assignment: leading axes of extent 1 that
  the target does not have are dropped, missing leading axes are added, and every axis of
  the value must have the extent of the target or extent 1.  The result reads the value at
  an index tuple of the target; a value that does not fit is a \<^verbatim>\<open>ValueError\<close>.
\<close>

definition broadcast_to :: "'a ndarray \<Rightarrow> nat list \<Rightarrow> error + (nat list \<Rightarrow> 'a)" where
  "broadcast_to v tgt =
     (let vs = arr_shape v;
          extra = length vs - length tgt;
          vs1 = drop extra vs;
          pad = length tgt - length vs1
      in if \<not> list_all (\<lambda>n. n = 1) (take extra vs) then Inl ValueError
         else if \<not> list_all2 (\<lambda>n t. n = t \<or> n = 1) vs1 (drop pad tgt) then Inl ValueError
         else Inr (\<lambda>q. arr_data v !
                     ravel_index vs1 (map (\<lambda>(n, i). if n = 1 then 0 else i) (zip vs1 (drop pad q)))))"

text \<open>\<^verbatim>\<open>a[index] = value\<close>: the array after the assignment.\<close>

definition np_setitem :: "'a ndarray \<Rightarrow> np_index \<Rightarrow> 'a ndarray \<Rightarrow> error + 'a ndarray" where
  "np_setitem a index v =
     (case index of
        NpNone \<Rightarrow>
          (case broadcast_to v (1 # arr_shape a) of
             Inl e \<Rightarrow> Inl e
           | Inr f \<Rightarrow> Inr (np_tabulate (arr_shape a) (\<lambda>p. f (0 # p))))
      | NpIdx ss \<Rightarrow>
          if length ss > length (arr_shape a) then Inl IndexError
          else (let reg = region_of (arr_shape a) ss
                in case broadcast_to v (map snd reg) of
                     Inl e \<Rightarrow> Inl e
                   | Inr f \<Rightarrow>
                       Inr (np_tabulate (arr_shape a)
                              (\<lambda>p. if in_region reg p
                                    then f (map (\<lambda>((lo, ext), i). i - lo) (zip reg p))
                                    else np_at a p))))"

section \<open>The RAM backend: data chunks\<close>

text \<open>
  \<^verbatim>\<open>MemDataChunk\<close>: the attributes the constructor receives and the backing array
  \<^verbatim>\<open>self.data = np.full(shape, fillvalue, dtype)\<close>.
\<close>

record 'a mem_data_chunk =
  mchunk_shape :: "int list"
  mchunk_dtype :: string
  mchunk_fillvalue :: 'a
  mchunk_data :: "'a ndarray"

definition mem_data_chunk_init :: "int list \<Rightarrow> string \<Rightarrow> 'a \<Rightarrow> error + 'a mem_data_chunk" where
  "mem_data_chunk_init shp dt fv =
     (case np_full shp fv of
        Inl e \<Rightarrow> Inl e
      | Inr d \<Rightarrow> Inr \<lparr>mchunk_shape = shp, mchunk_dtype = dt, mchunk_fillvalue = fv,
                       mchunk_data = d\<rparr>)"

text \<open>
  \<^verbatim>\<open>get_data(self, slices=None)\<close> is \<^verbatim>\<open>self.data[slices]\<close> and
  \<^verbatim>\<open>set_data(self, values, slices=None)\<close> is \<^verbatim>\<open>self.data[slices] = values\<close>: the
  default \<^verbatim>\<open>None\<close> goes to the array as the index.
\<close>

definition mem_get_data :: "'a mem_data_chunk \<Rightarrow> np_index \<Rightarrow> error + 'a ndarray" where
  "mem_get_data self slices = np_getitem (mchunk_data self) slices"

definition mem_set_data ::
  "'a mem_data_chunk \<Rightarrow> 'a ndarray \<Rightarrow> np_index \<Rightarrow> error + 'a mem_data_chunk" where
  "mem_set_data self vals slices =
     (case np_setitem (mchunk_data self) slices vals of
        Inl e \<Rightarrow> Inl e
      | Inr d \<Rightarrow> Inr (self\<lparr>mchunk_data := d\<rparr>))"

subsection \<open>Properties of arrays and of the RAM data chunk\<close>

text \<open>
  \<^verbatim>\<open>np.ndindex\<close> enumerates the index tuples in row-major order, so an array built
  from a function holds at every index tuple the value of the function there.
\<close>

lemma concat_blocks_upt:
  "concat (map (\<lambda>i. map (\<lambda>k. i * P + k) [0..<P]) [0..<n]) = [0..<n * P]"
proof (induction n)
  case 0
  show ?case by simp
next
  case (Suc n)
  have "map (\<lambda>k. n * P + k) [0..<P] = [n * P..<n * P + P]"
    using map_add_upt [of "n * P" P] by (simp add: add.commute)
  moreover have "[0..<n * P] @ [n * P..<n * P + P] = [0..<n * P + P]"
    using upt_add_eq_append [of 0 "n * P" P] by simp
  ultimately show ?case using Suc by (simp add: add.commute)
qed

lemma map_ravel_ndindex: "map (ravel_index ns) (ndindex ns) = [0..<prod_list ns]"
proof (induction ns)
  case Nil
  show ?case by simp
next
  case (Cons n ns)
  have "map (ravel_index (n # ns)) (ndindex (n # ns)) =
      concat (map (\<lambda>i. map (\<lambda>idx. i * prod_list ns + ravel_index ns idx) (ndindex ns)) [0..<n])"
    by (simp add: map_concat comp_def)
  also have "\<dots> = concat (map (\<lambda>i. map (\<lambda>k. i * prod_list ns + k)
                                   (map (ravel_index ns) (ndindex ns))) [0..<n])"
    by (simp add: comp_def)
  also have "\<dots> = [0..<n * prod_list ns]"
    unfolding Cons by (rule concat_blocks_upt)
  finally show ?case by simp
qed

lemma length_ndindex: "length (ndindex ns) = prod_list ns"
  using arg_cong [OF map_ravel_ndindex, of length ns] by simp

lemma ravel_ndindex_nth:
  "j < prod_list ns \<Longrightarrow> ravel_index ns (ndindex ns ! j) = j"
  using arg_cong [OF map_ravel_ndindex, of "\<lambda>xs. xs ! j" ns] by (simp add: length_ndindex)

lemma np_at_tabulate:
  assumes "list_all2 (<) p shp"
  shows "np_at (np_tabulate shp f) p = f p"
proof -
  from assms have "p \<in> set (ndindex shp)" by (simp add: set_ndindex)
  then obtain j where j: "j < length (ndindex shp)" "ndindex shp ! j = p"
    by (auto simp: in_set_conv_nth)
  then have "ravel_index shp p = j" using ravel_ndindex_nth [of j shp] by (simp add: length_ndindex)
  then show ?thesis using j by (simp add: np_at_def np_tabulate_def)
qed

lemma np_tabulate_data:
  assumes "length xs = prod_list shp"
  shows "np_tabulate shp (\<lambda>p. xs ! ravel_index shp p) = NDArray shp xs"
proof -
  have "map (\<lambda>p. xs ! ravel_index shp p) (ndindex shp) = map ((!) xs) (map (ravel_index shp) (ndindex shp))"
    by simp
  also have "\<dots> = map ((!) xs) [0..<length xs]" by (simp only: map_ravel_ndindex assms)
  also have "\<dots> = xs" by (rule map_nth)
  finally show ?thesis by (simp add: np_tabulate_def)
qed

lemma unit_axes_id:
  "list_all2 (<) p shp \<Longrightarrow> map (\<lambda>(n, i). if n = 1 then 0 else i) (zip shp p) = p"
  for p :: "nat list"
  by (induction p shp rule: list_all2_induct) auto

lemma np_tabulate_cong:
  "(\<And>p. list_all2 (<) p shp \<Longrightarrow> f p = g p) \<Longrightarrow> np_tabulate shp f = np_tabulate shp g"
  by (simp add: np_tabulate_def set_ndindex)

text \<open>
  With the default \<^verbatim>\<open>slices=None\<close>, \<^verbatim>\<open>get_data\<close> returns the elements of the
  whole backing array under an extra leading axis, and \<^verbatim>\<open>set_data\<close> with values of
  the chunk's shape replaces the whole backing array.
\<close>

lemma mem_get_data_None:
  "mem_get_data c NpNone =
     Inr (NDArray (1 # arr_shape (mchunk_data c)) (arr_data (mchunk_data c)))"
  by (simp add: mem_get_data_def np_getitem_def)

lemma mem_set_data_None_whole:
  assumes "arr_shape v = arr_shape (mchunk_data c)"
    and "length (arr_data v) = prod_list (arr_shape v)"
  shows "mem_set_data c v NpNone = Inr (c\<lparr>mchunk_data := v\<rparr>)"
proof -
  let ?shp = "arr_shape (mchunk_data c)"
  have same: "list_all2 (\<lambda>n t. n = t \<or> n = 1) ?shp ?shp"
    by (simp add: list_all2_same)
  have "np_tabulate ?shp (\<lambda>p. arr_data v !
          ravel_index ?shp (map (\<lambda>(n, i). if n = 1 then 0 else i) (zip ?shp p)))
      = np_tabulate ?shp (\<lambda>p. arr_data v ! ravel_index ?shp p)"
    by (rule np_tabulate_cong) (simp only: unit_axes_id)
  also have "\<dots> = NDArray ?shp (arr_data v)"
    using assms by (simp add: np_tabulate_data)
  also have "\<dots> = v" using assms(1) by (cases v) simp
  finally show ?thesis
    using assms(1) same by (simp add: mem_set_data_def np_setitem_def broadcast_to_def Let_def)
qed

text \<open>
  Claim C9 (the code departs from it).  The claim asks that \<^verbatim>\<open>get_data()\<close> with no
  sub-region returns the backing array with the shape \<^verbatim>\<open>chunk_size\<close>.  For a fresh
  chunk of shape \<open>(2, 3)\<close> and fill value 0 the result has the shape \<open>(1, 2, 3)\<close>:
  the default \<^verbatim>\<open>None\<close> is used as the array index, which adds an axis.
\<close>

theorem mem_get_data_None_adds_axis:
  "mem_data_chunk_init [2, 3] ''float32'' (0 :: int) =
     Inr \<lparr>mchunk_shape = [2, 3], mchunk_dtype = ''float32'', mchunk_fillvalue = 0,
          mchunk_data = NDArray [2, 3] [0, 0, 0, 0, 0, 0]\<rparr> \<and>
   mem_get_data \<lparr>mchunk_shape = [2, 3], mchunk_dtype = ''float32'', mchunk_fillvalue = 0 :: int,
          mchunk_data = NDArray [2, 3] [0, 0, 0, 0, 0, 0]\<rparr> NpNone =
     Inr (NDArray [1, 2, 3] [0, 0, 0, 0, 0, 0])"
  by (simp add: mem_data_chunk_init_def np_full_def mem_get_data_def np_getitem_def
      numeral_eq_Suc)

section \<open>The object-storage pool\<close>

text \<open>
  The pool class is not among the sources; the operations below follow section 6 of the
  specification: a namespace of named objects, each with a payload (whole-object write,
  read, existence check, stat, delete) and its own key/value attributes.

  A payload is the text of a signature marker or the elements of an array in row-major
  order (\<^verbatim>\<open>tobytes()\<close> and its inverse are taken at the granularity of elements).
  An attribute value is kept decoded: the specification requires the textual encodings
  of shapes, element types and fill values to round-trip exactly.
\<close>

datatype 'a payload = Text string | Elements "'a list"

datatype 'a xattr = XShape "int list" | XText string | XValue 'a

record 'a pool_object =
  obj_payload :: "'a payload"
  obj_xattrs :: "string \<rightharpoonup> 'a xattr"

record 'a pool =
  pool_name :: string
  pool_njobs :: "int option"
  objects :: "string \<rightharpoonup> 'a pool_object"

text \<open>
  An operation on the pool takes the pool and returns a value or a failure, and the pool
  afterwards.  What was written before a failure stays written.
\<close>

type_synonym ('a, 'r) pool_op = "'a pool \<Rightarrow> (error + 'r) \<times> 'a pool"

definition preturn :: "'r \<Rightarrow> ('a, 'r) pool_op" where
  "preturn r p = (Inr r, p)"

definition praise :: "error \<Rightarrow> ('a, 'r) pool_op" where
  "praise e p = (Inl e, p)"

definition pbind :: "('a, 'r) pool_op \<Rightarrow> ('r \<Rightarrow> ('a, 'q) pool_op) \<Rightarrow> ('a, 'q) pool_op" where
  "pbind m f p = (case m p of (Inl e, p') \<Rightarrow> (Inl e, p') | (Inr r, p') \<Rightarrow> f r p')"

text \<open>A value or failure computed without the pool.\<close>

definition plift :: "error + 'r \<Rightarrow> ('a, 'r) pool_op" where
  "plift x p = (x, p)"

text \<open>
  Modelled from the spec: \<^verbatim>\<open>pool.stat(name)\<close>, the stat of an object; the client
  signals a missing object by its not-found condition.
\<close>

definition pool_stat :: "string \<Rightarrow> ('a, unit) pool_op" where
  "pool_stat nm p = (if objects p nm = None then (Inl ObjectNotFound, p) else (Inr (), p))"

text \<open>
  Modelled from the spec: \<^verbatim>\<open>pool.write(name, data)\<close> and
  \<^verbatim>\<open>pool.write_full(name, data)\<close>, the full-payload write.  It creates the object
  when it is missing and keeps the attributes of an existing one.
\<close>

definition pool_write_full :: "string \<Rightarrow> 'a payload \<Rightarrow> ('a, unit) pool_op" where
  "pool_write_full nm d p =
     (Inr (),
      p\<lparr>objects := (objects p)(nm \<mapsto>
           (case objects p nm of
              None \<Rightarrow> \<lparr>obj_payload = d, obj_xattrs = Map.empty\<rparr>
            | Some ob \<Rightarrow> ob\<lparr>obj_payload := d\<rparr>))\<rparr>)"

text \<open>Modelled from the spec: \<^verbatim>\<open>pool.read(name, length, offset)\<close> of the whole payload.\<close>

definition pool_read :: "string \<Rightarrow> ('a, 'a payload) pool_op" where
  "pool_read nm p =
     (case objects p nm of
        None \<Rightarrow> (Inl ObjectNotFound, p)
      | Some ob \<Rightarrow> (Inr (obj_payload ob), p))"

text \<open>
  Modelled from the spec: \<^verbatim>\<open>pool.set_xattr(name, key, value)\<close> and
  \<^verbatim>\<open>pool.get_xattr(name, key)\<close>.  Setting an attribute of a missing object creates
  the object with an empty payload.
\<close>

definition pool_set_xattr :: "string \<Rightarrow> string \<Rightarrow> 'a xattr \<Rightarrow> ('a, unit) pool_op" where
  "pool_set_xattr nm k v p =
     (Inr (),
      p\<lparr>objects := (objects p)(nm \<mapsto>
           (case objects p nm of
              None \<Rightarrow> \<lparr>obj_payload = Elements [], obj_xattrs = [k \<mapsto> v]\<rparr>
            | Some ob \<Rightarrow> ob\<lparr>obj_xattrs := (obj_xattrs ob)(k \<mapsto> v)\<rparr>))\<rparr>)"

definition pool_get_xattr :: "string \<Rightarrow> string \<Rightarrow> ('a, 'a xattr) pool_op" where
  "pool_get_xattr nm k p =
     (case objects p nm of
        None \<Rightarrow> (Inl ObjectNotFound, p)
      | Some ob \<Rightarrow>
          (case obj_xattrs ob k of
             None \<Rightarrow> (Inl NoData, p)
           | Some v \<Rightarrow> (Inr v, p)))"

text \<open>Modelled from the spec: \<^verbatim>\<open>pool.remove_object(name)\<close>, the delete.\<close>

definition pool_remove_object :: "string \<Rightarrow> ('a, unit) pool_op" where
  "pool_remove_object nm p =
     (if objects p nm = None then (Inl ObjectNotFound, p)
      else (Inr (), p\<lparr>objects := (objects p)(nm := None)\<rparr>))"

text \<open>
  Modelled from the spec: \<^verbatim>\<open>pool.has_chunk(name)\<close>, the existence check of a chunk
  object, and \<^verbatim>\<open>pool.has_dataset(name)\<close>, the existence check of a dataset object,
  which holds the signature marker as its payload.
\<close>

definition signature :: string where
  "signature = ''DosNa.Dataset''"

definition pool_has_chunk :: "string \<Rightarrow> ('a, bool) pool_op" where
  "pool_has_chunk nm p = (Inr (objects p nm \<noteq> None), p)"

definition pool_has_dataset :: "string \<Rightarrow> ('a, bool) pool_op" where
  "pool_has_dataset nm p =
     (Inr (case objects p nm of
             None \<Rightarrow> False
           | Some ob \<Rightarrow> obj_payload ob = Text signature), p)"

text \<open>Reading an attribute that must hold a shape, a text or an element value.\<close>

definition get_shape_xattr :: "string \<Rightarrow> string \<Rightarrow> ('a, int list) pool_op" where
  "get_shape_xattr nm k =
     pbind (pool_get_xattr nm k)
       (\<lambda>v. case v of XShape s \<Rightarrow> preturn s | _ \<Rightarrow> praise ValueError)"

definition get_text_xattr :: "string \<Rightarrow> string \<Rightarrow> ('a, string) pool_op" where
  "get_text_xattr nm k =
     pbind (pool_get_xattr nm k)
       (\<lambda>v. case v of XText s \<Rightarrow> preturn s | _ \<Rightarrow> praise ValueError)"

definition get_value_xattr :: "string \<Rightarrow> string \<Rightarrow> ('a, 'a) pool_op" where
  "get_value_xattr nm k =
     pbind (pool_get_xattr nm k)
       (\<lambda>v. case v of XValue x \<Rightarrow> preturn x | _ \<Rightarrow> praise ValueError)"

section \<open>The pool engine: chunks of a dataset\<close>

text \<open>\<^verbatim>\<open>str(i)\<close> of an integer: its decimal digits.\<close>

fun str_nat :: "nat \<Rightarrow> string" where
  "str_nat n =
     (if n < 10 then [char_of (48 + n)]
      else str_nat (n div 10) @ [char_of (48 + n mod 10)])"

declare str_nat.simps [simp del]

definition str_int :: "int \<Rightarrow> string" where
  "str_int i = (if i < 0 then CHR ''-'' # str_nat (nat (- i)) else str_nat (nat i))"

text \<open>
  \<^verbatim>\<open>Dataset.__chunkname\<close>:
  \<^verbatim>\<open>'DataChunk.' + self.name + '.' + '.'.join(map(str, chunk_idx))\<close>
\<close>

definition chunkname :: "'a dataset \<Rightarrow> int list \<Rightarrow> string" where
  "chunkname ds chunk_idx = ''DataChunk.'' @ name ds @ ''.'' @ join ''.'' (map str_int chunk_idx)"

subsection \<open>\<^verbatim>\<open>DataChunk\<close>\<close>

record data_chunk =
  dc_name :: string
  dc_shape :: "int list"
  dc_dtype :: string
  dc_read_only :: bool

text \<open>\<^verbatim>\<open>BaseData.__init__\<close>: shape and element type are read from the attributes.\<close>

definition base_data_init :: "string \<Rightarrow> ('a, int list \<times> string) pool_op" where
  "base_data_init nm =
     pbind (get_shape_xattr nm ''shape'')
       (\<lambda>shp. pbind (get_text_xattr nm ''dtype'') (\<lambda>dt. preturn (shp, dt)))"

text \<open>\<^verbatim>\<open>DataChunk(pool, name)\<close>\<close>

definition data_chunk_init :: "string \<Rightarrow> ('a, data_chunk) pool_op" where
  "data_chunk_init nm =
     pbind (base_data_init nm)
       (\<lambda>(shp, dt).
          pbind (pool_has_chunk nm)
            (\<lambda>found.
               if \<not> found then praise (DatasetException NoChunkFound)
               else preturn \<lparr>dc_name = nm, dc_shape = shp, dc_dtype = dt, dc_read_only = False\<rparr>))"

text \<open>
  \<^verbatim>\<open>np.fromstring(payload, dtype, count=n)\<close> followed by the reshape to the chunk's
  shape: the first \<open>n\<close> elements, a \<^verbatim>\<open>ValueError\<close> when the payload holds fewer.
  Extents are taken non-negative, and a payload that is a text is not read as elements:
  both are a \<^verbatim>\<open>ValueError\<close> here.
\<close>

definition from_payload :: "int list \<Rightarrow> 'a payload \<Rightarrow> error + 'a ndarray" where
  "from_payload shp pl =
     (if list_ex (\<lambda>n. n < 0) shp then Inl ValueError
      else (case pl of
              Text t \<Rightarrow> Inl ValueError
            | Elements xs \<Rightarrow>
                (let n = prod_list (map nat shp)
                 in if length xs < n then Inl ValueError
                    else Inr (NDArray (map nat shp) (take n xs)))))"

text \<open>A list of \<^verbatim>\<open>slice(a, b)\<close> as an array index; Python's \<^verbatim>\<open>None\<close> stays \<^verbatim>\<open>None\<close>.\<close>

definition to_np :: "bslice list \<Rightarrow> np_index" where
  "to_np slices = NpIdx (map (\<lambda>s. NpSl (Some (bstart s)) (Some (bstop s))) slices)"

definition to_np_opt :: "bslice list option \<Rightarrow> np_index" where
  "to_np_opt slices = (case slices of None \<Rightarrow> NpNone | Some s \<Rightarrow> to_np s)"

text \<open>\<^verbatim>\<open>get_data\<close>, \<^verbatim>\<open>get_slices\<close>, \<^verbatim>\<open>write\<close>, \<^verbatim>\<open>set_data\<close>, \<^verbatim>\<open>set_slices\<close>\<close>

definition chunk_get_data :: "data_chunk \<Rightarrow> ('a, 'a ndarray) pool_op" where
  "chunk_get_data self =
     pbind (pool_read (dc_name self)) (\<lambda>pl. plift (from_payload (dc_shape self) pl))"

definition chunk_get_slices :: "data_chunk \<Rightarrow> bslice list \<Rightarrow> ('a, 'a ndarray) pool_op" where
  "chunk_get_slices self slices =
     pbind (chunk_get_data self) (\<lambda>d. plift (np_getitem d (to_np slices)))"

definition chunk_write :: "data_chunk \<Rightarrow> 'a ndarray \<Rightarrow> ('a, unit) pool_op" where
  "chunk_write self d = pool_write_full (dc_name self) (Elements (arr_data d))"

definition chunk_set_data :: "data_chunk \<Rightarrow> 'a ndarray \<Rightarrow> ('a, unit) pool_op" where
  "chunk_set_data self d =
     (if map int (arr_shape d) \<noteq> dc_shape self then praise (DatasetException ChunkShapeMismatch)
      else chunk_write self d)"

definition chunk_set_slices :: "data_chunk \<Rightarrow> bslice list \<Rightarrow> 'a ndarray \<Rightarrow> ('a, unit) pool_op" where
  "chunk_set_slices self slices v =
     pbind (chunk_get_data self)
       (\<lambda>d. pbind (plift (np_setitem d (to_np slices) v)) (\<lambda>d'. chunk_write self d'))"

text \<open>
  \<^verbatim>\<open>DataChunk.create(pool, name, shape, dtype, fillvalue, data, slices)\<close> as the
  dataset calls it: shape, element type and fill value are always given.  Arrays carry no
  element type here, so the branch that adopts \<^verbatim>\<open>data.dtype\<close> keeps \<open>dt\<close>.
\<close>

definition chunk_create_data ::
  "int list \<Rightarrow> 'a \<Rightarrow> 'a ndarray option \<Rightarrow> bslice list option \<Rightarrow> error + 'a ndarray" where
  "chunk_create_data shp fv data slices =
     (case data of
        None \<Rightarrow> np_full shp fv
      | Some d0 \<Rightarrow>
          (case (case slices of None \<Rightarrow> Inr d0 | Some s \<Rightarrow> np_getitem d0 (to_np s)) of
             Inl e \<Rightarrow> Inl e
           | Inr d \<Rightarrow>
               if map int (arr_shape d) = shp then Inr d
               else if list_all (\<lambda>(ds, cs). int ds \<le> cs) (zip (arr_shape d) shp) then
                 (case np_full shp fv of
                    Inl e \<Rightarrow> Inl e
                  | Inr cdata \<Rightarrow> np_setitem cdata (to_np_opt slices) d)
               else Inl (DatasetException DataShapeMismatch)))"

definition data_chunk_create ::
  "string \<Rightarrow> int list \<Rightarrow> string \<Rightarrow> 'a \<Rightarrow> 'a ndarray option \<Rightarrow> bslice list option \<Rightarrow>
     ('a, data_chunk) pool_op" where
  "data_chunk_create nm shp dt fv data slices =
     pbind (plift (chunk_create_data shp fv data slices))
       (\<lambda>cdata.
          pbind (pool_write_full nm (Elements (arr_data cdata)))
            (\<lambda>_. pbind (pool_set_xattr nm ''shape'' (XShape shp))
               (\<lambda>_. pbind (pool_set_xattr nm ''dtype'' (XText dt))
                  (\<lambda>_. data_chunk_init nm))))"

subsection \<open>Private chunk management of \<^verbatim>\<open>Dataset\<close>\<close>

text \<open>
  \<^verbatim>\<open>_has_chunk\<close>, \<^verbatim>\<open>_get_existing_chunk\<close>, \<^verbatim>\<open>_get_existing_chunk_data\<close>,
  \<^verbatim>\<open>_set_existing_chunk_data\<close>, \<^verbatim>\<open>_create_chunk\<close>, \<^verbatim>\<open>_get_chunk\<close>,
  \<^verbatim>\<open>_get_chunk_data\<close>, \<^verbatim>\<open>_set_chunk_data\<close>, \<^verbatim>\<open>_delete_chunk\<close>: the names
  carry the suffix \<open>_p\<close> in place of the leading underscore.
\<close>

definition has_chunk_p :: "'a dataset \<Rightarrow> int list \<Rightarrow> ('a, bool) pool_op" where
  "has_chunk_p ds chunk_idx = pool_has_chunk (chunkname ds chunk_idx)"

definition get_existing_chunk_p :: "'a dataset \<Rightarrow> int list \<Rightarrow> ('a, data_chunk) pool_op" where
  "get_existing_chunk_p ds chunk_idx = data_chunk_init (chunkname ds chunk_idx)"

definition get_existing_chunk_data_p ::
  "'a dataset \<Rightarrow> int list \<Rightarrow> bslice list option \<Rightarrow> ('a, 'a ndarray) pool_op" where
  "get_existing_chunk_data_p ds chunk_idx slices =
     pbind (get_existing_chunk_p ds chunk_idx)
       (\<lambda>chunk. case slices of
                   None \<Rightarrow> chunk_get_data chunk
                 | Some s \<Rightarrow> chunk_get_slices chunk s)"

definition set_existing_chunk_data_p ::
  "'a dataset \<Rightarrow> int list \<Rightarrow> 'a ndarray \<Rightarrow> bslice list option \<Rightarrow> ('a, unit) pool_op" where
  "set_existing_chunk_data_p ds chunk_idx data slices =
     pbind (get_existing_chunk_p ds chunk_idx)
       (\<lambda>chunk. case slices of
                   None \<Rightarrow> chunk_set_data chunk data
                 | Some s \<Rightarrow> chunk_set_slices chunk s data)"

definition create_chunk_p ::
  "'a dataset \<Rightarrow> int list \<Rightarrow> 'a ndarray option \<Rightarrow> bslice list option \<Rightarrow> ('a, data_chunk) pool_op" where
  "create_chunk_p ds chunk_idx data slices =
     data_chunk_create (chunkname ds chunk_idx) (chunk_size ds) (dtype ds) (fillvalue ds)
       data slices"

definition get_chunk_p :: "'a dataset \<Rightarrow> int list \<Rightarrow> ('a, data_chunk) pool_op" where
  "get_chunk_p ds chunk_idx =
     pbind (has_chunk_p ds chunk_idx)
       (\<lambda>found. if found then get_existing_chunk_p ds chunk_idx
                 else create_chunk_p ds chunk_idx None None)"

definition get_chunk_data_p ::
  "'a dataset \<Rightarrow> int list \<Rightarrow> bslice list option \<Rightarrow> ('a, 'a ndarray) pool_op" where
  "get_chunk_data_p ds chunk_idx slices =
     pbind (has_chunk_p ds chunk_idx)
       (\<lambda>found.
          if found then get_existing_chunk_data_p ds chunk_idx slices
          else plift (np_full (case slices of
                                 None \<Rightarrow> chunk_size ds
                               | Some sl \<Rightarrow> map (\<lambda>s. bstop s - bstart s) sl)
                        (fillvalue ds)))"

definition set_chunk_data_p ::
  "'a dataset \<Rightarrow> int list \<Rightarrow> 'a ndarray \<Rightarrow> bslice list option \<Rightarrow> ('a, unit) pool_op" where
  "set_chunk_data_p ds chunk_idx data slices =
     pbind (has_chunk_p ds chunk_idx)
       (\<lambda>found.
          if found then set_existing_chunk_data_p ds chunk_idx data slices
          else pbind (create_chunk_p ds chunk_idx (Some data) slices) (\<lambda>_. preturn ()))"

definition delete_chunk_p :: "'a dataset \<Rightarrow> int list \<Rightarrow> ('a, unit) pool_op" where
  "delete_chunk_p ds chunk_idx =
     pbind (has_chunk_p ds chunk_idx)
       (\<lambda>found.
          if found then
            pbind (get_existing_chunk_p ds chunk_idx) (\<lambda>chunk. pool_remove_object (dc_name chunk))
          else preturn ())"

subsection \<open>\<^verbatim>\<open>Dataset._transform_chunk_index\<close> and the public chunk operations\<close>

text \<open>
  \<^verbatim>\<open>np.unravel_index(i, dims)\<close> in row-major order: a \<^verbatim>\<open>ValueError\<close> for a
  negative extent, for a grid whose number of cells does not fit 64 bits, and for an index
  that is negative or not below the number of cells; an \<^verbatim>\<open>OverflowError\<close> for an
  index that does not fit 64 bits.
\<close>

fun unravel :: "int \<Rightarrow> int list \<Rightarrow> int list" where
  "unravel i [] = []"
| "unravel i (d # ds) = i div prod_list ds # unravel (i mod prod_list ds) ds"

definition np_unravel_index :: "int \<Rightarrow> int list \<Rightarrow> error + int list" where
  "np_unravel_index i dims =
     (if list_ex (\<lambda>d. d < 0) dims \<or> 2 ^ 63 \<le> prod_list dims then Inl ValueError
      else if i < - (2 ^ 63) \<or> 2 ^ 63 \<le> i then Inl OverflowError
      else if i < 0 \<or> prod_list dims \<le> i then Inl ValueError
      else Inr (unravel i dims))"

text \<open>\<^verbatim>\<open>np.ravel_multi_index(idx, dims)\<close>: the flat position of a multi-axis index.\<close>

fun ravel_multi_index :: "int list \<Rightarrow> int list \<Rightarrow> int" where
  "ravel_multi_index (i # idx) (d # ds) = i * prod_list ds + ravel_multi_index idx ds"
| "ravel_multi_index idx ds = 0"

text \<open>
  A chunk index as a caller gives it: one integer, a list or tuple of integers, or a
  list or tuple whose only element is the list or tuple of integers.
\<close>

datatype chunk_index = CInt int | CSeq "int list" | CNested "int list"

text \<open>
  The first \<^verbatim>\<open>if\<close> of \<^verbatim>\<open>_transform_chunk_index\<close>; \<^verbatim>\<open>idx[0]\<close> of an empty
  sequence is an \<^verbatim>\<open>IndexError\<close>.
\<close>

fun unwrap_chunk_index :: "chunk_index \<Rightarrow> error + int list" where
  "unwrap_chunk_index (CInt i) = Inr [i]"
| "unwrap_chunk_index (CSeq []) = Inl IndexError"
| "unwrap_chunk_index (CSeq xs) = Inr xs"
| "unwrap_chunk_index (CNested xs) = Inr xs"

text \<open>
  The test \<^verbatim>\<open>idx < self.total_chunks\<close> is reached only for a one-element
  \<^verbatim>\<open>idx\<close> and compares that element with the numpy integer
  \<^verbatim>\<open>np.prod(self._chunks)\<close>.
\<close>

definition transform_chunk_index :: "'a dataset \<Rightarrow> chunk_index \<Rightarrow> error + int list" where
  "transform_chunk_index ds idx0 =
     (case unwrap_chunk_index idx0 of
        Inl e \<Rightarrow> Inl e
      | Inr idx1 \<Rightarrow>
          (case (if length idx1 = 1 \<and> ndim ds > 1 \<and> hd idx1 < total_chunks ds
                 then np_unravel_index (hd idx1) (chunks ds) else Inr idx1) of
             Inl e \<Rightarrow> Inl e
           | Inr idx \<Rightarrow>
               if length idx = length (shape ds) then
                 (if list_ex (\<lambda>(c1, c2). c1 \<ge> c2) (zip idx (chunks ds))
                  then Inl (DatasetException OutOfLimitsChunk)
                  else Inr idx)
               else Inl (DatasetException IncorrectChunkFormat)))"

text \<open>\<^verbatim>\<open>has_chunk\<close>, \<^verbatim>\<open>get_chunk\<close>, \<^verbatim>\<open>get_chunk_data\<close>, \<^verbatim>\<open>set_chunk_data\<close>\<close>

definition has_chunk :: "'a dataset \<Rightarrow> chunk_index \<Rightarrow> ('a, bool) pool_op" where
  "has_chunk ds chunk_idx =
     pbind (plift (transform_chunk_index ds chunk_idx)) (\<lambda>ci. has_chunk_p ds ci)"

definition get_chunk :: "'a dataset \<Rightarrow> chunk_index \<Rightarrow> ('a, data_chunk) pool_op" where
  "get_chunk ds chunk_idx =
     pbind (plift (transform_chunk_index ds chunk_idx)) (\<lambda>ci. get_chunk_p ds ci)"

definition process_slices_opt :: "'a dataset \<Rightarrow> index option \<Rightarrow> error + bslice list option" where
  "process_slices_opt ds slices =
     (case slices of
        None \<Rightarrow> Inr None
      | Some s \<Rightarrow> (case process_slices ds s of Inl e \<Rightarrow> Inl e | Inr sl \<Rightarrow> Inr (Some sl)))"

definition get_chunk_data ::
  "'a dataset \<Rightarrow> chunk_index \<Rightarrow> index option \<Rightarrow> ('a, 'a ndarray) pool_op" where
  "get_chunk_data ds chunk_idx slices =
     pbind (plift (transform_chunk_index ds chunk_idx))
       (\<lambda>ci. pbind (plift (process_slices_opt ds slices))
                (\<lambda>sl. get_chunk_data_p ds ci sl))"

definition set_chunk_data ::
  "'a dataset \<Rightarrow> chunk_index \<Rightarrow> 'a ndarray \<Rightarrow> index option \<Rightarrow> ('a, unit) pool_op" where
  "set_chunk_data ds chunk_idx data slices =
     pbind (plift (transform_chunk_index ds chunk_idx))
       (\<lambda>ci. pbind (plift (process_slices_opt ds slices))
                (\<lambda>sl. set_chunk_data_p ds ci data sl))"

subsection \<open>Properties of the chunk operations\<close>

lemma prod_list_pos_int: "list_all (\<lambda>m. 0 < m) ds \<Longrightarrow> 0 < prod_list ds" for ds :: "int list"
  by (induction ds) auto

lemma unravel_in_grid:
  "list_all (\<lambda>m. 0 < m) dims \<Longrightarrow> 0 \<le> i \<Longrightarrow> i < prod_list dims \<Longrightarrow>
     length (unravel i dims) = length dims \<and>
     list_all2 (\<lambda>c m. 0 \<le> c \<and> c < m) (unravel i dims) dims \<and>
     ravel_multi_index (unravel i dims) dims = i"
proof (induction dims arbitrary: i)
  case Nil
  then show ?case by simp
next
  case (Cons d ds)
  have P: "0 < prod_list ds" using Cons.prems(1) by (simp add: prod_list_pos_int)
  have m: "0 \<le> i mod prod_list ds" "i mod prod_list ds < prod_list ds"
    using P by simp_all
  have q0: "0 \<le> i div prod_list ds" using P Cons.prems(2) by (simp add: pos_imp_zdiv_nonneg_iff)
  have "i < d * prod_list ds" using Cons.prems(3) by simp
  then have q1: "i div prod_list ds < d" using P by (simp only: div_less_iff_int)
  from Cons.IH [OF _ m] Cons.prems(1)
  have ih: "length (unravel (i mod prod_list ds) ds) = length ds"
    "list_all2 (\<lambda>c m. 0 \<le> c \<and> c < m) (unravel (i mod prod_list ds) ds) ds"
    "ravel_multi_index (unravel (i mod prod_list ds) ds) ds = i mod prod_list ds"
    by auto
  show ?case using ih q0 q1 by simp
qed

lemma pbind_plift_Inr [simp]: "pbind (plift (Inr x)) f = f x"
  by (rule ext) (simp add: pbind_def plift_def)

lemma pbind_plift_Inl [simp]: "pbind (plift (Inl e)) f = praise e"
  by (rule ext) (simp add: pbind_def plift_def praise_def)

lemma wrap_int64_id: "- (2 ^ 63) \<le> x \<Longrightarrow> x < 2 ^ 63 \<Longrightarrow> wrap_int64 x = x"
  by (simp add: wrap_int64_def)

text \<open>The four public chunk operations fail as \<^verbatim>\<open>_transform_chunk_index\<close> fails.\<close>

lemma chunk_operations_fail:
  assumes "transform_chunk_index ds idx = Inl e"
  shows "has_chunk ds idx = praise e" and "get_chunk ds idx = praise e"
    and "get_chunk_data ds idx sl = praise e" and "set_chunk_data ds idx data sl = praise e"
  using assms
  by (simp_all add: has_chunk_def get_chunk_def get_chunk_data_def set_chunk_data_def)

text \<open>
  Claim C6, as the code has it.  Take a dataset of rank above 1 whose chunk grid has one
  positive extent per axis and fewer than \<open>2\<^sup>6\<^sup>3\<close> cells.

  \<^item> A single integer \<open>i\<close> with \<open>0 \<le> i < total_chunks\<close> is unraveled against the
    chunk grid: \<^verbatim>\<open>_transform_chunk_index\<close> returns the multi-axis index whose flat
    position is \<open>i\<close>; it has the rank of the dataset and lies in the grid, and
    \<^verbatim>\<open>has_chunk\<close>, \<^verbatim>\<open>get_chunk\<close>, \<^verbatim>\<open>get_chunk_data\<close> and
    \<^verbatim>\<open>set_chunk_data\<close> act on that chunk.
  \<^item> A single integer from \<open>total_chunks\<close> upwards is not unraveled and fails with
    \<^verbatim>\<open>Incorrect chunk indexing format\<close>, not with the out-of-grid failure; a negative
    single integer fails inside \<^verbatim>\<open>np.unravel_index\<close> with a \<^verbatim>\<open>ValueError\<close>.
    (Integers are machine integers here, between \<open>- 2\<^sup>6\<^sup>3\<close> and \<open>2\<^sup>6\<^sup>3\<close>.)
  \<^item> A multi-axis index of the dataset's rank is returned as it is unless a component
    reaches the grid extent of its axis, which is the out-of-grid failure
    \<^verbatim>\<open>Out of limits chunk indexing\<close>; a negative component is not rejected.
  \<^item> When \<^verbatim>\<open>_transform_chunk_index\<close> fails, the four chunk operations fail in the
    same way.
\<close>

theorem transform_chunk_index_cases:
  assumes "1 < ndim ds" and "length (chunks ds) = ndim ds"
    and "list_all (\<lambda>m. 0 < m) (chunks ds)" and "prod_list (chunks ds) < 2 ^ 63"
  shows "(0 \<le> i \<and> i < total_chunks ds \<longrightarrow>
            transform_chunk_index ds (CInt i) = Inr (unravel i (chunks ds)) \<and>
            length (unravel i (chunks ds)) = ndim ds \<and>
            index_in_grid (chunks ds) (unravel i (chunks ds)) \<and>
            ravel_multi_index (unravel i (chunks ds)) (chunks ds) = i \<and>
            has_chunk ds (CInt i) = has_chunk_p ds (unravel i (chunks ds)) \<and>
            get_chunk ds (CInt i) = get_chunk_p ds (unravel i (chunks ds)) \<and>
            get_chunk_data ds (CInt i) None = get_chunk_data_p ds (unravel i (chunks ds)) None \<and>
            set_chunk_data ds (CInt i) data None =
              set_chunk_data_p ds (unravel i (chunks ds)) data None) \<and>
         (total_chunks ds \<le> i \<and> i < 2 ^ 63 \<longrightarrow>
            transform_chunk_index ds (CInt i) = Inl (DatasetException IncorrectChunkFormat)) \<and>
         (- (2 ^ 63) \<le> i \<and> i < 0 \<longrightarrow> transform_chunk_index ds (CInt i) = Inl ValueError) \<and>
         (length js = ndim ds \<longrightarrow>
            transform_chunk_index ds (CSeq js) =
              (if list_ex (\<lambda>(c1, c2). c1 \<ge> c2) (zip js (chunks ds))
               then Inl (DatasetException OutOfLimitsChunk) else Inr js)) \<and>
         (transform_chunk_index ds idx = Inl e \<longrightarrow>
            has_chunk ds idx = praise e \<and> get_chunk ds idx = praise e \<and>
            get_chunk_data ds idx sl = praise e \<and> set_chunk_data ds idx data sl = praise e)"
proof -
  have P: "0 < prod_list (chunks ds)" using assms(3) by (rule prod_list_pos_int)
  have total: "total_chunks ds = prod_list (chunks ds)"
    using P assms(4) by (simp add: total_chunks_def wrap_int64_id)
  have nneg: "\<not> list_ex (\<lambda>d. d < 0) (chunks ds)"
    using assms(3) by (auto simp: list_ex_iff list_all_iff)
  have rank: "length (shape ds) \<noteq> Suc 0" "1 < length (shape ds)"
    using assms(1) by (simp_all add: ndim_def)
  have c1: "transform_chunk_index ds (CInt i) = Inr (unravel i (chunks ds)) \<and>
            length (unravel i (chunks ds)) = ndim ds \<and>
            index_in_grid (chunks ds) (unravel i (chunks ds)) \<and>
            ravel_multi_index (unravel i (chunks ds)) (chunks ds) = i \<and>
            has_chunk ds (CInt i) = has_chunk_p ds (unravel i (chunks ds)) \<and>
            get_chunk ds (CInt i) = get_chunk_p ds (unravel i (chunks ds)) \<and>
            get_chunk_data ds (CInt i) None = get_chunk_data_p ds (unravel i (chunks ds)) None \<and>
            set_chunk_data ds (CInt i) data None =
              set_chunk_data_p ds (unravel i (chunks ds)) data None"
    if i: "0 \<le> i \<and> i < total_chunks ds"
  proof -
    let ?u = "unravel i (chunks ds)"
    have i0: "0 \<le> i" and ip: "i < prod_list (chunks ds)" using i total by simp_all
    from unravel_in_grid [OF assms(3) i0 ip]
    have u: "length ?u = length (chunks ds)"
      "list_all2 (\<lambda>c m. 0 \<le> c \<and> c < m) ?u (chunks ds)"
      "ravel_multi_index ?u (chunks ds) = i"
      by simp_all
    have un: "np_unravel_index i (chunks ds) = Inr ?u"
      using i0 ip nneg assms(4) by (simp add: np_unravel_index_def)
    have small: "\<not> list_ex (\<lambda>(c1, c2). c1 \<ge> c2) (zip ?u (chunks ds))"
      using u(2) by (auto simp: list_ex_iff list_all2_iff)
    have t: "transform_chunk_index ds (CInt i) = Inr ?u"
      using assms(1,2) i un u(1) small by (simp add: transform_chunk_index_def ndim_def)
    have g: "index_in_grid (chunks ds) ?u" using u(2) by (simp add: index_in_grid_def)
    show ?thesis
      using t u(1,3) g assms(2)
      by (simp add: has_chunk_def get_chunk_def get_chunk_data_def set_chunk_data_def
          process_slices_opt_def)
  qed
  have c2: "transform_chunk_index ds (CInt i) = Inl (DatasetException IncorrectChunkFormat)"
    if "total_chunks ds \<le> i \<and> i < 2 ^ 63"
    using that rank by (simp add: transform_chunk_index_def)
  have c3: "transform_chunk_index ds (CInt i) = Inl ValueError"
    if "- (2 ^ 63) \<le> i \<and> i < 0"
    using that P total assms(1,4) nneg
    by (simp add: transform_chunk_index_def np_unravel_index_def)
  have c4: "transform_chunk_index ds (CSeq js) =
              (if list_ex (\<lambda>(c1, c2). c1 \<ge> c2) (zip js (chunks ds))
               then Inl (DatasetException OutOfLimitsChunk) else Inr js)"
    if len: "length js = ndim ds"
  proof -
    obtain j js' where js: "js = j # js'" using len assms(1) by (cases js) auto
    have uw: "unwrap_chunk_index (CSeq js) = Inr js" by (simp add: js)
    have nf: "\<not> (length js = 1 \<and> ndim ds > 1 \<and> hd js < total_chunks ds)"
      using len assms(1) by simp
    have len': "length js = length (shape ds)" using len by (simp add: ndim_def)
    have "transform_chunk_index ds (CSeq js) =
        (if length js = length (shape ds) then
           (if list_ex (\<lambda>(c1, c2). c1 \<ge> c2) (zip js (chunks ds))
            then Inl (DatasetException OutOfLimitsChunk) else Inr js)
         else Inl (DatasetException IncorrectChunkFormat))"
      by (simp only: transform_chunk_index_def uw nf sum.case if_False)
    then show ?thesis by (simp only: len' refl if_True)
  qed
  have c5: "has_chunk ds idx = praise e \<and> get_chunk ds idx = praise e \<and>
            get_chunk_data ds idx sl = praise e \<and> set_chunk_data ds idx data sl = praise e"
    if "transform_chunk_index ds idx = Inl e"
    using chunk_operations_fail [OF that] by simp
  from c1 c2 c3 c4 c5 show ?thesis by blast
qed

theorem transform_chunk_index_cases_witness:
  "(1 :: nat) < ndim \<lparr>name = ''d'', shape = [10, 4], dtype = ''int64'', fillvalue = - 1 :: int,
       chunks = [4, 2], chunk_size = [3, 2], njobs = None, read_only = False\<rparr> \<and>
   prod_list [4, 2 :: int] < 2 ^ 63 \<and>
   (5 :: int) < total_chunks \<lparr>name = ''d'', shape = [10, 4], dtype = ''int64'', fillvalue = - 1 :: int,
       chunks = [4, 2], chunk_size = [3, 2], njobs = None, read_only = False\<rparr> \<and>
   transform_chunk_index \<lparr>name = ''d'', shape = [10, 4], dtype = ''int64'', fillvalue = - 1 :: int,
       chunks = [4, 2], chunk_size = [3, 2], njobs = None, read_only = False\<rparr> (CInt 5) = Inr [2, 1] \<and>
   index_in_grid [4, 2] [2, 1] \<and>
   ravel_multi_index [2, 1] [4, 2] = 5 \<and>
   transform_chunk_index \<lparr>name = ''d'', shape = [10, 4], dtype = ''int64'', fillvalue = - 1 :: int,
       chunks = [4, 2], chunk_size = [3, 2], njobs = None, read_only = False\<rparr> (CSeq [3, 1]) = Inr [3, 1] \<and>
   transform_chunk_index \<lparr>name = ''d'', shape = [10, 4], dtype = ''int64'', fillvalue = - 1 :: int,
       chunks = [4, 2], chunk_size = [3, 2], njobs = None, read_only = False\<rparr> (CSeq [4, 1])
     = Inl (DatasetException OutOfLimitsChunk)"
proof -
  let ?ds = "\<lparr>name = ''d'', shape = [10, 4], dtype = ''int64'', fillvalue = - 1 :: int,
       chunks = [4, 2], chunk_size = [3, 2], njobs = None, read_only = False\<rparr>"
  have a: "1 < ndim ?ds" "length (chunks ?ds) = ndim ?ds" "list_all (\<lambda>m. 0 < m) (chunks ?ds)"
    "prod_list (chunks ?ds) < 2 ^ 63"
    by (simp_all add: ndim_def)
  have t: "total_chunks ?ds = 8" by (simp add: total_chunks_def wrap_int64_def)
  note c = transform_chunk_index_cases [OF a, where data = "NDArray [] [0]"]
  have flat: "transform_chunk_index ?ds (CInt 5) = Inr (unravel 5 (chunks ?ds)) \<and>
      index_in_grid (chunks ?ds) (unravel 5 (chunks ?ds)) \<and>
      ravel_multi_index (unravel 5 (chunks ?ds)) (chunks ?ds) = 5"
    using c [of 5, THEN conjunct1] t by simp
  have s1: "transform_chunk_index ?ds (CSeq [3, 1]) = Inr [3, 1]"
    using c [where js = "[3, 1]", THEN conjunct2, THEN conjunct2, THEN conjunct2, THEN conjunct1]
    by (simp add: ndim_def)
  have s2: "transform_chunk_index ?ds (CSeq [4, 1]) = Inl (DatasetException OutOfLimitsChunk)"
    using c [where js = "[4, 1]", THEN conjunct2, THEN conjunct2, THEN conjunct2, THEN conjunct1]
    by (simp add: ndim_def)
  from flat s1 s2 a(1) t show ?thesis by simp
qed

text \<open>
  The claim asks that an index which does not end inside the chunk grid fails with the
  out-of-grid failure.  On the grid \<open>(4, 2)\<close>: the flat index 8 fails with
  \<^verbatim>\<open>Incorrect chunk indexing format\<close>, the flat index \<open>-1\<close> fails with a
  \<^verbatim>\<open>ValueError\<close>, and the index \<open>(-1, 0)\<close>, which is not in the grid, is
  returned.
\<close>

theorem transform_chunk_index_other_outcomes:
  "transform_chunk_index \<lparr>name = ''d'', shape = [10, 4], dtype = ''int64'', fillvalue = - 1 :: int,
       chunks = [4, 2], chunk_size = [3, 2], njobs = None, read_only = False\<rparr> (CInt 8)
     = Inl (DatasetException IncorrectChunkFormat) \<and>
   transform_chunk_index \<lparr>name = ''d'', shape = [10, 4], dtype = ''int64'', fillvalue = - 1 :: int,
       chunks = [4, 2], chunk_size = [3, 2], njobs = None, read_only = False\<rparr> (CInt (- 1))
     = Inl ValueError \<and>
   transform_chunk_index \<lparr>name = ''d'', shape = [10, 4], dtype = ''int64'', fillvalue = - 1 :: int,
       chunks = [4, 2], chunk_size = [3, 2], njobs = None, read_only = False\<rparr> (CSeq [- 1, 0])
     = Inr [- 1, 0] \<and>
   \<not> index_in_grid [4, 2] [- 1, 0]"
  by (simp add: transform_chunk_index_def ndim_def total_chunks_def wrap_int64_def
      np_unravel_index_def index_in_grid_def)

lemma np_full_ok:
  assumes "list_all (\<lambda>n. 0 \<le> n) shp"
  shows "np_full shp v = Inr (NDArray (map nat shp) (replicate (prod_list (map nat shp)) v))"
  using assms by (auto simp: np_full_def list_ex_iff list_all_iff)

text \<open>
  Claim C4.  When the pool holds no object under the name of a chunk,
  \<^verbatim>\<open>_get_chunk_data\<close> returns an array of the requested sub-shape (the chunk shape when
  no sub-region is given) whose every element is the fill value; the pool is unchanged,
  and \<^verbatim>\<open>_has_chunk\<close> is still false.  The requested shape has no negative extent, as
  for every slice list that \<^verbatim>\<open>_process_slices\<close> returns.
\<close>

theorem get_chunk_data_missing_chunk:
  assumes "objects pool (chunkname ds chunk_idx) = None"
    and "case slices of
           None \<Rightarrow> list_all (\<lambda>n. 0 \<le> n) (chunk_size ds)
         | Some sl \<Rightarrow> list_all (\<lambda>s. bstart s \<le> bstop s) sl"
  shows "\<exists>arr. get_chunk_data_p ds chunk_idx slices pool = (Inr arr, pool) \<and>
           map int (arr_shape arr) =
             (case slices of
                None \<Rightarrow> chunk_size ds
              | Some sl \<Rightarrow> map (\<lambda>s. bstop s - bstart s) sl) \<and>
           length (arr_data arr) = prod_list (arr_shape arr) \<and>
           list_all (\<lambda>x. x = fillvalue ds) (arr_data arr) \<and>
           has_chunk_p ds chunk_idx pool = (Inr False, pool)"
proof -
  let ?shp = "case slices of None \<Rightarrow> chunk_size ds
                | Some sl \<Rightarrow> map (\<lambda>s. bstop s - bstart s) sl"
  have nn: "list_all (\<lambda>n. 0 \<le> n) ?shp"
    using assms(2) by (cases slices) (auto simp: list_all_iff)
  have h: "has_chunk_p ds chunk_idx pool = (Inr False, pool)"
    using assms(1) by (simp add: has_chunk_p_def pool_has_chunk_def)
  have "get_chunk_data_p ds chunk_idx slices pool =
      (Inr (NDArray (map nat ?shp) (replicate (prod_list (map nat ?shp)) (fillvalue ds))), pool)"
    using h np_full_ok [OF nn] by (simp add: get_chunk_data_p_def pbind_def plift_def)
  moreover have "map int (map nat ?shp) = ?shp"
    using nn by (induction ?shp) (auto simp: list_all_iff intro: map_idI)
  ultimately show ?thesis using h by (simp add: list_all_iff)
qed

theorem get_chunk_data_missing_chunk_witness:
  "objects \<lparr>pool_name = ''p'', pool_njobs = None, objects = Map.empty\<rparr>
     (chunkname \<lparr>name = ''d'', shape = [10, 4], dtype = ''int64'', fillvalue = - 1 :: int,
        chunks = [4, 2], chunk_size = [3, 2], njobs = None, read_only = False\<rparr> [2, 1]) = None \<and>
   get_chunk_data_p \<lparr>name = ''d'', shape = [10, 4], dtype = ''int64'', fillvalue = - 1 :: int,
        chunks = [4, 2], chunk_size = [3, 2], njobs = None, read_only = False\<rparr> [2, 1]
        (Some [Sl 1 3, Sl 0 2]) \<lparr>pool_name = ''p'', pool_njobs = None, objects = Map.empty\<rparr>
     = (Inr (NDArray [2, 2] [- 1, - 1, - 1, - 1]),
        \<lparr>pool_name = ''p'', pool_njobs = None, objects = Map.empty\<rparr>) \<and>
   has_chunk_p \<lparr>name = ''d'', shape = [10, 4], dtype = ''int64'', fillvalue = - 1 :: int,
        chunks = [4, 2], chunk_size = [3, 2], njobs = None, read_only = False\<rparr> [2, 1]
        \<lparr>pool_name = ''p'', pool_njobs = None, objects = Map.empty\<rparr>
     = (Inr False, \<lparr>pool_name = ''p'', pool_njobs = None, objects = Map.empty\<rparr>)"
proof -
  let ?ds = "\<lparr>name = ''d'', shape = [10, 4], dtype = ''int64'', fillvalue = - 1 :: int,
        chunks = [4, 2], chunk_size = [3, 2], njobs = None, read_only = False\<rparr>"
  let ?pool = "\<lparr>pool_name = ''p'', pool_njobs = None,
        objects = (Map.empty :: string \<rightharpoonup> int pool_object)\<rparr>"
  have a: "objects ?pool (chunkname ?ds [2, 1]) = None" by simp
  have b: "case Some [Sl 1 3, Sl 0 2] of
           None \<Rightarrow> list_all (\<lambda>n. 0 \<le> n) (chunk_size ?ds)
         | Some sl \<Rightarrow> list_all (\<lambda>s. bstart s \<le> bstop s) sl" by simp
  from get_chunk_data_missing_chunk [OF a b] obtain arr where
    r: "get_chunk_data_p ?ds [2, 1] (Some [Sl 1 3, Sl 0 2]) ?pool = (Inr arr, ?pool)"
       "map int (arr_shape arr) = [2, 2]"
       "length (arr_data arr) = prod_list (arr_shape arr)"
       "list_all (\<lambda>x. x = - 1) (arr_data arr)"
       "has_chunk_p ?ds [2, 1] ?pool = (Inr False, ?pool)"
    by auto
  from r(2) have s: "arr_shape arr = [2, 2]"
    by (auto simp: map_eq_Cons_conv)
  with r(3) have "length (arr_data arr) = 4" by simp
  with r(4) have "arr_data arr = [- 1, - 1, - 1, - 1]"
    by (auto simp: length_Suc_conv numeral_eq_Suc)
  with s have "arr = NDArray [2, 2] [- 1, - 1, - 1, - 1]" by (cases arr) simp
  with r(1,5) a show ?thesis by simp
qed

lemma normalize_entry_ordered:
  "normalize_entry shp i e = Inr (sl, b) \<Longrightarrow> bstart sl \<le> bstop sl"
  by (cases e) (auto simp: Let_def split: sum.splits if_splits option.splits)

lemma normalize_loop_ordered:
  "normalize_loop shp i es acc sq = Inr (sls, axes) \<Longrightarrow>
     list_all (\<lambda>s. bstart s \<le> bstop s) acc \<Longrightarrow> list_all (\<lambda>s. bstart s \<le> bstop s) sls"
proof (induction es arbitrary: i acc sq)
  case Nil
  then show ?case by simp
next
  case (Cons e es)
  from Cons.prems(1) obtain sl b where n: "normalize_entry shp i e = Inr (sl, b)"
    and l: "normalize_loop shp (Suc i) es (acc @ [sl]) (if b then sq @ [i] else sq) = Inr (sls, axes)"
    by (auto split: sum.splits)
  have "list_all (\<lambda>s. bstart s \<le> bstop s) (acc @ [sl])"
    using Cons.prems(2) normalize_entry_ordered [OF n] by simp
  from Cons.IH [OF l this] show ?case .
qed

lemma process_slices_ordered:
  "process_slices ds idx = Inr sls \<Longrightarrow> list_all (\<lambda>s. bstart s \<le> bstop s) sls"
  using normalize_loop_ordered [of "shape ds" 0 _ "[]" "[]" sls]
  by (auto simp: process_slices_def process_slices_squeeze_def split: sum.splits)

section \<open>The pool engine: creating and loading a dataset\<close>

text \<open>
  The \<^verbatim>\<open>chunks\<close> argument of \<^verbatim>\<open>Dataset.create\<close>: \<^verbatim>\<open>None\<close>, an integer, a
  sequence of integers, or any other value, given by what \<^verbatim>\<open>int(chunks)\<close> does with
  it: it returns an integer, or raises a \<^verbatim>\<open>ValueError\<close> or a \<^verbatim>\<open>TypeError\<close>.
\<close>

datatype int_coercion = IntOf int | IntValueError | IntTypeError

datatype chunks_arg = ChunksNone | ChunksInt int | ChunksSeq "int list" | ChunksOther int_coercion

text \<open>
  \<^verbatim>\<open>Dataset._validate_chunk_shape(chunks, shape)\<close>.  A missing shape
  (\<^verbatim>\<open>None\<close>) is a \<^verbatim>\<open>TypeError\<close> wherever it is used; a sequence of the wrong
  length falls through to \<^verbatim>\<open>int(chunks)\<close>, a \<^verbatim>\<open>TypeError\<close>; only a
  \<^verbatim>\<open>ValueError\<close> of \<^verbatim>\<open>int(chunks)\<close> is caught.
\<close>

definition validate_chunk_shape :: "chunks_arg \<Rightarrow> int list option \<Rightarrow> error + int list" where
  "validate_chunk_shape chnks shp =
     (case chnks of
        ChunksNone \<Rightarrow> (case shp of None \<Rightarrow> Inl TypeError | Some s \<Rightarrow> Inr s)
      | ChunksInt c \<Rightarrow>
          (case shp of None \<Rightarrow> Inl TypeError | Some s \<Rightarrow> Inr (replicate (length s) c))
      | ChunksSeq cs \<Rightarrow>
          (case shp of
             None \<Rightarrow> Inl TypeError
           | Some s \<Rightarrow> if length cs = length s then Inr cs else Inl TypeError)
      | ChunksOther coerced \<Rightarrow>
          (case coerced of
             IntValueError \<Rightarrow> Inl (DatasetException ChunkDimMismatch)
           | IntTypeError \<Rightarrow> Inl TypeError
           | IntOf c \<Rightarrow>
               (case shp of None \<Rightarrow> Inl TypeError | Some s \<Rightarrow> Inr (replicate (length s) c))))"

text \<open>Modelled from the spec: \<^verbatim>\<open>pool.njobs\<close>, the default parallelism width of the pool.\<close>

definition pool_get_njobs :: "('a, int option) pool_op" where
  "pool_get_njobs p = (Inr (pool_njobs p), p)"

text \<open>
  \<^verbatim>\<open>Dataset(pool, name, read_only=..., njobs=...)\<close> with no \<^verbatim>\<open>data\<close>, as
  \<^verbatim>\<open>Dataset.create\<close> calls it (with \<^verbatim>\<open>data\<close> the constructor calls
  \<^verbatim>\<open>Dataset.create\<close> first).
\<close>

definition dataset_init :: "string \<Rightarrow> bool \<Rightarrow> int option \<Rightarrow> ('a, 'a dataset) pool_op" where
  "dataset_init nm ro nj =
     pbind (pool_has_dataset nm)
       (\<lambda>found.
          if \<not> found then praise (DatasetException NoDatasetFound)
          else
            pbind (base_data_init nm)
              (\<lambda>(shp, dt).
                 pbind (get_value_xattr nm ''fillvalue'')
                   (\<lambda>fv. pbind (get_shape_xattr nm ''chunks'')
                      (\<lambda>ch. pbind (get_shape_xattr nm ''chunk_size'')
                         (\<lambda>cs. pbind pool_get_njobs
                            (\<lambda>pn. preturn
                               \<lparr>name = nm, shape = shp, dtype = dt, fillvalue = fv,
                                chunks = ch, chunk_size = cs,
                                njobs = (case nj of None \<Rightarrow> pn | Some n \<Rightarrow> Some n),
                                read_only = ro\<rparr>))))))"

text \<open>
  \<^verbatim>\<open>Dataset._gchunk_bounds_slices(idx)\<close>:
  \<^verbatim>\<open>slice(i * s, min((i + 1) * s, self.shape[j]))\<close> for the \<open>j\<close>-th pair of
  \<^verbatim>\<open>zip(idx, self.chunk_size)\<close>.
\<close>

fun gchunk_bounds_from :: "int list \<Rightarrow> nat \<Rightarrow> int list \<Rightarrow> int list \<Rightarrow> error + bslice list" where
  "gchunk_bounds_from shp j (i # idx) (s # csize) =
     (case shape_at shp j of
        Inl e \<Rightarrow> Inl e
      | Inr n \<Rightarrow>
          (case gchunk_bounds_from shp (Suc j) idx csize of
             Inl e \<Rightarrow> Inl e
           | Inr rest \<Rightarrow> Inr (Sl (i * s) (min ((i + 1) * s) n) # rest)))"
| "gchunk_bounds_from shp j idx csize = Inr []"

definition gchunk_bounds_slices :: "'a dataset \<Rightarrow> int list \<Rightarrow> error + bslice list" where
  "gchunk_bounds_slices ds idx = gchunk_bounds_from (shape ds) 0 idx (chunk_size ds)"

text \<open>A \<^verbatim>\<open>for\<close> loop over a list whose body works on the pool; it stops at a failure.\<close>

fun pforeach :: "'x list \<Rightarrow> ('x \<Rightarrow> ('a, unit) pool_op) \<Rightarrow> ('a, unit) pool_op" where
  "pforeach [] body = preturn ()"
| "pforeach (x # xs) body = pbind (body x) (\<lambda>_. pforeach xs body)"

text \<open>
  \<^verbatim>\<open>Dataset.load(data)\<close>: one \<^verbatim>\<open>_set_chunk_data\<close> per index of
  \<^verbatim>\<open>np.ndindex(*chunks)\<close> (a negative extent is a \<^verbatim>\<open>ValueError\<close>).  With a
  parallelism width above 1 the same calls are handed to the worker pool; each works on
  the object of its own chunk, and they are taken here in the order of the loop.
\<close>

definition load :: "'a dataset \<Rightarrow> 'a ndarray \<Rightarrow> ('a, unit) pool_op" where
  "load ds data =
     (if list_ex (\<lambda>m. m < 0) (chunks ds) then praise ValueError
      else pforeach (ndindex (map nat (chunks ds)))
             (\<lambda>idx. pbind (plift (gchunk_bounds_slices ds (map int idx)))
                       (\<lambda>slices. set_chunk_data_p ds (map int idx) data (Some slices))))"

text \<open>
  \<^verbatim>\<open>Dataset.create(pool, name, shape, dtype, fillvalue, chunks, data, read_only,
  njobs)\<close>: the preflight test, then \<open>create_write\<close>, the rest of the body.  The
  \<^verbatim>\<open>try\<close> block raises the already-exists failure when
  \<^verbatim>\<open>pool.stat\<close> returns, and the \<^verbatim>\<open>except\<close> clause catches
  \<^verbatim>\<open>rados.ObjectNotFound\<close> only.  Arrays carry no element type here, so \<open>dt\<close> also
  stands for \<^verbatim>\<open>data.dtype\<close>.  \<^verbatim>\<open>njobs or pool.njobs\<close> takes the pool's width for
  \<^verbatim>\<open>None\<close> and for 0.
\<close>

definition create_write ::
  "string \<Rightarrow> int list option \<Rightarrow> string \<Rightarrow> 'a \<Rightarrow> chunks_arg \<Rightarrow> 'a ndarray option \<Rightarrow> bool \<Rightarrow>
     int option \<Rightarrow> ('a, 'a dataset) pool_op" where
  "create_write nm shp dt fv chnks data ro nj =
     pbind (plift (validate_chunk_shape chnks shp)) (\<lambda>csize.
     pbind (plift (case shp of None \<Rightarrow> Inl TypeError | Some s \<Rightarrow> Inr s)) (\<lambda>s.
     pbind (pool_write_full nm (Text signature)) (\<lambda>_.
     pbind (pool_set_xattr nm ''shape'' (XShape s)) (\<lambda>_.
     pbind (pool_set_xattr nm ''dtype'' (XText dt)) (\<lambda>_.
     pbind (pool_set_xattr nm ''fillvalue'' (XValue fv)) (\<lambda>_.
     pbind (pool_set_xattr nm ''chunks'' (XShape (chunks_needed s csize))) (\<lambda>_.
     pbind (pool_set_xattr nm ''chunk_size'' (XShape csize)) (\<lambda>_.
     pbind pool_get_njobs (\<lambda>pn.
     pbind (dataset_init nm ro (if nj = None \<or> nj = Some 0 then pn else nj)) (\<lambda>ds.
       case data of
         None \<Rightarrow> preturn ds
       | Some d \<Rightarrow> pbind (load ds d) (\<lambda>_. preturn ds)))))))))))"

definition create ::
  "string \<Rightarrow> int list option \<Rightarrow> string \<Rightarrow> 'a \<Rightarrow> chunks_arg \<Rightarrow> 'a ndarray option \<Rightarrow> bool \<Rightarrow>
     int option \<Rightarrow> ('a, 'a dataset) pool_op" where
  "create nm shp0 dt fv chnks data ro nj pool =
     (case pool_stat nm pool of
        (Inr found, pool1) \<Rightarrow> (Inl (DatasetException ObjectAlreadyExists), pool1)
      | (Inl e, pool1) \<Rightarrow>
          if e \<noteq> ObjectNotFound then (Inl e, pool1)
          else create_write nm
                 (case data of None \<Rightarrow> shp0 | Some d \<Rightarrow> Some (map int (arr_shape d)))
                 dt fv chnks data ro nj pool1)"

subsection \<open>Properties of dataset creation\<close>

text \<open>An operation never ends in a given failure, whatever the pool.\<close>

definition never :: "error \<Rightarrow> ('a, 'r) pool_op \<Rightarrow> bool" where
  "never e m \<longleftrightarrow> (\<forall>p. fst (m p) \<noteq> Inl e)"

text \<open>
  The two failures of the preflight test of \<^verbatim>\<open>Dataset.create\<close>: no computation on
  arrays, slices or shapes produces them.
\<close>

definition pool_failure :: "error \<Rightarrow> bool" where
  "pool_failure e \<longleftrightarrow> e = DatasetException ObjectAlreadyExists \<or> e = ObjectNotFound"

lemma never_preturn: "never e (preturn r)"
  by (simp add: never_def preturn_def)

lemma never_praise: "e' \<noteq> e \<Longrightarrow> never e (praise e')"
  by (simp add: never_def praise_def)

lemma never_plift: "x \<noteq> Inl e \<Longrightarrow> never e (plift x)"
  by (simp add: never_def plift_def)

lemma never_pbind: "never e m \<Longrightarrow> (\<And>r. never e (f r)) \<Longrightarrow> never e (pbind m f)"
  by (auto simp: never_def pbind_def split: prod.splits sum.splits) (metis fst_conv)+

lemma never_pforeach: "(\<And>x. never e (body x)) \<Longrightarrow> never e (pforeach xs body)"
  by (induction xs) (auto intro: never_pbind never_preturn)

lemma np_full_local: "pool_failure e \<Longrightarrow> np_full shp v \<noteq> Inl e"
  by (auto simp: np_full_def pool_failure_def)

lemma broadcast_to_local: "pool_failure e \<Longrightarrow> broadcast_to v tgt \<noteq> Inl e"
  by (auto simp: broadcast_to_def Let_def pool_failure_def)

lemma np_getitem_local: "pool_failure e \<Longrightarrow> np_getitem a i \<noteq> Inl e"
  by (auto simp: np_getitem_def Let_def pool_failure_def split: np_index.splits)

lemma np_setitem_local: "pool_failure e \<Longrightarrow> np_setitem a i v \<noteq> Inl e"
  using broadcast_to_local [of e v]
  by (auto simp: np_setitem_def Let_def pool_failure_def split: np_index.splits sum.splits)

lemma from_payload_local: "pool_failure e \<Longrightarrow> from_payload shp pl \<noteq> Inl e"
  by (auto simp: from_payload_def Let_def pool_failure_def split: payload.splits)

lemma chunk_create_data_local:
  assumes e: "pool_failure e"
  shows "chunk_create_data shp fv data slices \<noteq> Inl e"
proof
  assume a: "chunk_create_data shp fv data slices = Inl e"
  show False
  proof (cases data)
    case None
    with a np_full_local [OF e, of shp fv] show False by (simp add: chunk_create_data_def)
  next
    case (Some d0)
    define g where "g = (case slices of None \<Rightarrow> Inr d0 | Some s \<Rightarrow> np_getitem d0 (to_np s))"
    have g: "g \<noteq> Inl e" by (simp add: g_def np_getitem_local [OF e] split: option.splits)
    have a': "(case g of Inl e \<Rightarrow> Inl e
          | Inr d \<Rightarrow>
              if map int (arr_shape d) = shp then Inr d
              else if list_all (\<lambda>(ds, cs). int ds \<le> cs) (zip (arr_shape d) shp) then
                (case np_full shp fv of Inl e \<Rightarrow> Inl e
                 | Inr cdata \<Rightarrow> np_setitem cdata (to_np_opt slices) d)
              else Inl (DatasetException DataShapeMismatch)) = Inl e"
      using a Some by (simp add: chunk_create_data_def g_def)
    have ne: "e \<noteq> DatasetException DataShapeMismatch" using e by (auto simp: pool_failure_def)
    show False
    proof (cases g)
      case (Inl x)
      with a' g show False by simp
    next
      case (Inr d)
      show False
      proof (cases "np_full shp fv")
        case (Inl x)
        with a' Inr np_full_local [OF e, of shp fv] ne show False by (simp split: if_splits)
      next
        case r: (Inr cdata)
        with a' Inr np_setitem_local [OF e, of cdata "to_np_opt slices" d] ne show False
          by (simp split: if_splits)
      qed
    qed
  qed
qed

lemma gchunk_bounds_from_local: "pool_failure e \<Longrightarrow> gchunk_bounds_from shp j idx csize \<noteq> Inl e"
  by (induction shp j idx csize rule: gchunk_bounds_from.induct)
     (auto simp: shape_at_def pool_failure_def split: sum.splits if_splits)

lemma validate_chunk_shape_local: "pool_failure e \<Longrightarrow> validate_chunk_shape chnks shp \<noteq> Inl e"
  by (auto simp: validate_chunk_shape_def pool_failure_def
      split: chunks_arg.splits option.splits int_coercion.splits)

lemma pure_failures:
  "np_full shp v = Inl x \<Longrightarrow> \<not> pool_failure x"
  "np_getitem a i = Inl x \<Longrightarrow> \<not> pool_failure x"
  "np_setitem a i w = Inl x \<Longrightarrow> \<not> pool_failure x"
  "from_payload shp pl = Inl x \<Longrightarrow> \<not> pool_failure x"
  "chunk_create_data shp fv data slices = Inl x \<Longrightarrow> \<not> pool_failure x"
  "gchunk_bounds_from shp j idx csize = Inl x \<Longrightarrow> \<not> pool_failure x"
  "validate_chunk_shape chnks shpo = Inl x \<Longrightarrow> \<not> pool_failure x"
  using np_full_local [of x shp v] np_getitem_local [of x a i] np_setitem_local [of x a i w]
    from_payload_local [of x shp pl] chunk_create_data_local [of x shp fv data slices]
    gchunk_bounds_from_local [of x shp j idx csize] validate_chunk_shape_local [of x chnks shpo]
  by auto

lemma data_chunk_init_after_create:
  assumes "objects p nm = Some ob" and "obj_xattrs ob ''shape'' = Some (XShape shp)"
    and "obj_xattrs ob ''dtype'' = Some (XText dt)"
  shows "data_chunk_init nm p =
           (Inr \<lparr>dc_name = nm, dc_shape = shp, dc_dtype = dt, dc_read_only = False\<rparr>, p)"
  using assms
  by (simp add: data_chunk_init_def base_data_init_def get_shape_xattr_def get_text_xattr_def
      pool_get_xattr_def pool_has_chunk_def pbind_def preturn_def)

lemma data_chunk_create_result:
  "data_chunk_create nm shp dt fv data slices p =
     (case chunk_create_data shp fv data slices of
        Inl e \<Rightarrow> (Inl e, p)
      | Inr cdata \<Rightarrow>
          (Inr \<lparr>dc_name = nm, dc_shape = shp, dc_dtype = dt, dc_read_only = False\<rparr>,
           snd (pool_set_xattr nm ''dtype'' (XText dt)
             (snd (pool_set_xattr nm ''shape'' (XShape shp)
               (snd (pool_write_full nm (Elements (arr_data cdata)) p)))))))"
proof (cases "chunk_create_data shp fv data slices")
  case (Inl e)
  then show ?thesis by (simp add: data_chunk_create_def pbind_def plift_def praise_def)
next
  case (Inr cdata)
  let ?p3 = "snd (pool_set_xattr nm ''dtype'' (XText dt)
             (snd (pool_set_xattr nm ''shape'' (XShape shp)
               (snd (pool_write_full nm (Elements (arr_data cdata)) p)))))"
  obtain ob where ob: "objects ?p3 nm = Some ob" "obj_xattrs ob ''shape'' = Some (XShape shp)"
    "obj_xattrs ob ''dtype'' = Some (XText dt)"
    by (simp add: pool_set_xattr_def pool_write_full_def split: option.splits)
  have "data_chunk_create nm shp dt fv data slices p = data_chunk_init nm ?p3"
    using Inr by (simp add: data_chunk_create_def pbind_def plift_def pool_set_xattr_def
        pool_write_full_def)
  with data_chunk_init_after_create [OF ob] Inr show ?thesis by simp
qed

lemma set_chunk_data_p_local:
  assumes e: "pool_failure e"
  shows "never e (set_chunk_data_p ds idx data slices)"
  unfolding never_def
proof
  fix p :: "'a pool"
  let ?nm = "chunkname ds idx"
  show "fst (set_chunk_data_p ds idx data slices p) \<noteq> Inl e"
  proof (cases "objects p ?nm")
    case None
    then have "set_chunk_data_p ds idx data slices p =
        pbind (data_chunk_create ?nm (chunk_size ds) (dtype ds) (fillvalue ds) (Some data) slices)
          (\<lambda>_. preturn ()) p"
      by (simp add: set_chunk_data_p_def has_chunk_p_def pool_has_chunk_def pbind_def
          create_chunk_p_def)
    then show ?thesis
      using e
      by (auto simp: pbind_def preturn_def data_chunk_create_result split: sum.splits
          dest: pure_failures(5))
  next
    case (Some ob)
    have ne: "e \<noteq> NoData" "e \<noteq> ValueError" "e \<noteq> DatasetException NoChunkFound"
      "e \<noteq> DatasetException ChunkShapeMismatch"
      using e by (auto simp: pool_failure_def)
    have init: "data_chunk_init ?nm p = (Inl x, p') \<Longrightarrow> x \<noteq> e" for x p'
      using Some ne
      by (auto simp: data_chunk_init_def base_data_init_def get_shape_xattr_def
          get_text_xattr_def pool_get_xattr_def pool_has_chunk_def pbind_def preturn_def
          praise_def split: option.splits xattr.splits if_splits)
    have init_p: "data_chunk_init ?nm p = (r, p') \<Longrightarrow> p' = p" for r p'
      using Some
      by (auto simp: data_chunk_init_def base_data_init_def get_shape_xattr_def
          get_text_xattr_def pool_get_xattr_def pool_has_chunk_def pbind_def preturn_def
          praise_def split: option.splits xattr.splits if_splits)
    have init_n: "data_chunk_init ?nm p = (Inr c, p') \<Longrightarrow> dc_name c = ?nm" for c p'
      using Some
      by (auto simp: data_chunk_init_def base_data_init_def get_shape_xattr_def
          get_text_xattr_def pool_get_xattr_def pool_has_chunk_def pbind_def preturn_def
          praise_def split: option.splits xattr.splits if_splits)
    have body: "fst ((case slices of None \<Rightarrow> chunk_set_data c data
                      | Some s \<Rightarrow> chunk_set_slices c s data) p) \<noteq> Inl e"
      if "dc_name c = ?nm" for c
      using that Some ne e
      by (auto simp: chunk_set_data_def chunk_set_slices_def chunk_get_data_def chunk_write_def
          pool_read_def pool_write_full_def pbind_def plift_def praise_def
          split: option.splits sum.splits prod.splits dest: pure_failures(3,4))
    have "set_chunk_data_p ds idx data slices p =
        pbind (data_chunk_init ?nm)
          (\<lambda>c. case slices of None \<Rightarrow> chunk_set_data c data
                 | Some s \<Rightarrow> chunk_set_slices c s data) p"
      using Some
      by (simp add: set_chunk_data_p_def has_chunk_p_def pool_has_chunk_def pbind_def
          set_existing_chunk_data_p_def get_existing_chunk_p_def)
    then show ?thesis
      using init init_p init_n body
      by (auto simp: pbind_def split: prod.splits sum.splits)
  qed
qed

lemma load_local: "pool_failure e \<Longrightarrow> never e (load ds data)"
  unfolding load_def gchunk_bounds_slices_def
  by (auto intro!: never_pforeach never_pbind never_plift never_praise set_chunk_data_p_local
      dest: pure_failures(6) simp: pool_failure_def)

lemma dataset_init_local:
  assumes e: "pool_failure e"
  shows "never e (dataset_init nm ro nj)"
  unfolding never_def
proof
  fix p :: "'a pool"
  have ne: "e \<noteq> NoData" "e \<noteq> ValueError" "e \<noteq> DatasetException NoDatasetFound"
    using e by (auto simp: pool_failure_def)
  show "fst (dataset_init nm ro nj p) \<noteq> Inl e"
  proof (cases "objects p nm")
    case None
    then show ?thesis using ne
      by (simp add: dataset_init_def pool_has_dataset_def pbind_def praise_def)
  next
    case (Some ob)
    then show ?thesis using ne
      by (auto simp: dataset_init_def pool_has_dataset_def base_data_init_def
          get_shape_xattr_def get_text_xattr_def get_value_xattr_def pool_get_xattr_def
          pool_get_njobs_def pbind_def preturn_def praise_def
          split: option.splits xattr.splits if_splits)
  qed
qed

lemma never_writes:
  "never e (pool_write_full nm d)" "never e (pool_set_xattr nm k v)" "never e pool_get_njobs"
  by (simp_all add: never_def pool_write_full_def pool_set_xattr_def pool_get_njobs_def)

lemma create_write_local:
  assumes e: "pool_failure e"
  shows "never e (create_write nm shp dt fv chnks data ro nj)"
  unfolding create_write_def
  using e
  by (auto intro!: never_pbind never_writes never_plift never_preturn never_praise
      dataset_init_local load_local dest: pure_failures(7) simp: pool_failure_def
      split: option.splits)

lemma create_write_plain:
  assumes "objects pool nm = None" and "validate_chunk_shape chnks (Some s) = Inr csize"
  shows "create_write nm (Some s) dt fv chnks None ro nj pool =
     (Inr \<lparr>name = nm, shape = s, dtype = dt, fillvalue = fv,
           chunks = chunks_needed s csize, chunk_size = csize,
           njobs = (if nj = None \<or> nj = Some 0 then pool_njobs pool else nj),
           read_only = ro\<rparr>,
      pool\<lparr>objects := (objects pool)(nm \<mapsto>
         \<lparr>obj_payload = Text signature,
          obj_xattrs = [''shape'' \<mapsto> XShape s, ''dtype'' \<mapsto> XText dt,
                        ''fillvalue'' \<mapsto> XValue fv,
                        ''chunks'' \<mapsto> XShape (chunks_needed s csize),
                        ''chunk_size'' \<mapsto> XShape csize]\<rparr>)\<rparr>)"
  using assms
  by (auto simp: create_write_def pbind_def plift_def preturn_def pool_write_full_def
      pool_set_xattr_def pool_get_njobs_def dataset_init_def pool_has_dataset_def
      base_data_init_def get_shape_xattr_def get_text_xattr_def get_value_xattr_def
      pool_get_xattr_def split: option.splits)

text \<open>
  Claim C5.  \<^verbatim>\<open>Dataset.create\<close> fails with the already-exists failure if and only
  if the pool holds an object of the given name.  When \<^verbatim>\<open>pool.stat\<close> finds the
  object, the failure is raised and the pool is unchanged.  When \<^verbatim>\<open>pool.stat\<close> raises
  its not-found condition, the rest of the body runs and the not-found condition is not
  the result; with no source array and a valid chunk argument it returns the dataset and
  has written the dataset's object with the signature marker and its five attributes.
\<close>

theorem create_already_exists_iff:
  "(fst (create nm shp0 dt fv chnks data ro nj pool) = Inl (DatasetException ObjectAlreadyExists)
      \<longleftrightarrow> objects pool nm \<noteq> None) \<and>
   (objects pool nm \<noteq> None \<longrightarrow>
      create nm shp0 dt fv chnks data ro nj pool =
        (Inl (DatasetException ObjectAlreadyExists), pool)) \<and>
   (objects pool nm = None \<longrightarrow>
      create nm shp0 dt fv chnks data ro nj pool =
        create_write nm (case data of None \<Rightarrow> shp0 | Some d \<Rightarrow> Some (map int (arr_shape d)))
          dt fv chnks data ro nj pool \<and>
      fst (create nm shp0 dt fv chnks data ro nj pool) \<noteq> Inl ObjectNotFound) \<and>
   (objects pool nm = None \<and> data = None \<and> shp0 = Some s \<and>
    validate_chunk_shape chnks (Some s) = Inr csize \<longrightarrow>
      create nm shp0 dt fv chnks data ro nj pool =
        (Inr \<lparr>name = nm, shape = s, dtype = dt, fillvalue = fv,
              chunks = chunks_needed s csize, chunk_size = csize,
              njobs = (if nj = None \<or> nj = Some 0 then pool_njobs pool else nj),
              read_only = ro\<rparr>,
         pool\<lparr>objects := (objects pool)(nm \<mapsto>
            \<lparr>obj_payload = Text signature,
             obj_xattrs = [''shape'' \<mapsto> XShape s, ''dtype'' \<mapsto> XText dt,
                           ''fillvalue'' \<mapsto> XValue fv,
                           ''chunks'' \<mapsto> XShape (chunks_needed s csize),
                           ''chunk_size'' \<mapsto> XShape csize]\<rparr>)\<rparr>))"
proof -
  let ?shp = "case data of None \<Rightarrow> shp0 | Some d \<Rightarrow> Some (map int (arr_shape d))"
  have present: "create nm shp0 dt fv chnks data ro nj pool =
      (Inl (DatasetException ObjectAlreadyExists), pool)" if "objects pool nm \<noteq> None"
    using that by (cases "objects pool nm") (simp_all add: create_def pool_stat_def)
  have absent: "create nm shp0 dt fv chnks data ro nj pool =
      create_write nm ?shp dt fv chnks data ro nj pool" if "objects pool nm = None"
    using that by (simp add: create_def pool_stat_def)
  have no_ae: "fst (create_write nm ?shp dt fv chnks data ro nj pool) \<noteq>
      Inl (DatasetException ObjectAlreadyExists)"
    using create_write_local [of "DatasetException ObjectAlreadyExists" nm ?shp dt fv chnks data ro nj]
    by (simp add: never_def pool_failure_def)
  have no_nf: "fst (create_write nm ?shp dt fv chnks data ro nj pool) \<noteq> Inl ObjectNotFound"
    using create_write_local [of ObjectNotFound nm ?shp dt fv chnks data ro nj]
    by (simp add: never_def pool_failure_def)
  show ?thesis
  proof (cases "objects pool nm")
    case None
    have c1: "fst (create nm shp0 dt fv chnks data ro nj pool) =
        Inl (DatasetException ObjectAlreadyExists) \<longleftrightarrow> objects pool nm \<noteq> None"
      using None absent [OF None] no_ae by simp
    have c2: "objects pool nm \<noteq> None \<longrightarrow> create nm shp0 dt fv chnks data ro nj pool =
        (Inl (DatasetException ObjectAlreadyExists), pool)"
      using None by simp
    have c3: "objects pool nm = None \<longrightarrow>
        create nm shp0 dt fv chnks data ro nj pool =
          create_write nm ?shp dt fv chnks data ro nj pool \<and>
        fst (create nm shp0 dt fv chnks data ro nj pool) \<noteq> Inl ObjectNotFound"
      using absent [OF None] no_nf by simp
    have c4: "objects pool nm = None \<and> data = None \<and> shp0 = Some s \<and>
        validate_chunk_shape chnks (Some s) = Inr csize \<longrightarrow>
        create nm shp0 dt fv chnks data ro nj pool =
        (Inr \<lparr>name = nm, shape = s, dtype = dt, fillvalue = fv,
              chunks = chunks_needed s csize, chunk_size = csize,
              njobs = (if nj = None \<or> nj = Some 0 then pool_njobs pool else nj),
              read_only = ro\<rparr>,
         pool\<lparr>objects := (objects pool)(nm \<mapsto>
            \<lparr>obj_payload = Text signature,
             obj_xattrs = [''shape'' \<mapsto> XShape s, ''dtype'' \<mapsto> XText dt,
                           ''fillvalue'' \<mapsto> XValue fv,
                           ''chunks'' \<mapsto> XShape (chunks_needed s csize),
                           ''chunk_size'' \<mapsto> XShape csize]\<rparr>)\<rparr>)"
    proof (intro impI, elim conjE)
      assume d: "data = None" and s: "shp0 = Some s"
        and v: "validate_chunk_shape chnks (Some s) = Inr csize"
      have "create nm shp0 dt fv chnks data ro nj pool =
          create_write nm (Some s) dt fv chnks None ro nj pool"
        using absent [OF None] d s by simp
      then show "create nm shp0 dt fv chnks data ro nj pool =
        (Inr \<lparr>name = nm, shape = s, dtype = dt, fillvalue = fv,
              chunks = chunks_needed s csize, chunk_size = csize,
              njobs = (if nj = None \<or> nj = Some 0 then pool_njobs pool else nj),
              read_only = ro\<rparr>,
         pool\<lparr>objects := (objects pool)(nm \<mapsto>
            \<lparr>obj_payload = Text signature,
             obj_xattrs = [''shape'' \<mapsto> XShape s, ''dtype'' \<mapsto> XText dt,
                           ''fillvalue'' \<mapsto> XValue fv,
                           ''chunks'' \<mapsto> XShape (chunks_needed s csize),
                           ''chunk_size'' \<mapsto> XShape csize]\<rparr>)\<rparr>)"
        by (simp only: create_write_plain [OF None v])
    qed
    from c1 c2 c3 c4 show ?thesis by (intro conjI)
  next
    case (Some ob)
    then have ne: "objects pool nm \<noteq> None" by simp
    show ?thesis using Some present [OF ne] by simp
  qed
qed

theorem create_already_exists_iff_witness:
  "create ''d'' (Some [10, 4]) ''int64'' (- 1 :: int) (ChunksSeq [3, 2]) None False None
      \<lparr>pool_name = ''p'', pool_njobs = None,
       objects = [''d'' \<mapsto> \<lparr>obj_payload = Text ''x'', obj_xattrs = Map.empty\<rparr>]\<rparr>
     = (Inl (DatasetException ObjectAlreadyExists),
        \<lparr>pool_name = ''p'', pool_njobs = None,
         objects = [''d'' \<mapsto> \<lparr>obj_payload = Text ''x'', obj_xattrs = Map.empty\<rparr>]\<rparr>) \<and>
   fst (create ''d'' (Some [10, 4]) ''int64'' (- 1 :: int) (ChunksSeq [3, 2]) None False None
      \<lparr>pool_name = ''p'', pool_njobs = None, objects = Map.empty\<rparr>)
     = Inr \<lparr>name = ''d'', shape = [10, 4], dtype = ''int64'', fillvalue = - 1,
            chunks = [4, 2], chunk_size = [3, 2], njobs = None, read_only = False\<rparr>"
proof -
  let ?p1 = "\<lparr>pool_name = ''p'', pool_njobs = None,
       objects = [''d'' \<mapsto> \<lparr>obj_payload = Text ''x'',
                               obj_xattrs = (Map.empty :: string \<rightharpoonup> int xattr)\<rparr>]\<rparr>"
  let ?p0 = "\<lparr>pool_name = ''p'', pool_njobs = None,
       objects = (Map.empty :: string \<rightharpoonup> int pool_object)\<rparr>"
  have v: "validate_chunk_shape (ChunksSeq [3, 2]) (Some [10, 4]) = Inr [3, 2]"
    by (simp add: validate_chunk_shape_def)
  have c: "chunks_needed [10, 4] [3, 2] = [4, 2]"
    by code_simp
  from create_already_exists_iff [of "''d''" "Some [10, 4]" "''int64''" "- 1" "ChunksSeq [3, 2]"
      None False None ?p1 "[10, 4]" "[3, 2]"]
  have a: "create ''d'' (Some [10, 4]) ''int64'' (- 1 :: int) (ChunksSeq [3, 2]) None False None ?p1
      = (Inl (DatasetException ObjectAlreadyExists), ?p1)" by simp
  have h: "objects ?p0 ''d'' = None \<and> (None :: int ndarray option) = None \<and>
      Some [10, 4] = Some [10, 4] \<and>
      validate_chunk_shape (ChunksSeq [3, 2]) (Some [10, 4]) = Inr [3, 2]"
    using v by simp
  note t = create_already_exists_iff [of "''d''" "Some [10, 4]" "''int64''" "- 1"
      "ChunksSeq [3, 2]" None False None ?p0 "[10, 4]" "[3, 2]",
      THEN conjunct2, THEN conjunct2, THEN conjunct2, rule_format, OF h]
  from t c
  have b: "fst (create ''d'' (Some [10, 4]) ''int64'' (- 1 :: int) (ChunksSeq [3, 2]) None False
      None ?p0) = Inr \<lparr>name = ''d'', shape = [10, 4], dtype = ''int64'', fillvalue = - 1,
            chunks = [4, 2], chunk_size = [3, 2], njobs = None, read_only = False\<rparr>"
    by simp
  from a b show ?thesis by simp
qed

section \<open>The pool engine: reading a region\<close>

text \<open>
  \<^verbatim>\<open>np.squeeze(a, axis)\<close>.  The axes to remove are given as a tuple, and each must
  be an axis of the array with extent 1; a list is not accepted as \<^verbatim>\<open>axis\<close>, it is
  a \<^verbatim>\<open>TypeError\<close>.  (Releases of numpy that are older still caught this
  \<^verbatim>\<open>TypeError\<close> and removed every axis of extent 1.)
\<close>

datatype axis_arg = AxisTuple "nat list" | AxisList "nat list"

definition np_squeeze :: "'a ndarray \<Rightarrow> axis_arg \<Rightarrow> error + 'a ndarray" where
  "np_squeeze a axis =
     (case axis of
        AxisList axes \<Rightarrow> Inl TypeError
      | AxisTuple axes \<Rightarrow>
          if list_ex (\<lambda>ax. ax \<ge> length (arr_shape a) \<or> arr_shape a ! ax \<noteq> 1) axes
          then Inl ValueError
          else Inr (NDArray (map snd (filter (\<lambda>(k, n). k \<notin> set axes)
                                        (enumerate 0 (arr_shape a))))
                      (arr_data a)))"

text \<open>
  \<^verbatim>\<open>np.memmap(filename, dtype, shape, mode='w+')\<close> on a fresh temporary file, as
  \<^verbatim>\<open>_make_temporary_memmap\<close> makes it: an array of zeros.  A shape with an extent
  0 has no cell, and an empty file cannot be mapped: a \<^verbatim>\<open>ValueError\<close>.  (The
  sources never ask for a negative extent; it is a failure here as well.)
\<close>

definition np_memmap_new :: "int list \<Rightarrow> error + ('a :: zero) ndarray" where
  "np_memmap_new shp = (if list_ex (\<lambda>n. n \<le> 0) shp then Inl ValueError else np_full shp 0)"

text \<open>
  \<^verbatim>\<open>Parallel(n_jobs=njobs, backend="threading")\<close> of joblib refuses the width 0 with
  a \<^verbatim>\<open>ValueError\<close> when it is called.
\<close>

definition parallel_width :: "int option \<Rightarrow> error + unit" where
  "parallel_width nj = (if nj = Some 0 then Inl ValueError else Inr ())"

text \<open>
  The work on the touched chunks, in a given order: for each record,
  \<^verbatim>\<open>output[gslice] = self._get_chunk_data(idx, slices=cslice)\<close>.  This is the body of
  the sequential loop and the task \<^verbatim>\<open>_get_chunk_data_parallel\<close>; a failure ends the
  whole operation.
\<close>

fun chunk_tasks :: "'a dataset \<Rightarrow> chunk_record list \<Rightarrow> 'a ndarray \<Rightarrow> ('a, 'a ndarray) pool_op" where
  "chunk_tasks ds [] output = preturn output"
| "chunk_tasks ds ((idx, cslice, gslice) # rest) output =
     pbind (get_chunk_data_p ds idx (Some cslice))
       (\<lambda>d. pbind (plift (np_setitem output (to_np gslice) d))
          (\<lambda>output'. chunk_tasks ds rest output'))"

text \<open>
  The end of \<^verbatim>\<open>Dataset.__getitem__\<close>: \<^verbatim>\<open>squeeze_axis\<close> is a list, and it is
  handed to \<^verbatim>\<open>np.squeeze\<close> as it is.
\<close>

definition squeeze_output :: "'a ndarray \<Rightarrow> nat list \<Rightarrow> error + 'a ndarray" where
  "squeeze_output output squeeze_axis =
     (if length squeeze_axis > 0 then np_squeeze output (AxisList squeeze_axis)
      else Inr output)"

text \<open>
  \<^verbatim>\<open>Dataset.__getitem__\<close>, the branch for \<^verbatim>\<open>njobs\<close> \<^verbatim>\<open>None\<close> or 1: the output
  starts as \<^verbatim>\<open>np.full(tshape, -1, dtype)\<close> and the records are worked on in the order
  of the iterator.
\<close>

definition getitem_sequential ::
  "('a :: {zero, one, uminus}) dataset \<Rightarrow> index \<Rightarrow> ('a, 'a ndarray) pool_op" where
  "getitem_sequential ds slices =
     pbind (plift (process_slices_squeeze ds slices)) (\<lambda>(sl, squeeze_axis).
     pbind (plift (get_chunk_slice_iterator ds sl)) (\<lambda>recs.
     pbind (plift (np_full (map (\<lambda>x. bstop x - bstart x) sl) (- 1))) (\<lambda>output.
     pbind (chunk_tasks ds recs output) (\<lambda>output'.
     plift (squeeze_output output' squeeze_axis)))))"

text \<open>
  The other branch: the output is staged in a memory-mapped array, and one task per
  record is handed to a pool of \<^verbatim>\<open>njobs\<close> threads.  Each task reads the pool and
  writes its own region of the staged output, so the threads are modelled by the order
  in which the tasks take effect: \<open>sched n\<close> lists the positions of \<open>n\<close> tasks in
  that order.
\<close>

definition getitem_parallel ::
  "(nat \<Rightarrow> nat list) \<Rightarrow> ('a :: {zero, one, uminus}) dataset \<Rightarrow> index \<Rightarrow> ('a, 'a ndarray) pool_op"
where
  "getitem_parallel sched ds slices =
     pbind (plift (process_slices_squeeze ds slices)) (\<lambda>(sl, squeeze_axis).
     pbind (plift (get_chunk_slice_iterator ds sl)) (\<lambda>recs.
     pbind (plift (np_memmap_new (map (\<lambda>x. bstop x - bstart x) sl))) (\<lambda>output.
     pbind (plift (parallel_width (njobs ds))) (\<lambda>_.
     pbind (chunk_tasks ds (map (\<lambda>j. recs ! j) (sched (length recs))) output) (\<lambda>output'.
     plift (squeeze_output output' squeeze_axis))))))"

definition getitem ::
  "(nat \<Rightarrow> nat list) \<Rightarrow> ('a :: {zero, one, uminus}) dataset \<Rightarrow> index \<Rightarrow> ('a, 'a ndarray) pool_op"
where
  "getitem sched ds slices =
     (if njobs ds = None \<or> njobs ds = Some 1 then getitem_sequential ds slices
      else getitem_parallel sched ds slices)"

text \<open>An order of \<open>n\<close> tasks in which every task takes effect exactly once.\<close>

definition schedule_ok :: "nat \<Rightarrow> nat list \<Rightarrow> bool" where
  "schedule_ok n order \<longleftrightarrow> distinct order \<and> set order = set [0..<n]"

subsection \<open>Order of the tasks\<close>

text \<open>
  What one task does to the staged output, once the pool is fixed: it fails, or it
  overwrites the points of a region with values that depend on the record and the pool
  alone.  A patch is that region, as a predicate on index tuples, with the values.
\<close>

type_synonym 'a patch = "(nat list \<Rightarrow> bool) \<times> (nat list \<Rightarrow> 'a)"

text \<open>The region of the output that the global slices of a record select.\<close>

definition gregion :: "nat list \<Rightarrow> bslice list \<Rightarrow> (nat \<times> nat) list" where
  "gregion T gslice = region_of T (map (\<lambda>s. NpSl (Some (bstart s)) (Some (bstop s))) gslice)"

text \<open>
  The patch of a record for an output of shape \<open>T\<close>: the data of
  \<^verbatim>\<open>_get_chunk_data(idx, slices=cslice)\<close>, broadcast to the region of
  \<^verbatim>\<open>gslice\<close>.
\<close>

definition task_patch :: "'a dataset \<Rightarrow> 'a pool \<Rightarrow> nat list \<Rightarrow> chunk_record \<Rightarrow> error + 'a patch" where
  "task_patch ds pool T r =
     (case r of (idx, cslice, gslice) \<Rightarrow>
        (case fst (get_chunk_data_p ds idx (Some cslice) pool) of
           Inl e \<Rightarrow> Inl e
         | Inr d \<Rightarrow>
             if length gslice > length T then Inl IndexError
             else (case broadcast_to d (map snd (gregion T gslice)) of
                     Inl e \<Rightarrow> Inl e
                   | Inr f \<Rightarrow>
                       Inr (in_region (gregion T gslice),
                            \<lambda>p. f (map (\<lambda>((lo, ext), i). i - lo) (zip (gregion T gslice) p))))))"

definition apply_patch :: "'a patch \<Rightarrow> (nat list \<Rightarrow> 'a) \<Rightarrow> nat list \<Rightarrow> 'a" where
  "apply_patch P g p = (if fst P p then snd P p else g p)"

text \<open>Reading a chunk leaves the pool as it was.\<close>

lemma get_chunk_data_p_pool: "snd (get_chunk_data_p ds idx sl pool) = pool"
  by (auto simp: get_chunk_data_p_def has_chunk_p_def pool_has_chunk_def pbind_def plift_def
      get_existing_chunk_data_p_def get_existing_chunk_p_def data_chunk_init_def base_data_init_def
      get_shape_xattr_def get_text_xattr_def pool_get_xattr_def preturn_def praise_def
      chunk_get_data_def chunk_get_slices_def pool_read_def
      split: option.splits sum.splits prod.splits xattr.splits if_splits)

lemma one_task:
  assumes "arr_shape out = T"
  shows "pbind (get_chunk_data_p ds idx (Some cs))
           (\<lambda>d. pbind (plift (np_setitem out (to_np gs) d)) k) pool =
         (case task_patch ds pool T (idx, cs, gs) of
            Inl e \<Rightarrow> (Inl e, pool)
          | Inr P \<Rightarrow> k (np_tabulate T (\<lambda>p. if fst P p then snd P p else np_at out p)) pool)"
proof -
  obtain x where x: "get_chunk_data_p ds idx (Some cs) pool = (x, pool)"
    using get_chunk_data_p_pool [of ds idx "Some cs" pool]
    by (cases "get_chunk_data_p ds idx (Some cs) pool") simp
  show ?thesis
    using assms x
    by (simp add: pbind_def plift_def task_patch_def np_setitem_def to_np_def gregion_def Let_def
        split: sum.splits cong: if_cong)
qed

lemma task_patch_region:
  "task_patch ds pool T (idx, cs, gs) = Inr P \<Longrightarrow> fst P = in_region (gregion T gs)"
  by (auto simp: task_patch_def split: sum.splits if_splits)

lemma tabulate_patch:
  "np_tabulate T (\<lambda>p. if fst P p then snd P p else np_at (np_tabulate T g) p) =
   np_tabulate T (apply_patch P g)"
  by (rule np_tabulate_cong) (simp add: apply_patch_def np_at_tabulate)

lemma chunk_tasks_ok:
  assumes "\<forall>r\<in>set recs. \<exists>P. task_patch ds pool T r = Inr P"
  shows "chunk_tasks ds recs (np_tabulate T g) pool =
     (Inr (np_tabulate T (fold apply_patch (map (\<lambda>r. projr (task_patch ds pool T r)) recs) g)), pool)"
  using assms
proof (induction recs arbitrary: g)
  case Nil
  show ?case by (simp add: preturn_def)
next
  case (Cons r recs)
  obtain idx cs gs where r: "r = (idx, cs, gs)" by (cases r)
  from Cons.prems obtain P where P: "task_patch ds pool T (idx, cs, gs) = Inr P"
    using r by auto
  have shp: "arr_shape (np_tabulate T g) = T" by (simp add: np_tabulate_def)
  have rest: "\<forall>r\<in>set recs. \<exists>P. task_patch ds pool T r = Inr P" using Cons.prems by simp
  show ?case
    using Cons.IH [OF rest, of "apply_patch P g"]
    by (simp add: r one_task [OF shp] P tabulate_patch)
qed

lemma chunk_tasks_fail:
  assumes "arr_shape out = T" and "\<exists>r\<in>set recs. \<exists>e. task_patch ds pool T r = Inl e"
  shows "\<exists>e. chunk_tasks ds recs out pool = (Inl e, pool)"
  using assms
proof (induction recs arbitrary: out)
  case Nil
  then show ?case by simp
next
  case (Cons r recs)
  obtain idx cs gs where r: "r = (idx, cs, gs)" by (cases r)
  show ?case
  proof (cases "task_patch ds pool T (idx, cs, gs)")
    case (Inl e)
    then show ?thesis by (simp add: r one_task [OF Cons.prems(1)])
  next
    case (Inr P)
    then have "\<exists>r\<in>set recs. \<exists>e. task_patch ds pool T r = Inl e"
      using Cons.prems(2) r by auto
    from Cons.IH [OF _ this, of "np_tabulate T (\<lambda>p. if fst P p then snd P p else np_at out p)"]
    show ?thesis by (simp add: r one_task [OF Cons.prems(1)] Inr np_tabulate_def)
  qed
qed

text \<open>
  A point that lies in the region of exactly one patch ends with the value of that patch,
  in whatever order the patches are applied and whatever the array held before.
\<close>

lemma fold_patch_unique:
  assumes "j < length Ps" "fst (Ps ! j) p" "\<forall>i<length Ps. i \<noteq> j \<longrightarrow> \<not> fst (Ps ! i) p"
  shows "fold apply_patch Ps g p = snd (Ps ! j) p"
  using assms
proof (induction Ps arbitrary: j rule: rev_induct)
  case Nil
  then show ?case by simp
next
  case (snoc P Ps)
  show ?case
  proof (cases "j = length Ps")
    case True
    have "fold apply_patch (Ps @ [P]) g p = apply_patch P (fold apply_patch Ps g) p" by simp
    also have "\<dots> = snd P p" using snoc.prems(2) True by (simp only: apply_patch_def nth_append_length if_True)
    finally show ?thesis using True by simp
  next
    case False
    then have j: "j < length Ps" using snoc.prems(1) by simp
    have last: "\<not> fst P p" using snoc.prems(3) False by (auto dest: spec [of _ "length Ps"])
    have "fst (Ps ! j) p" using snoc.prems(2) j by (simp add: nth_append)
    moreover have "\<forall>i<length Ps. i \<noteq> j \<longrightarrow> \<not> fst (Ps ! i) p"
    proof (intro allI impI)
      fix i assume i: "i < length Ps" "i \<noteq> j"
      with snoc.prems(3) have "\<not> fst ((Ps @ [P]) ! i) p" by simp
      then show "\<not> fst (Ps ! i) p" using i by (simp add: nth_append)
    qed
    ultimately have ih: "fold apply_patch Ps g p = snd (Ps ! j) p" using snoc.IH [OF j] by simp
    have "fold apply_patch (Ps @ [P]) g p = apply_patch P (fold apply_patch Ps g) p" by simp
    also have "\<dots> = fold apply_patch Ps g p" using last by (simp only: apply_patch_def if_False)
    finally show ?thesis using ih j by (simp add: nth_append)
  qed
qed

lemma fold_patch_permuted:
  assumes u: "j < length Ps" "fst (Ps ! j) p" "\<forall>i<length Ps. i \<noteq> j \<longrightarrow> \<not> fst (Ps ! i) p"
    and s: "distinct sg" "set sg = {..<length Ps}"
  shows "fold apply_patch (map (\<lambda>k. Ps ! k) sg) g' p = fold apply_patch Ps g p"
proof -
  from u(1) s(2) obtain k where k: "k < length sg" "sg ! k = j"
    by (auto simp: in_set_conv_nth set_eq_iff)
  have other: "\<forall>i<length (map (\<lambda>k. Ps ! k) sg). i \<noteq> k \<longrightarrow> \<not> fst (map (\<lambda>k. Ps ! k) sg ! i) p"
  proof (intro allI impI)
    fix i assume i: "i < length (map (\<lambda>k. Ps ! k) sg)" "i \<noteq> k"
    then have "sg ! i \<noteq> j" using nth_eq_iff_index_eq [OF s(1), of i k] k by simp
    moreover have "sg ! i < length Ps" using i(1) s(2) nth_mem [of i sg] by auto
    ultimately show "\<not> fst (map (\<lambda>k. Ps ! k) sg ! i) p" using u(3) i(1) by simp
  qed
  have "fold apply_patch (map (\<lambda>k. Ps ! k) sg) g' p = snd (map (\<lambda>k. Ps ! k) sg ! k) p"
    by (rule fold_patch_unique [OF _ _ other]) (use k u(2) in simp_all)
  also have "\<dots> = snd (Ps ! j) p" using k by simp
  also have "\<dots> = fold apply_patch Ps g p" using fold_patch_unique [OF u] by simp
  finally show ?thesis .
qed

text \<open>
  For slices with non-negative bounds numpy clips nothing that matters: inside the array,
  the region of the slices is their box.
\<close>

lemma slice_range_nonneg:
  assumes "0 \<le> a" "0 \<le> b" "i < n" "slice_range n (NpSl (Some a) (Some b)) = (lo, ext)"
  shows "lo \<le> i \<and> i < lo + ext \<longleftrightarrow> a \<le> int i \<and> int i < b"
  using assms by (auto simp: slice_range_def clip_bound_def Let_def)

lemma in_region_box:
  assumes "length gs = length T" "length T = length p"
    and "list_all (\<lambda>g. 0 \<le> bstart g \<and> 0 \<le> bstop g) gs" "list_all2 (<) p T"
  shows "in_region (gregion T gs) p \<longleftrightarrow> in_box gs (map int p)"
  using assms
proof (induction gs T p rule: list_induct3)
  case Nil
  show ?case by (simp add: in_region_def gregion_def in_box_def)
next
  case (Cons g gs n T i p)
  obtain lo ext where sr: "slice_range n (NpSl (Some (bstart g)) (Some (bstop g))) = (lo, ext)"
    by (cases "slice_range n (NpSl (Some (bstart g)) (Some (bstop g)))")
  have rest: "in_region (gregion T gs) p \<longleftrightarrow> in_box gs (map int p)"
    using Cons by simp
  have "lo \<le> i \<and> i < lo + ext \<longleftrightarrow> bstart g \<le> int i \<and> int i < bstop g"
    using Cons.prems sr by (intro slice_range_nonneg [of _ _ _ n]) simp_all
  then show ?case
    using rest by (simp add: in_region_def gregion_def in_box_def sr)
qed

lemma valid_point_region:
  "list_all2 (<) p (map nat (map (\<lambda>x. bstop x - bstart x) sl)) \<longleftrightarrow>
   in_box (target_region sl) (map int p)"
proof (induction sl arbitrary: p)
  case Nil
  show ?case by (simp add: in_box_def target_region_def)
next
  case (Cons s sl)
  show ?case
  proof (cases p)
    case Nil
    then show ?thesis by (simp add: in_box_def target_region_def)
  next
    case (Cons i p')
    then show ?thesis
      using Cons.IH [of p'] by (simp add: in_box_def target_region_def zless_nat_eq_int_zless)
  qed
qed

lemma np_full_tabulate:
  "\<not> list_ex (\<lambda>n. n < 0) shp \<Longrightarrow> np_full shp v = Inr (np_tabulate (map nat shp) (\<lambda>_. v))"
  by (simp add: np_full_def np_tabulate_def length_ndindex map_replicate_const)

lemma tasks_order_independent:
  assumes cover: "\<forall>p. in_box (target_region sl) p \<longrightarrow>
                    (\<exists>!j. j < length recs \<and> in_box (snd (snd (recs ! j))) p)"
    and shp: "\<forall>r\<in>set recs. length (snd (snd r)) = length sl \<and>
                list_all (\<lambda>g. 0 \<le> bstart g \<and> 0 \<le> bstop g) (snd (snd r))"
    and s: "schedule_ok (length recs) sg"
    and T: "T = map nat (map (\<lambda>x. bstop x - bstart x) sl)"
  shows "fst (chunk_tasks ds (map (\<lambda>j. recs ! j) sg) (np_tabulate T g') pool) = Inr a \<longleftrightarrow>
         fst (chunk_tasks ds recs (np_tabulate T g) pool) = Inr a"
proof -
  let ?recs' = "map (\<lambda>j. recs ! j) sg"
  have sd: "distinct sg" and ss: "set sg = {..<length recs}"
    using s by (auto simp: schedule_ok_def)
  have "(!) recs ` {0..<length recs} = set recs"
    using nth_image [of "length recs" recs] by simp
  then have set_eq: "set ?recs' = set recs"
    using ss by (simp add: atLeast0LessThan)
  show ?thesis
  proof (cases "\<forall>r\<in>set recs. \<exists>P. task_patch ds pool T r = Inr P")
    case False
    then have f: "\<exists>r\<in>set recs. \<exists>e. task_patch ds pool T r = Inl e"
      by (metis sum.exhaust)
    then have f': "\<exists>r\<in>set ?recs'. \<exists>e. task_patch ds pool T r = Inl e"
      using set_eq by simp
    have shape: "arr_shape (np_tabulate T h) = T" for h :: "nat list \<Rightarrow> 'a"
      by (simp add: np_tabulate_def)
    from chunk_tasks_fail [OF shape f, of g] chunk_tasks_fail [OF shape f', of g']
    show ?thesis by auto
  next
    case True
    then have True': "\<forall>r\<in>set ?recs'. \<exists>P. task_patch ds pool T r = Inr P"
      using set_eq by simp
    define Ps where "Ps = map (\<lambda>r. projr (task_patch ds pool T r)) recs"
    have lenPs: "length Ps = length recs" by (simp add: Ps_def)
    have Ps': "map (\<lambda>r. projr (task_patch ds pool T r)) ?recs' = map (\<lambda>k. Ps ! k) sg"
      using ss by (auto simp: Ps_def)
    have hit: "fst (Ps ! i) p \<longleftrightarrow> in_box (snd (snd (recs ! i))) (map int p)"
      if i: "i < length recs" and p: "list_all2 (<) p T" for i p
    proof -
      obtain idx cs gs where r: "recs ! i = (idx, cs, gs)" by (cases "recs ! i")
      have mem: "recs ! i \<in> set recs" using i by simp
      with True obtain P where P: "task_patch ds pool T (idx, cs, gs) = Inr P"
        using r by metis
      have "fst (Ps ! i) = in_region (gregion T gs)"
        using task_patch_region [OF P] i P by (simp add: Ps_def r)
      moreover have "length gs = length T" "list_all (\<lambda>g. 0 \<le> bstart g \<and> 0 \<le> bstop g) gs"
        using shp mem r T by auto
      moreover have "length T = length p" using p by (simp add: list_all2_lengthD)
      ultimately show ?thesis using in_region_box [of gs T p] p r by simp
    qed
    have "np_tabulate T (fold apply_patch (map (\<lambda>k. Ps ! k) sg) g') =
          np_tabulate T (fold apply_patch Ps g)"
    proof (rule np_tabulate_cong)
      fix p assume p: "list_all2 (<) p T"
      then have "in_box (target_region sl) (map int p)"
        unfolding T by (simp only: valid_point_region)
      with cover obtain j where j: "j < length recs" "in_box (snd (snd (recs ! j))) (map int p)"
        and uniq: "\<And>i. i < length recs \<Longrightarrow> in_box (snd (snd (recs ! i))) (map int p) \<Longrightarrow> i = j"
        by blast
      have "fold apply_patch (map (\<lambda>k. Ps ! k) sg) g' p = fold apply_patch Ps g p"
      proof (rule fold_patch_permuted [of j])
        show "j < length Ps" using j lenPs by simp
        show "fst (Ps ! j) p" using hit [OF j(1) p] j(2) by simp
        show "\<forall>i<length Ps. i \<noteq> j \<longrightarrow> \<not> fst (Ps ! i) p"
        proof (intro allI impI)
          fix i assume i: "i < length Ps" "i \<noteq> j"
          then have il: "i < length recs" using lenPs by simp
          with uniq i(2) have "\<not> in_box (snd (snd (recs ! i))) (map int p)" by blast
          then show "\<not> fst (Ps ! i) p" using hit [OF il p] by simp
        qed
        show "distinct sg" by (rule sd)
        show "set sg = {..<length Ps}" using ss lenPs by simp
      qed
      then show "fold apply_patch (map (\<lambda>k. Ps ! k) sg) g' p = fold apply_patch Ps g p" .
    qed
    moreover have "chunk_tasks ds ?recs' (np_tabulate T g') pool =
        (Inr (np_tabulate T (fold apply_patch (map (\<lambda>k. Ps ! k) sg) g')), pool)"
      using chunk_tasks_ok [OF True', of g'] unfolding Ps' .
    moreover have "chunk_tasks ds recs (np_tabulate T g) pool =
        (Inr (np_tabulate T (fold apply_patch Ps g)), pool)"
      using chunk_tasks_ok [OF True, of g] unfolding Ps_def .
    ultimately show ?thesis by simp
  qed
qed

lemma fst_pbind_plift:
  "fst (pbind m (\<lambda>a. plift (h a)) pool) = (case fst (m pool) of Inl e \<Rightarrow> Inl e | Inr a \<Rightarrow> h a)"
  by (simp add: pbind_def plift_def split: prod.splits sum.splits)

lemma in_bounds_extents:
  assumes "in_bounds shp sl"
  shows "\<not> list_ex (\<lambda>n. n < 0) (map (\<lambda>x. bstop x - bstart x) sl)"
proof -
  have "bstart (sl ! i) \<le> bstop (sl ! i)" if "i < length sl" for i
    using assms that by (auto simp: in_bounds_def list_all2_conv_all_nth)
  then show ?thesis by (fastforce simp: list_ex_iff in_set_conv_nth)
qed

lemma nonempty_extents:
  "list_all (\<lambda>s. bstart s < bstop s) sl \<Longrightarrow>
     \<not> list_ex (\<lambda>n. n \<le> 0) (map (\<lambda>x. bstop x - bstart x) sl)"
  by (induction sl) auto

lemma getitem_paths_agree:
  assumes geo: "geometry_ok ds" and inb: "in_bounds (shape ds) sl"
    and ps: "process_slices_squeeze ds slices = Inr (sl, sq)"
    and sched: "\<And>n. schedule_ok n (sched n)"
    and cells: "list_all (\<lambda>s. bstart s < bstop s) sl"
    and width: "njobs ds \<noteq> Some 0"
  shows "fst (getitem_parallel sched ds slices pool) = Inr r \<longleftrightarrow>
         fst (getitem_sequential ds slices pool) = Inr r"
proof -
  from chunk_records_facts [OF geo inb] obtain recs
    where it: "get_chunk_slice_iterator ds sl = Inr recs"
      and cover: "\<forall>p. in_box (target_region sl) p \<longrightarrow>
                    (\<exists>!j. j < length recs \<and> in_box (snd (snd (recs ! j))) p)"
      and shp: "\<forall>r\<in>set recs. length (snd (snd r)) = length sl \<and>
                list_all (\<lambda>g. 0 \<le> bstart g \<and> 0 \<le> bstop g) (snd (snd r))"
    by blast
  define T where "T = map nat (map (\<lambda>x. bstop x - bstart x) sl)"
  note ext = in_bounds_extents [OF inb]
  have seq: "fst (getitem_sequential ds slices pool) =
      (case fst (chunk_tasks ds recs (np_tabulate T (\<lambda>_. - 1)) pool) of
         Inl e \<Rightarrow> Inl e | Inr a \<Rightarrow> squeeze_output a sq)"
    by (simp add: getitem_sequential_def ps it np_full_tabulate [OF ext] fst_pbind_plift T_def)
  have par: "fst (getitem_parallel sched ds slices pool) =
      (case fst (chunk_tasks ds (map (\<lambda>j. recs ! j) (sched (length recs)))
                   (np_tabulate T (\<lambda>_. 0)) pool) of
         Inl e \<Rightarrow> Inl e | Inr a \<Rightarrow> squeeze_output a sq)"
    using width
    by (simp add: getitem_parallel_def ps it np_memmap_new_def nonempty_extents [OF cells]
        parallel_width_def np_full_tabulate [OF ext] fst_pbind_plift T_def)
  note agree = tasks_order_independent [OF cover shp sched T_def, of ds "\<lambda>_. 0" pool _ "\<lambda>_. - 1"]
  show ?thesis
  proof (cases "fst (chunk_tasks ds recs (np_tabulate T (\<lambda>_. - 1)) pool)")
    case (Inr a)
    then have "fst (chunk_tasks ds (map (\<lambda>j. recs ! j) (sched (length recs)))
                   (np_tabulate T (\<lambda>_. 0)) pool) = Inr a"
      using agree [of a] by simp
    then show ?thesis using Inr by (simp add: seq par)
  next
    case (Inl e)
    have "\<exists>e'. fst (chunk_tasks ds (map (\<lambda>j. recs ! j) (sched (length recs)))
                   (np_tabulate T (\<lambda>_. 0)) pool) = Inl e'"
    proof (cases "fst (chunk_tasks ds (map (\<lambda>j. recs ! j) (sched (length recs)))
                   (np_tabulate T (\<lambda>_. 0)) pool)")
      case (Inr a)
      then show ?thesis using agree [of a] Inl by simp
    qed simp
    then show ?thesis using Inl by (auto simp: seq par)
  qed
qed

text \<open>Nothing but the choice of the branch reads the parallelism width.\<close>

lemma get_chunk_data_p_njobs:
  "get_chunk_data_p (ds\<lparr>njobs := w\<rparr>) idx sl = get_chunk_data_p ds idx sl"
  by (simp add: get_chunk_data_p_def has_chunk_p_def get_existing_chunk_data_p_def
      get_existing_chunk_p_def chunkname_def cong: if_cong option.case_cong)

lemma chunk_tasks_njobs:
  "chunk_tasks (ds\<lparr>njobs := w\<rparr>) recs = chunk_tasks ds recs"
proof (induction recs)
  case Nil
  show ?case by (rule ext) simp
next
  case (Cons r recs)
  obtain idx cs gs where r: "r = (idx, cs, gs)" by (cases r)
  show ?case by (rule ext) (simp add: r get_chunk_data_p_njobs Cons)
qed

lemma process_slices_squeeze_njobs:
  "process_slices_squeeze (ds\<lparr>njobs := w\<rparr>) slices = process_slices_squeeze ds slices"
  by (simp add: process_slices_squeeze_def ndim_def cong: sum.case_cong)

lemma get_chunk_slice_iterator_njobs:
  "get_chunk_slice_iterator (ds\<lparr>njobs := w\<rparr>) sl = get_chunk_slice_iterator ds sl"
  by (simp add: get_chunk_slice_iterator_def)

lemma getitem_sequential_njobs:
  "getitem_sequential (ds\<lparr>njobs := w\<rparr>) slices = getitem_sequential ds slices"
  by (simp add: getitem_sequential_def process_slices_squeeze_njobs
      get_chunk_slice_iterator_njobs chunk_tasks_njobs)

lemma getitem_width_one:
  "getitem sched (ds\<lparr>njobs := Some 1\<rparr>) slices = getitem_sequential ds slices"
  by (simp add: getitem_def getitem_sequential_njobs)

text \<open>
  Take a dataset whose chunk grid is the ceiling of shape over positive chunk extents, any
  state of the pool (so also every state that \<^verbatim>\<open>load\<close> leaves), and an index that
  normalizes to an in-bounds region with at least one cell.  Reading it with parallelism
  width 1 and with a width \<open>w > 1\<close> gives the same outcome: for every order in which the
  per-chunk tasks of the parallel branch take effect, one read returns the array \<open>r\<close>
  exactly when the other returns \<open>r\<close>, and so one fails exactly when the other fails.
\<close>

lemma getitem_parallel_sequential_nonempty:
  assumes "geometry_ok ds" and "in_bounds (shape ds) sl"
    and "process_slices_squeeze ds slices = Inr (sl, sq)"
    and "\<And>n. schedule_ok n (sched n)"
    and "list_all (\<lambda>s. bstart s < bstop s) sl"
    and "1 < w"
  shows "fst (getitem sched (ds\<lparr>njobs := Some w\<rparr>) slices pool) = Inr r \<longleftrightarrow>
         fst (getitem sched (ds\<lparr>njobs := Some 1\<rparr>) slices pool) = Inr r"
proof -
  let ?dw = "ds\<lparr>njobs := Some w\<rparr>"
  have g: "geometry_ok ?dw" using assms(1) by (simp add: geometry_ok_def)
  have b: "in_bounds (shape ?dw) sl" using assms(2) by simp
  have p: "process_slices_squeeze ?dw slices = Inr (sl, sq)"
    using assms(3) by (simp add: process_slices_squeeze_njobs)
  have n: "njobs ?dw \<noteq> Some 0" using assms(6) by simp
  have "fst (getitem sched ?dw slices pool) = Inr r \<longleftrightarrow>
        fst (getitem_sequential ?dw slices pool) = Inr r"
    using getitem_paths_agree [OF g b p assms(4,5) n] assms(6) by (simp add: getitem_def)
  also have "getitem_sequential ?dw slices = getitem_sequential ds slices"
    by (rule getitem_sequential_njobs)
  also have "getitem_sequential ds slices = getitem sched (ds\<lparr>njobs := Some 1\<rparr>) slices"
    by (simp add: getitem_def getitem_sequential_njobs)
  finally show ?thesis .
qed

text \<open>
  An instance: the dataset and the pool that \<^verbatim>\<open>Dataset.create\<close> leaves after loading
  the array \<open>[10, 11, 12, 13]\<close> in chunks of 2, read at \<open>1:4\<close> with the widths 1 and 4.
\<close>

lemma getitem_parallel_sequential_example:
  "create ''d'' None ''int64'' (7 :: int) (ChunksSeq [2]) (Some (NDArray [4] [10, 11, 12, 13]))
      False None \<lparr>pool_name = ''p'', pool_njobs = None, objects = Map.empty\<rparr>
     = (Inr \<lparr>name = ''d'', shape = [4], dtype = ''int64'', fillvalue = 7,
              chunks = [2], chunk_size = [2], njobs = None, read_only = False\<rparr>,
        \<lparr>pool_name = ''p'', pool_njobs = None,
         objects = [''d'' \<mapsto>
            \<lparr>obj_payload = Text signature,
             obj_xattrs = [''shape'' \<mapsto> XShape [4], ''dtype'' \<mapsto> XText ''int64'',
                           ''fillvalue'' \<mapsto> XValue 7, ''chunks'' \<mapsto> XShape [2],
                           ''chunk_size'' \<mapsto> XShape [2]]\<rparr>,
            ''DataChunk.d.0'' \<mapsto>
            \<lparr>obj_payload = Elements [10, 11],
             obj_xattrs = [''shape'' \<mapsto> XShape [2], ''dtype'' \<mapsto> XText ''int64'']\<rparr>,
            ''DataChunk.d.1'' \<mapsto>
            \<lparr>obj_payload = Elements [12, 13],
             obj_xattrs = [''shape'' \<mapsto> XShape [2], ''dtype'' \<mapsto> XText ''int64'']\<rparr>]\<rparr>) \<and>
   geometry_ok \<lparr>name = ''d'', shape = [4], dtype = ''int64'', fillvalue = 7 :: int,
              chunks = [2], chunk_size = [2], njobs = None, read_only = False\<rparr> \<and>
   in_bounds [4] [Sl 1 4] \<and>
   process_slices_squeeze \<lparr>name = ''d'', shape = [4], dtype = ''int64'', fillvalue = 7 :: int,
              chunks = [2], chunk_size = [2], njobs = None, read_only = False\<rparr>
      (Single (ESlice (Slice (Some 1) (Some 4) None))) = Inr ([Sl 1 4], []) \<and>
   (\<forall>n. schedule_ok n (rev [0..<n])) \<and>
   fst (getitem (\<lambda>n. rev [0..<n])
          (\<lparr>name = ''d'', shape = [4], dtype = ''int64'', fillvalue = 7 :: int,
              chunks = [2], chunk_size = [2], njobs = None, read_only = False\<rparr>\<lparr>njobs := Some 1\<rparr>)
          (Single (ESlice (Slice (Some 1) (Some 4) None)))
          \<lparr>pool_name = ''p'', pool_njobs = None,
           objects = [''d'' \<mapsto>
            \<lparr>obj_payload = Text signature,
             obj_xattrs = [''shape'' \<mapsto> XShape [4], ''dtype'' \<mapsto> XText ''int64'',
                           ''fillvalue'' \<mapsto> XValue 7, ''chunks'' \<mapsto> XShape [2],
                           ''chunk_size'' \<mapsto> XShape [2]]\<rparr>,
            ''DataChunk.d.0'' \<mapsto>
            \<lparr>obj_payload = Elements [10, 11],
             obj_xattrs = [''shape'' \<mapsto> XShape [2], ''dtype'' \<mapsto> XText ''int64'']\<rparr>,
            ''DataChunk.d.1'' \<mapsto>
            \<lparr>obj_payload = Elements [12, 13],
             obj_xattrs = [''shape'' \<mapsto> XShape [2], ''dtype'' \<mapsto> XText ''int64'']\<rparr>]\<rparr>)
     = Inr (NDArray [3] [11, 12, 13]) \<and>
   fst (getitem (\<lambda>n. rev [0..<n])
          (\<lparr>name = ''d'', shape = [4], dtype = ''int64'', fillvalue = 7 :: int,
              chunks = [2], chunk_size = [2], njobs = None, read_only = False\<rparr>\<lparr>njobs := Some 4\<rparr>)
          (Single (ESlice (Slice (Some 1) (Some 4) None)))
          \<lparr>pool_name = ''p'', pool_njobs = None,
           objects = [''d'' \<mapsto>
            \<lparr>obj_payload = Text signature,
             obj_xattrs = [''shape'' \<mapsto> XShape [4], ''dtype'' \<mapsto> XText ''int64'',
                           ''fillvalue'' \<mapsto> XValue 7, ''chunks'' \<mapsto> XShape [2],
                           ''chunk_size'' \<mapsto> XShape [2]]\<rparr>,
            ''DataChunk.d.0'' \<mapsto>
            \<lparr>obj_payload = Elements [10, 11],
             obj_xattrs = [''shape'' \<mapsto> XShape [2], ''dtype'' \<mapsto> XText ''int64'']\<rparr>,
            ''DataChunk.d.1'' \<mapsto>
            \<lparr>obj_payload = Elements [12, 13],
             obj_xattrs = [''shape'' \<mapsto> XShape [2], ''dtype'' \<mapsto> XText ''int64'']\<rparr>]\<rparr>)
     = Inr (NDArray [3] [11, 12, 13])"
proof -
  let ?D = "\<lparr>name = ''d'', shape = [4], dtype = ''int64'', fillvalue = 7 :: int,
              chunks = [2], chunk_size = [2], njobs = None, read_only = False\<rparr>"
  let ?p0 = "\<lparr>pool_name = ''p'', pool_njobs = None,
              objects = (Map.empty :: string \<rightharpoonup> int pool_object)\<rparr>"
  let ?P = "\<lparr>pool_name = ''p'', pool_njobs = None,
           objects = [''d'' \<mapsto>
            \<lparr>obj_payload = Text signature,
             obj_xattrs = [''shape'' \<mapsto> XShape [4], ''dtype'' \<mapsto> XText ''int64'',
                           ''fillvalue'' \<mapsto> XValue (7 :: int), ''chunks'' \<mapsto> XShape [2],
                           ''chunk_size'' \<mapsto> XShape [2]]\<rparr>,
            ''DataChunk.d.0'' \<mapsto>
            \<lparr>obj_payload = Elements [10, 11],
             obj_xattrs = [''shape'' \<mapsto> XShape [2], ''dtype'' \<mapsto> XText ''int64'']\<rparr>,
            ''DataChunk.d.1'' \<mapsto>
            \<lparr>obj_payload = Elements [12, 13],
             obj_xattrs = [''shape'' \<mapsto> XShape [2], ''dtype'' \<mapsto> XText ''int64'']\<rparr>]\<rparr>"
  let ?idx = "Single (ESlice (Slice (Some 1) (Some 4) None))"
  let ?sched = "\<lambda>n. rev [0..<n]"
  have n0: "chunkname ?D [0] = ''DataChunk.d.0''" by code_simp
  have n1: "chunkname ?D [1] = ''DataChunk.d.1''" by code_simp
  have cn: "chunks_needed [4] [2] = [2]" by code_simp
  have c: "create ''d'' None ''int64'' (7 :: int) (ChunksSeq [2])
             (Some (NDArray [4] [10, 11, 12, 13])) False None ?p0 = (Inr ?D, ?P)"
    by (simp add: create_def pool_stat_def create_write_def validate_chunk_shape_def
        cn dataset_init_def pool_has_dataset_def get_value_xattr_def
        pool_get_njobs_def load_def gchunk_bounds_slices_def shape_at_def n0 n1
        set_chunk_data_p_def has_chunk_p_def pool_has_chunk_def create_chunk_p_def
        data_chunk_create_def chunk_create_data_def pool_write_full_def pool_set_xattr_def
        data_chunk_init_def base_data_init_def get_shape_xattr_def get_text_xattr_def
        pool_get_xattr_def pbind_def plift_def preturn_def praise_def np_getitem_def
        np_setitem_def to_np_def to_np_opt_def slice_range_def clip_bound_def broadcast_to_def
        np_tabulate_def np_at_def in_region_def np_full_def Let_def upt_conv_Cons)
  have g: "geometry_ok ?D"
    by (simp add: geometry_ok_def ceil_div_def)
  have b: "in_bounds (shape ?D) [Sl 1 4]"
    by (simp add: in_bounds_def)
  have p: "process_slices_squeeze ?D ?idx = Inr ([Sl 1 4], [])"
    by (simp add: process_slices_squeeze_def ndim_def fit_slices_def expand_ellipsis.simps
        shape_at_def)
  have s: "\<And>n. schedule_ok n (?sched n)"
    by (simp add: schedule_ok_def)
  have w: "(1 :: int) < 4" by simp
  have ne: "list_all (\<lambda>s. bstart s < bstop s) [Sl 1 4]" by simp
  have it: "get_chunk_slice_iterator ?D [Sl 1 4] =
      Inr [([0], [Sl 1 2], [Sl 0 1]), ([1], [Sl 0 2], [Sl 1 3])]"
    by (simp add: get_chunk_slice_iterator_def axis_targets_def chunk_iterator_def Let_def
        upto.simps)
  have q: "fst (getitem_sequential ?D ?idx ?P) = Inr (NDArray [3] [11, 12, 13])"
    by (simp add: getitem_sequential_def p it np_full_def n0 n1 get_chunk_data_p_def
        has_chunk_p_def pool_has_chunk_def pbind_def plift_def preturn_def praise_def
        get_existing_chunk_data_p_def get_existing_chunk_p_def data_chunk_init_def
        base_data_init_def get_shape_xattr_def get_text_xattr_def pool_get_xattr_def
        chunk_get_slices_def chunk_get_data_def pool_read_def from_payload_def np_getitem_def
        np_setitem_def to_np_def slice_range_def clip_bound_def broadcast_to_def
        np_tabulate_def np_at_def in_region_def squeeze_output_def Let_def upt_conv_Cons)
  have seq: "fst (getitem ?sched (?D\<lparr>njobs := Some 1\<rparr>) ?idx ?P) = Inr (NDArray [3] [11, 12, 13])"
    using q by (simp only: getitem_width_one)
  have par: "fst (getitem ?sched (?D\<lparr>njobs := Some 4\<rparr>) ?idx ?P) = Inr (NDArray [3] [11, 12, 13])"
    using getitem_parallel_sequential_nonempty [OF g b p s ne w,
        where r = "NDArray [3] [11, 12, 13]" and pool = ?P] seq
    by (rule iffD2)
  have b': "in_bounds [4] [Sl 1 4]" using b by simp
  from c g b' p s seq par show ?thesis by blast
qed

text \<open>
  Claim C3 (the code departs from it).  The claim asks that a read with parallelism width
  1 and a read with a width above 1 return the same array for every in-bounds region.
  The dataset and the pool are those that \<^verbatim>\<open>Dataset.create\<close> leaves after loading
  the array \<open>[10, 11, 12, 13]\<close> in chunks of 2.  The region \<open>0:0\<close> is in bounds: slice
  normalization accepts it.  With width 1 the read returns the array with no element; with
  width 4 it fails with a \<^verbatim>\<open>ValueError\<close>, in whatever order the tasks would take
  effect: the staged output has no cell, and \<^verbatim>\<open>np.memmap\<close> cannot map an empty
  file.
\<close>

theorem getitem_parallel_empty_region:
  "create ''d'' None ''int64'' (7 :: int) (ChunksSeq [2]) (Some (NDArray [4] [10, 11, 12, 13]))
      False None \<lparr>pool_name = ''p'', pool_njobs = None, objects = Map.empty\<rparr>
     = (Inr \<lparr>name = ''d'', shape = [4], dtype = ''int64'', fillvalue = 7,
              chunks = [2], chunk_size = [2], njobs = None, read_only = False\<rparr>,
        \<lparr>pool_name = ''p'', pool_njobs = None,
         objects = [''d'' \<mapsto>
            \<lparr>obj_payload = Text signature,
             obj_xattrs = [''shape'' \<mapsto> XShape [4], ''dtype'' \<mapsto> XText ''int64'',
                           ''fillvalue'' \<mapsto> XValue 7, ''chunks'' \<mapsto> XShape [2],
                           ''chunk_size'' \<mapsto> XShape [2]]\<rparr>,
            ''DataChunk.d.0'' \<mapsto>
            \<lparr>obj_payload = Elements [10, 11],
             obj_xattrs = [''shape'' \<mapsto> XShape [2], ''dtype'' \<mapsto> XText ''int64'']\<rparr>,
            ''DataChunk.d.1'' \<mapsto>
            \<lparr>obj_payload = Elements [12, 13],
             obj_xattrs = [''shape'' \<mapsto> XShape [2], ''dtype'' \<mapsto> XText ''int64'']\<rparr>]\<rparr>) \<and>
   process_slices_squeeze \<lparr>name = ''d'', shape = [4], dtype = ''int64'', fillvalue = 7 :: int,
              chunks = [2], chunk_size = [2], njobs = None, read_only = False\<rparr>
      (Single (ESlice (Slice (Some 0) (Some 0) None))) = Inr ([Sl 0 0], []) \<and>
   in_bounds [4] [Sl 0 0] \<and>
   fst (getitem sched
          (\<lparr>name = ''d'', shape = [4], dtype = ''int64'', fillvalue = 7 :: int,
              chunks = [2], chunk_size = [2], njobs = None, read_only = False\<rparr>\<lparr>njobs := Some 1\<rparr>)
          (Single (ESlice (Slice (Some 0) (Some 0) None)))
          \<lparr>pool_name = ''p'', pool_njobs = None,
           objects = [''d'' \<mapsto>
            \<lparr>obj_payload = Text signature,
             obj_xattrs = [''shape'' \<mapsto> XShape [4], ''dtype'' \<mapsto> XText ''int64'',
                           ''fillvalue'' \<mapsto> XValue 7, ''chunks'' \<mapsto> XShape [2],
                           ''chunk_size'' \<mapsto> XShape [2]]\<rparr>,
            ''DataChunk.d.0'' \<mapsto>
            \<lparr>obj_payload = Elements [10, 11],
             obj_xattrs = [''shape'' \<mapsto> XShape [2], ''dtype'' \<mapsto> XText ''int64'']\<rparr>,
            ''DataChunk.d.1'' \<mapsto>
            \<lparr>obj_payload = Elements [12, 13],
             obj_xattrs = [''shape'' \<mapsto> XShape [2], ''dtype'' \<mapsto> XText ''int64'']\<rparr>]\<rparr>)
     = Inr (NDArray [0] []) \<and>
   fst (getitem sched
          (\<lparr>name = ''d'', shape = [4], dtype = ''int64'', fillvalue = 7 :: int,
              chunks = [2], chunk_size = [2], njobs = None, read_only = False\<rparr>\<lparr>njobs := Some 4\<rparr>)
          (Single (ESlice (Slice (Some 0) (Some 0) None)))
          \<lparr>pool_name = ''p'', pool_njobs = None,
           objects = [''d'' \<mapsto>
            \<lparr>obj_payload = Text signature,
             obj_xattrs = [''shape'' \<mapsto> XShape [4], ''dtype'' \<mapsto> XText ''int64'',
                           ''fillvalue'' \<mapsto> XValue 7, ''chunks'' \<mapsto> XShape [2],
                           ''chunk_size'' \<mapsto> XShape [2]]\<rparr>,
            ''DataChunk.d.0'' \<mapsto>
            \<lparr>obj_payload = Elements [10, 11],
             obj_xattrs = [''shape'' \<mapsto> XShape [2], ''dtype'' \<mapsto> XText ''int64'']\<rparr>,
            ''DataChunk.d.1'' \<mapsto>
            \<lparr>obj_payload = Elements [12, 13],
             obj_xattrs = [''shape'' \<mapsto> XShape [2], ''dtype'' \<mapsto> XText ''int64'']\<rparr>]\<rparr>)
     = Inl ValueError"
proof -
  let ?D = "\<lparr>name = ''d'', shape = [4], dtype = ''int64'', fillvalue = 7 :: int,
              chunks = [2], chunk_size = [2], njobs = None, read_only = False\<rparr>"
  let ?p0 = "\<lparr>pool_name = ''p'', pool_njobs = None,
              objects = (Map.empty :: string \<rightharpoonup> int pool_object)\<rparr>"
  let ?P = "\<lparr>pool_name = ''p'', pool_njobs = None,
           objects = [''d'' \<mapsto>
            \<lparr>obj_payload = Text signature,
             obj_xattrs = [''shape'' \<mapsto> XShape [4], ''dtype'' \<mapsto> XText ''int64'',
                           ''fillvalue'' \<mapsto> XValue (7 :: int), ''chunks'' \<mapsto> XShape [2],
                           ''chunk_size'' \<mapsto> XShape [2]]\<rparr>,
            ''DataChunk.d.0'' \<mapsto>
            \<lparr>obj_payload = Elements [10, 11],
             obj_xattrs = [''shape'' \<mapsto> XShape [2], ''dtype'' \<mapsto> XText ''int64'']\<rparr>,
            ''DataChunk.d.1'' \<mapsto>
            \<lparr>obj_payload = Elements [12, 13],
             obj_xattrs = [''shape'' \<mapsto> XShape [2], ''dtype'' \<mapsto> XText ''int64'']\<rparr>]\<rparr>"
  let ?idx = "Single (ESlice (Slice (Some 0) (Some 0) None))"
  have n0: "chunkname ?D [0] = ''DataChunk.d.0''" by code_simp
  have n1: "chunkname ?D [1] = ''DataChunk.d.1''" by code_simp
  have cn: "chunks_needed [4] [2] = [2]" by code_simp
  have c: "create ''d'' None ''int64'' (7 :: int) (ChunksSeq [2])
             (Some (NDArray [4] [10, 11, 12, 13])) False None ?p0 = (Inr ?D, ?P)"
    by (simp add: create_def pool_stat_def create_write_def validate_chunk_shape_def
        cn dataset_init_def pool_has_dataset_def get_value_xattr_def
        pool_get_njobs_def load_def gchunk_bounds_slices_def shape_at_def n0 n1
        set_chunk_data_p_def has_chunk_p_def pool_has_chunk_def create_chunk_p_def
        data_chunk_create_def chunk_create_data_def pool_write_full_def pool_set_xattr_def
        data_chunk_init_def base_data_init_def get_shape_xattr_def get_text_xattr_def
        pool_get_xattr_def pbind_def plift_def preturn_def praise_def np_getitem_def
        np_setitem_def to_np_def to_np_opt_def slice_range_def clip_bound_def broadcast_to_def
        np_tabulate_def np_at_def in_region_def np_full_def Let_def upt_conv_Cons)
  have p: "process_slices_squeeze ?D ?idx = Inr ([Sl 0 0], [])"
    by (simp add: process_slices_squeeze_def ndim_def fit_slices_def expand_ellipsis.simps
        shape_at_def)
  have b: "in_bounds [4] [Sl 0 0]"
    by (simp add: in_bounds_def)
  have it: "get_chunk_slice_iterator ?D [Sl 0 0] = Inr [([0], [Sl 0 0], [Sl 0 0])]"
    by (simp add: get_chunk_slice_iterator_def axis_targets_def chunk_iterator_def Let_def
        upto.simps)
  have q: "fst (getitem_sequential ?D ?idx ?P) = Inr (NDArray [0] [])"
    by (simp add: getitem_sequential_def p it np_full_def n0 get_chunk_data_p_def
        has_chunk_p_def pool_has_chunk_def pbind_def plift_def preturn_def praise_def
        get_existing_chunk_data_p_def get_existing_chunk_p_def data_chunk_init_def
        base_data_init_def get_shape_xattr_def get_text_xattr_def pool_get_xattr_def
        chunk_get_slices_def chunk_get_data_def pool_read_def from_payload_def np_getitem_def
        np_setitem_def to_np_def slice_range_def clip_bound_def broadcast_to_def
        np_tabulate_def np_at_def in_region_def squeeze_output_def Let_def)
  have seq: "fst (getitem sched (?D\<lparr>njobs := Some 1\<rparr>) ?idx ?P) = Inr (NDArray [0] [])"
    using q by (simp only: getitem_width_one)
  have p4: "process_slices_squeeze (?D\<lparr>njobs := Some 4\<rparr>) ?idx = Inr ([Sl 0 0], [])"
    using p by (simp only: process_slices_squeeze_njobs)
  have it4: "get_chunk_slice_iterator (?D\<lparr>njobs := Some 4\<rparr>) [Sl 0 0] =
      Inr [([0], [Sl 0 0], [Sl 0 0])]"
    using it by (simp only: get_chunk_slice_iterator_njobs)
  have "getitem sched (?D\<lparr>njobs := Some 4\<rparr>) ?idx ?P =
      getitem_parallel sched (?D\<lparr>njobs := Some 4\<rparr>) ?idx ?P"
    by (simp add: getitem_def)
  also have "fst \<dots> = Inl ValueError"
    by (simp only: getitem_parallel_def p4 pbind_plift_Inr prod.case it4)
      (simp add: np_memmap_new_def praise_def)
  finally have par: "fst (getitem sched (?D\<lparr>njobs := Some 4\<rparr>) ?idx ?P) = Inl ValueError" .
  from c p b seq par show ?thesis by blast
qed

end
